(* ===== verification/Prelude.thy ===== *)
theory Prelude
  imports Main "HOL-Library.Word" "HOL-Library.Monad_Syntax"
begin

text \<open>
  The shared vocabulary of the development: byte strings and machine integers, the C++ exceptions
  and aborts of the program as values, \<open>memcpy\<close> on fixed buffers, little-endian numbers, and
  the generic lemmas on them. Nothing here is specific to one component.
\<close>

unbundle bit_operations_syntax

subsection \<open>Types\<close>

text \<open>
  A \<open>std::string\<close> and the content of a buffer are sequences of 8-bit characters. Pointers to
  objects of other libraries are opaque numbers; a pointer that may be \<open>nullptr\<close> is an
  \<open>option\<close>. Return codes of C functions are \<open>int\<close>: the program compares and ors them only.
\<close>

type_synonym bytes = "char list"
type_synonym u32 = "32 word"
type_synonym u64 = "64 word"
type_synonym c_int = "32 word"
type_synonym ptr = nat
type_synonym addr = nat
type_synonym fd = int

text \<open>
  What can leave a function other than by \<open>return\<close>: a \<open>std::runtime_error\<close>, an
  exception of the decoder (\<open>ceph::buffer::error\<close>), a failed \<open>assert\<close>, and the undefined
  behaviours the model makes explicit: a dereference of a destroyed object, of a null
  pointer, an access outside a \<open>std::string\<close>.
\<close>

datatype failure =
    Runtime_error string
  | Buffer_error
  | Assertion_failed
  | Use_after_free
  | Null_dereference
  | Out_of_range

type_synonym 'a result = "failure + 'a"

text \<open>Collections used by \<open>simp add:\<close> throughout the components.\<close>

named_theorems env_simps \<open>what each external call returns and appends to the trace\<close>
named_theorems codec_simps \<open>round trips and lengths of the encoders\<close>
named_theorems obj_defs \<open>operations of the small value classes\<close>

subsection \<open>Buffers\<close>

text \<open>\<open>memcpy(dst, src, n)\<close> with \<open>n\<close> at most the length of both.\<close>

definition memcpy :: "bytes \<Rightarrow> bytes \<Rightarrow> nat \<Rightarrow> bytes" where
  "memcpy dst src n = take n src @ drop n dst"

lemma length_memcpy [simp]:
  "n \<le> length src \<Longrightarrow> n \<le> length dst \<Longrightarrow> length (memcpy dst src n) = length dst"
  by (simp add: memcpy_def)

lemma memcpy_all: "memcpy dst src (length src) = src @ drop (length src) dst"
  by (simp add: memcpy_def)

lemma memcpy_nth:
  assumes "n \<le> length src" and "n \<le> length dst" and "i < length dst"
  shows "memcpy dst src n ! i = (if i < n then src ! i else dst ! i)"
  using assms by (simp add: memcpy_def nth_append)

text \<open>\<open>std::string::resize(n)\<close>: cut or padded with NUL characters.\<close>

definition str_resize :: "bytes \<Rightarrow> nat \<Rightarrow> bytes" where
  "str_resize s n = take n s @ replicate (n - length s) (CHR 0x00)"

lemma length_str_resize [simp]: "length (str_resize s n) = n"
  by (simp add: str_resize_def)

lemma take_str_resize: "m \<le> length s \<Longrightarrow> m \<le> n \<Longrightarrow> take m (str_resize s n) = take m s"
  by (simp add: str_resize_def min_def)

text \<open>A write of \<open>d\<close> at offset \<open>i\<close> of a buffer that is long enough.\<close>

definition blit :: "bytes \<Rightarrow> nat \<Rightarrow> bytes \<Rightarrow> bytes" where
  "blit s i d = take i s @ d @ drop (i + length d) s"

lemma length_blit [simp]: "i + length d \<le> length s \<Longrightarrow> length (blit s i d) = length s"
  by (simp add: blit_def)

lemma take_blit: "i \<le> length s \<Longrightarrow> take i (blit s i d) = take i s"
  by (simp add: blit_def)

lemma drop_blit_end: "i + length d = length s \<Longrightarrow> drop i (blit s i d) = d"
  by (simp add: blit_def)

lemma blit_zero_all: "length d = length s \<Longrightarrow> blit s 0 d = d"
  by (simp add: blit_def)

subsection \<open>Little-endian numbers\<close>

primrec le_bytes :: "nat \<Rightarrow> nat \<Rightarrow> bytes" where
  "le_bytes 0 n = []"
| "le_bytes (Suc k) n = char_of (n mod 256) # le_bytes k (n div 256)"

primrec nat_of_le :: "bytes \<Rightarrow> nat" where
  "nat_of_le [] = 0"
| "nat_of_le (c # cs) = of_char c + 256 * nat_of_le cs"

lemma length_le_bytes [simp]: "length (le_bytes k n) = k"
  by (induction k arbitrary: n) auto

lemma nat_of_le_bytes: "nat_of_le (le_bytes k n) = n mod 256 ^ k"
proof (induction k arbitrary: n)
  case 0
  then show ?case by simp
next
  case (Suc k)
  have "n mod (256 * 256 ^ k) = 256 * (n div 256 mod 256 ^ k) + n mod 256"
    by (rule mod_mult2_eq)
  with Suc show ?case by simp
qed

lemma nat_of_le_bytes_small [simp]: "n < 256 ^ k \<Longrightarrow> nat_of_le (le_bytes k n) = n"
  by (simp add: nat_of_le_bytes)

lemma unat_u32_bound: "unat (x :: u32) < 4294967296"
  using unsigned_less [of x] by simp

lemma unat_u64_bound: "unat (x :: u64) < 18446744073709551616"
  using unsigned_less [of x] by simp

subsection \<open>Decimal numbers\<close>

text \<open>\<open>std::to_string\<close> of an unsigned number.\<close>

fun dec_digits :: "nat \<Rightarrow> string" where
  "dec_digits n = (if n < 10 then [char_of (48 + n)] else dec_digits (n div 10) @ [char_of (48 + n mod 10)])"

declare dec_digits.simps [simp del]

end
