(* ===== verification/Librpma.thy ===== *)
theory Librpma
  imports Prelude
begin

text \<open>
  The constants and types of \<open>include/librpma.h\<close> that the program uses: error codes,
  memory usage and completion flags, and the enumerations. The functions of the library are
  parameters of the model (theory Environment); what the header documents of them is stated as
  contracts (theory Contracts).
\<close>

subsection \<open>Error codes\<close>

definition RPMA_E_UNKNOWN :: int where "RPMA_E_UNKNOWN = -100000"
definition RPMA_E_NOSUPP :: int where "RPMA_E_NOSUPP = -100001"
definition RPMA_E_PROVIDER :: int where "RPMA_E_PROVIDER = -100002"
definition RPMA_E_NOMEM :: int where "RPMA_E_NOMEM = -100003"
definition RPMA_E_INVAL :: int where "RPMA_E_INVAL = -100004"
definition RPMA_E_NO_COMPLETION :: int where "RPMA_E_NO_COMPLETION = -100005"
definition RPMA_E_NO_EVENT :: int where "RPMA_E_NO_EVENT = -100006"
definition RPMA_E_AGAIN :: int where "RPMA_E_AGAIN = -100007"

lemmas rpma_errors =
  RPMA_E_UNKNOWN_def RPMA_E_NOSUPP_def RPMA_E_PROVIDER_def RPMA_E_NOMEM_def
  RPMA_E_INVAL_def RPMA_E_NO_COMPLETION_def RPMA_E_NO_EVENT_def RPMA_E_AGAIN_def

lemma rpma_errors_nonzero [simp]:
  "RPMA_E_UNKNOWN \<noteq> 0" "RPMA_E_NOSUPP \<noteq> 0" "RPMA_E_PROVIDER \<noteq> 0" "RPMA_E_NOMEM \<noteq> 0"
  "RPMA_E_INVAL \<noteq> 0" "RPMA_E_NO_COMPLETION \<noteq> 0" "RPMA_E_NO_EVENT \<noteq> 0" "RPMA_E_AGAIN \<noteq> 0"
  by (simp_all add: rpma_errors)

subsection \<open>Enumerations\<close>

datatype rpma_util_ibv_context_type =
    RPMA_UTIL_IBV_CONTEXT_LOCAL
  | RPMA_UTIL_IBV_CONTEXT_REMOTE

datatype rpma_conn_event =
    RPMA_CONN_UNDEFINED
  | RPMA_CONN_ESTABLISHED
  | RPMA_CONN_CLOSED
  | RPMA_CONN_LOST

datatype rpma_flush_type =
    RPMA_FLUSH_TYPE_PERSISTENT
  | RPMA_FLUSH_TYPE_VISIBILITY

datatype rpma_log_level =
    RPMA_LOG_DISABLED
  | RPMA_LOG_LEVEL_FATAL
  | RPMA_LOG_LEVEL_ERROR
  | RPMA_LOG_LEVEL_WARNING
  | RPMA_LOG_LEVEL_NOTICE
  | RPMA_LOG_LEVEL_INFO
  | RPMA_LOG_LEVEL_DEBUG

datatype rpma_log_threshold =
    RPMA_LOG_THRESHOLD
  | RPMA_LOG_THRESHOLD_AUX
  | RPMA_LOG_THRESHOLD_MAX

datatype rpma_op =
    RPMA_OP_READ
  | RPMA_OP_WRITE
  | RPMA_OP_FLUSH
  | RPMA_OP_SEND
  | RPMA_OP_RECV

text \<open>
  A completion. \<open>op_context\<close> is the pointer given when the operation was posted,
  \<open>op_status\<close> a code of libibverbs in which \<open>IBV_WC_SUCCESS\<close> is 0.
\<close>

record rpma_completion =
  op_context :: "ptr option"
  op :: rpma_op
  byte_len :: u32
  op_status :: int

definition IBV_WC_SUCCESS :: int where "IBV_WC_SUCCESS = 0"

subsection \<open>Flags\<close>

definition RPMA_MR_USAGE_READ_SRC :: int where "RPMA_MR_USAGE_READ_SRC = push_bit 0 1"
definition RPMA_MR_USAGE_READ_DST :: int where "RPMA_MR_USAGE_READ_DST = push_bit 1 1"
definition RPMA_MR_USAGE_WRITE_SRC :: int where "RPMA_MR_USAGE_WRITE_SRC = push_bit 2 1"
definition RPMA_MR_USAGE_WRITE_DST :: int where "RPMA_MR_USAGE_WRITE_DST = push_bit 3 1"
definition RPMA_MR_USAGE_FLUSH_TYPE_VISIBILITY :: int where
  "RPMA_MR_USAGE_FLUSH_TYPE_VISIBILITY = push_bit 4 1"
definition RPMA_MR_USAGE_FLUSH_TYPE_PERSISTENT :: int where
  "RPMA_MR_USAGE_FLUSH_TYPE_PERSISTENT = push_bit 5 1"
definition RPMA_MR_USAGE_SEND :: int where "RPMA_MR_USAGE_SEND = push_bit 6 1"
definition RPMA_MR_USAGE_RECV :: int where "RPMA_MR_USAGE_RECV = push_bit 7 1"

definition RPMA_F_COMPLETION_ON_ERROR :: int where "RPMA_F_COMPLETION_ON_ERROR = push_bit 0 1"
definition RPMA_F_COMPLETION_ALWAYS :: int where
  "RPMA_F_COMPLETION_ALWAYS = push_bit 1 1 OR RPMA_F_COMPLETION_ON_ERROR"

lemmas rpma_usages =
  RPMA_MR_USAGE_READ_SRC_def RPMA_MR_USAGE_READ_DST_def RPMA_MR_USAGE_WRITE_SRC_def
  RPMA_MR_USAGE_WRITE_DST_def RPMA_MR_USAGE_FLUSH_TYPE_VISIBILITY_def
  RPMA_MR_USAGE_FLUSH_TYPE_PERSISTENT_def RPMA_MR_USAGE_SEND_def RPMA_MR_USAGE_RECV_def

text \<open>The usage bits are pairwise different, so a usage mask determines its operations.\<close>

lemma usage_bits:
  "RPMA_MR_USAGE_READ_SRC = 1" "RPMA_MR_USAGE_READ_DST = 2" "RPMA_MR_USAGE_WRITE_SRC = 4"
  "RPMA_MR_USAGE_WRITE_DST = 8" "RPMA_MR_USAGE_FLUSH_TYPE_VISIBILITY = 16"
  "RPMA_MR_USAGE_FLUSH_TYPE_PERSISTENT = 32" "RPMA_MR_USAGE_SEND = 64" "RPMA_MR_USAGE_RECV = 128"
  by (simp_all add: rpma_usages push_bit_eq_mult)

lemma completion_always: "RPMA_F_COMPLETION_ALWAYS = 3"
  by (simp add: RPMA_F_COMPLETION_ALWAYS_def RPMA_F_COMPLETION_ON_ERROR_def push_bit_eq_mult)

end
