(* ===== verification/Environment.thy ===== *)
theory Environment
  imports Librpma
begin

text \<open>
  The code the program calls but does not contain: librpma, libpmem, the heap, the file system
  and epoll. Each call is a typed oracle, a field of an environment record, that answers from
  the history of all earlier calls; the model is a function of the environment, so a theorem
  about every environment is a theorem about every behaviour of those libraries. A call appends
  an event with its arguments and its answer to the trace, so that the order of calls and
  the resources they create and release are facts about traces.

  An out-parameter that the caller initialises before the call and that a failed call leaves
  alone is an \<open>option\<close>; one that the caller leaves uninitialised is a plain value, which
  after a failed call is arbitrary.
\<close>

subsection \<open>Events\<close>

text \<open>Heap, libpmem and files (\<open>MemoryManager.cc\<close>).\<close>

datatype mem_event =
    Ev_access string bool
  | Ev_pmem_map_file string u64 bool "addr option \<times> u64 \<times> bool"
  | Ev_pmem_unmap addr u64
  | Ev_malloc u64 "addr option"
  | Ev_free addr
  | Ev_remove string int
  | Ev_bufferptr nat "addr \<times> bytes"

text \<open>File descriptors and epoll (\<open>Reactor.cc\<close>).\<close>

datatype poll_event =
    Ev_epoll_create fd
  | Ev_close fd
  | Ev_fcntl_getfl fd "int \<times> int"
  | Ev_fcntl_setfl fd int "int \<times> int"
  | Ev_epoll_add fd ptr "int \<times> int"
  | Ev_epoll_del fd int
  | Ev_epoll_wait "int \<times> ptr option"

text \<open>Peers, endpoints, connection requests and configurations.\<close>

datatype setup_event =
    Ev_get_ibv_context string rpma_util_ibv_context_type "int \<times> ptr option"
  | Ev_peer_new "ptr option" "int \<times> ptr option"
  | Ev_peer_delete ptr
  | Ev_ep_listen "ptr option" string string "int \<times> ptr option"
  | Ev_ep_shutdown ptr
  | Ev_ep_get_fd "ptr option" "int \<times> fd option"
  | Ev_ep_next_conn_req "ptr option" "int \<times> ptr option"
  | Ev_conn_cfg_new "int \<times> ptr option"
  | Ev_conn_cfg_set_sq_size "ptr option" u32
  | Ev_conn_cfg_set_rq_size "ptr option" u32
  | Ev_conn_cfg_set_cq_size "ptr option" u32
  | Ev_conn_cfg_delete "ptr option"
  | Ev_conn_req_new "ptr option" string string "ptr option" "int \<times> ptr option"
  | Ev_conn_req_delete "ptr option"
  | Ev_conn_req_connect "ptr option" "int \<times> ptr option \<times> ptr option"
  | Ev_log_set_threshold rpma_log_threshold rpma_log_level

text \<open>Established connections.\<close>

datatype conn_event =
    Ev_conn_get_event_fd "ptr option" "int \<times> fd option"
  | Ev_conn_get_completion_fd "ptr option" "int \<times> fd option"
  | Ev_conn_next_event "ptr option" "int \<times> rpma_conn_event"
  | Ev_conn_completion_wait "ptr option" int
  | Ev_conn_completion_get "ptr option" "int \<times> rpma_completion"
  | Ev_conn_apply_remote_peer_cfg "ptr option" "ptr option"
  | Ev_conn_disconnect "ptr option" int
  | Ev_conn_delete ptr

text \<open>Memory regions, descriptors and peer configurations.\<close>

datatype mr_event =
    Ev_mr_reg "ptr option" "addr option" u64 int "int \<times> ptr option"
  | Ev_mr_dereg ptr
  | Ev_mr_get_descriptor_size "ptr option" "int \<times> u64"
  | Ev_mr_get_descriptor "ptr option" "int \<times> bytes option"
  | Ev_mr_remote_from_descriptor bytes "int \<times> ptr option"
  | Ev_mr_remote_get_size "ptr option" "int \<times> u64"
  | Ev_peer_cfg_new "int \<times> ptr option"
  | Ev_peer_cfg_set_direct_write "ptr option" bool int
  | Ev_peer_cfg_get_direct_write "ptr option" "int \<times> bool option"
  | Ev_peer_cfg_get_descriptor_size "ptr option" "int \<times> u64"
  | Ev_peer_cfg_get_descriptor "ptr option" "int \<times> bytes option"
  | Ev_peer_cfg_from_descriptor bytes "int \<times> ptr option"
  | Ev_peer_cfg_delete "ptr option"

text \<open>Posted operations; the last pointer is the \<open>op_context\<close>.\<close>

datatype post_event =
    Ev_conn_req_recv "ptr option" "ptr option" u64 u64 "ptr option" int
  | Ev_recv "ptr option" "ptr option" u64 u64 "ptr option" int
  | Ev_send "ptr option" "ptr option" u64 u64 int "ptr option" int
  | Ev_write "ptr option" "ptr option" u64 "ptr option" u64 u64 int "ptr option" int
  | Ev_flush "ptr option" "ptr option" u64 u64 rpma_flush_type int "ptr option" int
  | Ev_read "ptr option" "ptr option" u64 "ptr option" u64 u64 int "ptr option" int
  | Ev_write_atomic "ptr option" "ptr option" u64 "ptr option" u64 int "ptr option" int

datatype event =
    Mem mem_event
  | Poll poll_event
  | Setup setup_event
  | Conn conn_event
  | Mr mr_event
  | Post post_event

type_synonym trace = "event list"

subsection \<open>Environments\<close>

record mem_env =
  e_access :: "trace \<Rightarrow> string \<Rightarrow> bool"
  e_pmem_map_file :: "trace \<Rightarrow> string \<Rightarrow> u64 \<Rightarrow> bool \<Rightarrow> addr option \<times> u64 \<times> bool"
  e_malloc :: "trace \<Rightarrow> u64 \<Rightarrow> addr option"
  e_remove :: "trace \<Rightarrow> string \<Rightarrow> int"
  e_bufferptr :: "trace \<Rightarrow> nat \<Rightarrow> addr \<times> bytes"

record poll_env =
  e_epoll_create :: "trace \<Rightarrow> fd"
  e_fcntl_getfl :: "trace \<Rightarrow> fd \<Rightarrow> int \<times> int"
  e_fcntl_setfl :: "trace \<Rightarrow> fd \<Rightarrow> int \<Rightarrow> int \<times> int"
  e_epoll_add :: "trace \<Rightarrow> fd \<Rightarrow> ptr \<Rightarrow> int \<times> int"
  e_epoll_del :: "trace \<Rightarrow> fd \<Rightarrow> int"
  e_epoll_wait :: "trace \<Rightarrow> int \<times> ptr option"

record setup_env =
  e_get_ibv_context :: "trace \<Rightarrow> string \<Rightarrow> rpma_util_ibv_context_type \<Rightarrow> int \<times> ptr option"
  e_peer_new :: "trace \<Rightarrow> ptr option \<Rightarrow> int \<times> ptr option"
  e_ep_listen :: "trace \<Rightarrow> ptr option \<Rightarrow> string \<Rightarrow> string \<Rightarrow> int \<times> ptr option"
  e_ep_get_fd :: "trace \<Rightarrow> ptr option \<Rightarrow> int \<times> fd option"
  e_ep_next_conn_req :: "trace \<Rightarrow> ptr option \<Rightarrow> int \<times> ptr option"
  e_conn_cfg_new :: "trace \<Rightarrow> int \<times> ptr option"
  e_conn_req_new :: "trace \<Rightarrow> ptr option \<Rightarrow> string \<Rightarrow> string \<Rightarrow> ptr option \<Rightarrow> int \<times> ptr option"
  e_conn_req_connect :: "trace \<Rightarrow> ptr option \<Rightarrow> int \<times> ptr option \<times> ptr option"

record conn_env =
  e_conn_get_event_fd :: "trace \<Rightarrow> ptr option \<Rightarrow> int \<times> fd option"
  e_conn_get_completion_fd :: "trace \<Rightarrow> ptr option \<Rightarrow> int \<times> fd option"
  e_conn_next_event :: "trace \<Rightarrow> ptr option \<Rightarrow> int \<times> rpma_conn_event"
  e_conn_completion_wait :: "trace \<Rightarrow> ptr option \<Rightarrow> int"
  e_conn_completion_get :: "trace \<Rightarrow> ptr option \<Rightarrow> int \<times> rpma_completion"
  e_conn_disconnect :: "trace \<Rightarrow> ptr option \<Rightarrow> int"

record mr_env =
  e_mr_reg :: "trace \<Rightarrow> ptr option \<Rightarrow> addr option \<Rightarrow> u64 \<Rightarrow> int \<Rightarrow> int \<times> ptr option"
  e_mr_get_descriptor_size :: "trace \<Rightarrow> ptr option \<Rightarrow> int \<times> u64"
  e_mr_get_descriptor :: "trace \<Rightarrow> ptr option \<Rightarrow> int \<times> bytes option"
  e_mr_remote_from_descriptor :: "trace \<Rightarrow> bytes \<Rightarrow> int \<times> ptr option"
  e_mr_remote_get_size :: "trace \<Rightarrow> ptr option \<Rightarrow> int \<times> u64"
  e_peer_cfg_new :: "trace \<Rightarrow> int \<times> ptr option"
  e_peer_cfg_set_direct_write :: "trace \<Rightarrow> ptr option \<Rightarrow> bool \<Rightarrow> int"
  e_peer_cfg_get_direct_write :: "trace \<Rightarrow> ptr option \<Rightarrow> int \<times> bool option"
  e_peer_cfg_get_descriptor_size :: "trace \<Rightarrow> ptr option \<Rightarrow> int \<times> u64"
  e_peer_cfg_get_descriptor :: "trace \<Rightarrow> ptr option \<Rightarrow> int \<times> bytes option"
  e_peer_cfg_from_descriptor :: "trace \<Rightarrow> bytes \<Rightarrow> int \<times> ptr option"

record post_env =
  e_conn_req_recv :: "trace \<Rightarrow> ptr option \<Rightarrow> ptr option \<Rightarrow> u64
    \<Rightarrow> u64 \<Rightarrow> ptr option \<Rightarrow> int"
  e_recv :: "trace \<Rightarrow> ptr option \<Rightarrow> ptr option \<Rightarrow> u64
    \<Rightarrow> u64 \<Rightarrow> ptr option \<Rightarrow> int"
  e_send :: "trace \<Rightarrow> ptr option \<Rightarrow> ptr option \<Rightarrow> u64
    \<Rightarrow> u64 \<Rightarrow> int \<Rightarrow> ptr option \<Rightarrow> int"
  e_write :: "trace \<Rightarrow> ptr option \<Rightarrow> ptr option \<Rightarrow> u64
    \<Rightarrow> ptr option \<Rightarrow> u64 \<Rightarrow> u64 \<Rightarrow> int \<Rightarrow> ptr option \<Rightarrow> int"
  e_flush :: "trace \<Rightarrow> ptr option \<Rightarrow> ptr option \<Rightarrow> u64
    \<Rightarrow> u64 \<Rightarrow> rpma_flush_type \<Rightarrow> int \<Rightarrow> ptr option \<Rightarrow> int"
  e_read :: "trace \<Rightarrow> ptr option \<Rightarrow> ptr option \<Rightarrow> u64
    \<Rightarrow> ptr option \<Rightarrow> u64 \<Rightarrow> u64 \<Rightarrow> int \<Rightarrow> ptr option \<Rightarrow> int"
  e_write_atomic :: "trace \<Rightarrow> ptr option \<Rightarrow> ptr option \<Rightarrow> u64
    \<Rightarrow> ptr option \<Rightarrow> u64 \<Rightarrow> int \<Rightarrow> ptr option \<Rightarrow> int"

record env =
  mem_of :: mem_env
  poll_of :: poll_env
  setup_of :: setup_env
  conn_of :: conn_env
  mr_of :: mr_env
  post_of :: post_env

subsection \<open>Calls\<close>

text \<open>Ask the oracle about the history so far and append what happened.\<close>

definition call :: "(trace \<Rightarrow> 'r) \<Rightarrow> ('r \<Rightarrow> event) \<Rightarrow> trace \<Rightarrow> 'r \<times> trace" where
  "call oracle ev tr = (oracle tr, tr @ [ev (oracle tr)])"

declare call_def [env_simps]

lemma call_pair: "call f ev tr = (r, tr') \<longleftrightarrow> r = f tr \<and> tr' = tr @ [ev (f tr)]"
  by (auto simp: call_def)

text \<open>Calls on heap, libpmem and files.\<close>

definition access :: "env \<Rightarrow> string \<Rightarrow> trace \<Rightarrow> bool \<times> trace" where
  "access e x1 =
     call (\<lambda>tr. e_access (mem_of e) tr x1) (\<lambda>r. Mem (Ev_access x1 r))"

definition pmem_map_file :: "env \<Rightarrow> string \<Rightarrow> u64 \<Rightarrow> bool
    \<Rightarrow> trace \<Rightarrow> (addr option \<times> u64 \<times> bool) \<times> trace" where
  "pmem_map_file e x1 x2 x3 =
     call (\<lambda>tr. e_pmem_map_file (mem_of e) tr x1 x2 x3) (\<lambda>r. Mem (Ev_pmem_map_file x1 x2 x3 r))"

definition malloc :: "env \<Rightarrow> u64 \<Rightarrow> trace \<Rightarrow> addr option \<times> trace" where
  "malloc e x1 =
     call (\<lambda>tr. e_malloc (mem_of e) tr x1) (\<lambda>r. Mem (Ev_malloc x1 r))"

definition remove_file :: "env \<Rightarrow> string \<Rightarrow> trace \<Rightarrow> int \<times> trace" where
  "remove_file e x1 =
     call (\<lambda>tr. e_remove (mem_of e) tr x1) (\<lambda>r. Mem (Ev_remove x1 r))"

definition bufferptr_create :: "env \<Rightarrow> nat \<Rightarrow> trace \<Rightarrow> (addr \<times> bytes) \<times> trace" where
  "bufferptr_create e x1 =
     call (\<lambda>tr. e_bufferptr (mem_of e) tr x1) (\<lambda>r. Mem (Ev_bufferptr x1 r))"

text \<open>Calls on descriptors and epoll.\<close>

definition epoll_create1 :: "env \<Rightarrow> trace \<Rightarrow> fd \<times> trace" where
  "epoll_create1 e =
     call (\<lambda>tr. e_epoll_create (poll_of e) tr) (\<lambda>r. Poll (Ev_epoll_create r))"

definition fcntl_getfl :: "env \<Rightarrow> fd \<Rightarrow> trace
    \<Rightarrow> (int \<times> int) \<times> trace" where
  "fcntl_getfl e x1 =
     call (\<lambda>tr. e_fcntl_getfl (poll_of e) tr x1) (\<lambda>r. Poll (Ev_fcntl_getfl x1 r))"

definition fcntl_setfl :: "env \<Rightarrow> fd \<Rightarrow> int \<Rightarrow> trace
    \<Rightarrow> (int \<times> int) \<times> trace" where
  "fcntl_setfl e x1 x2 =
     call (\<lambda>tr. e_fcntl_setfl (poll_of e) tr x1 x2) (\<lambda>r. Poll (Ev_fcntl_setfl x1 x2 r))"

definition epoll_ctl_add :: "env \<Rightarrow> fd \<Rightarrow> ptr \<Rightarrow> trace
    \<Rightarrow> (int \<times> int) \<times> trace" where
  "epoll_ctl_add e x1 x2 =
     call (\<lambda>tr. e_epoll_add (poll_of e) tr x1 x2) (\<lambda>r. Poll (Ev_epoll_add x1 x2 r))"

definition epoll_ctl_del :: "env \<Rightarrow> fd \<Rightarrow> trace \<Rightarrow> int \<times> trace" where
  "epoll_ctl_del e x1 =
     call (\<lambda>tr. e_epoll_del (poll_of e) tr x1) (\<lambda>r. Poll (Ev_epoll_del x1 r))"

definition epoll_wait :: "env \<Rightarrow> trace \<Rightarrow> (int \<times> ptr option) \<times> trace" where
  "epoll_wait e =
     call (\<lambda>tr. e_epoll_wait (poll_of e) tr) (\<lambda>r. Poll (Ev_epoll_wait r))"

text \<open>Calls on peers, endpoints and connection requests.\<close>

definition rpma_utils_get_ibv_context :: "env \<Rightarrow> string \<Rightarrow> rpma_util_ibv_context_type
    \<Rightarrow> trace \<Rightarrow> (int \<times> ptr option) \<times> trace" where
  "rpma_utils_get_ibv_context e x1 x2 =
     call (\<lambda>tr. e_get_ibv_context (setup_of e) tr x1 x2) (\<lambda>r. Setup (Ev_get_ibv_context x1 x2 r))"

definition rpma_peer_new :: "env \<Rightarrow> ptr option \<Rightarrow> trace
    \<Rightarrow> (int \<times> ptr option) \<times> trace" where
  "rpma_peer_new e x1 =
     call (\<lambda>tr. e_peer_new (setup_of e) tr x1) (\<lambda>r. Setup (Ev_peer_new x1 r))"

definition rpma_ep_listen :: "env \<Rightarrow> ptr option \<Rightarrow> string \<Rightarrow> string
    \<Rightarrow> trace \<Rightarrow> (int \<times> ptr option) \<times> trace" where
  "rpma_ep_listen e x1 x2 x3 =
     call (\<lambda>tr. e_ep_listen (setup_of e) tr x1 x2 x3) (\<lambda>r. Setup (Ev_ep_listen x1 x2 x3 r))"

definition rpma_ep_get_fd :: "env \<Rightarrow> ptr option \<Rightarrow> trace
    \<Rightarrow> (int \<times> fd option) \<times> trace" where
  "rpma_ep_get_fd e x1 =
     call (\<lambda>tr. e_ep_get_fd (setup_of e) tr x1) (\<lambda>r. Setup (Ev_ep_get_fd x1 r))"

definition rpma_ep_next_conn_req :: "env \<Rightarrow> ptr option \<Rightarrow> trace
    \<Rightarrow> (int \<times> ptr option) \<times> trace" where
  "rpma_ep_next_conn_req e x1 =
     call (\<lambda>tr. e_ep_next_conn_req (setup_of e) tr x1) (\<lambda>r. Setup (Ev_ep_next_conn_req x1 r))"

definition rpma_conn_cfg_new :: "env \<Rightarrow> trace \<Rightarrow> (int \<times> ptr option) \<times> trace" where
  "rpma_conn_cfg_new e =
     call (\<lambda>tr. e_conn_cfg_new (setup_of e) tr) (\<lambda>r. Setup (Ev_conn_cfg_new r))"

definition rpma_conn_req_new :: "env \<Rightarrow> ptr option \<Rightarrow> string \<Rightarrow> string
    \<Rightarrow> ptr option \<Rightarrow> trace \<Rightarrow> (int \<times> ptr option) \<times> trace" where
  "rpma_conn_req_new e x1 x2 x3 x4 =
     call (\<lambda>tr. e_conn_req_new (setup_of e) tr x1 x2 x3 x4) (\<lambda>r. Setup (Ev_conn_req_new x1 x2 x3 x4 r))"

definition rpma_conn_req_connect :: "env \<Rightarrow> ptr option \<Rightarrow> trace
    \<Rightarrow> (int \<times> ptr option \<times> ptr option) \<times> trace" where
  "rpma_conn_req_connect e x1 =
     call (\<lambda>tr. e_conn_req_connect (setup_of e) tr x1) (\<lambda>r. Setup (Ev_conn_req_connect x1 r))"

text \<open>Calls on connections.\<close>

definition rpma_conn_get_event_fd :: "env \<Rightarrow> ptr option \<Rightarrow> trace
    \<Rightarrow> (int \<times> fd option) \<times> trace" where
  "rpma_conn_get_event_fd e x1 =
     call (\<lambda>tr. e_conn_get_event_fd (conn_of e) tr x1) (\<lambda>r. Conn (Ev_conn_get_event_fd x1 r))"

definition rpma_conn_get_completion_fd :: "env \<Rightarrow> ptr option \<Rightarrow> trace
    \<Rightarrow> (int \<times> fd option) \<times> trace" where
  "rpma_conn_get_completion_fd e x1 =
     call (\<lambda>tr. e_conn_get_completion_fd (conn_of e) tr x1) (\<lambda>r. Conn (Ev_conn_get_completion_fd x1 r))"

definition rpma_conn_next_event :: "env \<Rightarrow> ptr option \<Rightarrow> trace
    \<Rightarrow> (int \<times> rpma_conn_event) \<times> trace" where
  "rpma_conn_next_event e x1 =
     call (\<lambda>tr. e_conn_next_event (conn_of e) tr x1) (\<lambda>r. Conn (Ev_conn_next_event x1 r))"

definition rpma_conn_completion_wait :: "env \<Rightarrow> ptr option \<Rightarrow> trace \<Rightarrow> int \<times> trace" where
  "rpma_conn_completion_wait e x1 =
     call (\<lambda>tr. e_conn_completion_wait (conn_of e) tr x1) (\<lambda>r. Conn (Ev_conn_completion_wait x1 r))"

definition rpma_conn_completion_get :: "env \<Rightarrow> ptr option \<Rightarrow> trace
    \<Rightarrow> (int \<times> rpma_completion) \<times> trace" where
  "rpma_conn_completion_get e x1 =
     call (\<lambda>tr. e_conn_completion_get (conn_of e) tr x1) (\<lambda>r. Conn (Ev_conn_completion_get x1 r))"

definition rpma_conn_disconnect :: "env \<Rightarrow> ptr option \<Rightarrow> trace \<Rightarrow> int \<times> trace" where
  "rpma_conn_disconnect e x1 =
     call (\<lambda>tr. e_conn_disconnect (conn_of e) tr x1) (\<lambda>r. Conn (Ev_conn_disconnect x1 r))"

text \<open>Calls on memory regions and peer configurations.\<close>

definition rpma_mr_reg :: "env \<Rightarrow> ptr option \<Rightarrow> addr option
    \<Rightarrow> u64 \<Rightarrow> int \<Rightarrow> trace \<Rightarrow> (int \<times> ptr option) \<times> trace" where
  "rpma_mr_reg e x1 x2 x3 x4 =
     call (\<lambda>tr. e_mr_reg (mr_of e) tr x1 x2 x3 x4) (\<lambda>r. Mr (Ev_mr_reg x1 x2 x3 x4 r))"

definition rpma_mr_get_descriptor_size :: "env \<Rightarrow> ptr option \<Rightarrow> trace
    \<Rightarrow> (int \<times> u64) \<times> trace" where
  "rpma_mr_get_descriptor_size e x1 =
     call (\<lambda>tr. e_mr_get_descriptor_size (mr_of e) tr x1) (\<lambda>r. Mr (Ev_mr_get_descriptor_size x1 r))"

definition rpma_mr_get_descriptor :: "env \<Rightarrow> ptr option \<Rightarrow> trace
    \<Rightarrow> (int \<times> bytes option) \<times> trace" where
  "rpma_mr_get_descriptor e x1 =
     call (\<lambda>tr. e_mr_get_descriptor (mr_of e) tr x1) (\<lambda>r. Mr (Ev_mr_get_descriptor x1 r))"

definition rpma_mr_remote_from_descriptor :: "env \<Rightarrow> bytes \<Rightarrow> trace
    \<Rightarrow> (int \<times> ptr option) \<times> trace" where
  "rpma_mr_remote_from_descriptor e x1 =
     call (\<lambda>tr. e_mr_remote_from_descriptor (mr_of e) tr x1) (\<lambda>r. Mr (Ev_mr_remote_from_descriptor x1 r))"

definition rpma_mr_remote_get_size :: "env \<Rightarrow> ptr option \<Rightarrow> trace
    \<Rightarrow> (int \<times> u64) \<times> trace" where
  "rpma_mr_remote_get_size e x1 =
     call (\<lambda>tr. e_mr_remote_get_size (mr_of e) tr x1) (\<lambda>r. Mr (Ev_mr_remote_get_size x1 r))"

definition rpma_peer_cfg_new :: "env \<Rightarrow> trace \<Rightarrow> (int \<times> ptr option) \<times> trace" where
  "rpma_peer_cfg_new e =
     call (\<lambda>tr. e_peer_cfg_new (mr_of e) tr) (\<lambda>r. Mr (Ev_peer_cfg_new r))"

definition rpma_peer_cfg_set_direct_write_to_pmem :: "env \<Rightarrow> ptr option \<Rightarrow> bool \<Rightarrow> trace
    \<Rightarrow> int \<times> trace" where
  "rpma_peer_cfg_set_direct_write_to_pmem e x1 x2 =
     call (\<lambda>tr. e_peer_cfg_set_direct_write (mr_of e) tr x1 x2) (\<lambda>r. Mr (Ev_peer_cfg_set_direct_write x1 x2 r))"

definition rpma_peer_cfg_get_direct_write_to_pmem :: "env \<Rightarrow> ptr option \<Rightarrow> trace
    \<Rightarrow> (int \<times> bool option) \<times> trace" where
  "rpma_peer_cfg_get_direct_write_to_pmem e x1 =
     call (\<lambda>tr. e_peer_cfg_get_direct_write (mr_of e) tr x1) (\<lambda>r. Mr (Ev_peer_cfg_get_direct_write x1 r))"

definition rpma_peer_cfg_get_descriptor_size :: "env \<Rightarrow> ptr option \<Rightarrow> trace
    \<Rightarrow> (int \<times> u64) \<times> trace" where
  "rpma_peer_cfg_get_descriptor_size e x1 =
     call (\<lambda>tr. e_peer_cfg_get_descriptor_size (mr_of e) tr x1) (\<lambda>r. Mr (Ev_peer_cfg_get_descriptor_size x1 r))"

definition rpma_peer_cfg_get_descriptor :: "env \<Rightarrow> ptr option \<Rightarrow> trace
    \<Rightarrow> (int \<times> bytes option) \<times> trace" where
  "rpma_peer_cfg_get_descriptor e x1 =
     call (\<lambda>tr. e_peer_cfg_get_descriptor (mr_of e) tr x1) (\<lambda>r. Mr (Ev_peer_cfg_get_descriptor x1 r))"

definition rpma_peer_cfg_from_descriptor :: "env \<Rightarrow> bytes \<Rightarrow> trace
    \<Rightarrow> (int \<times> ptr option) \<times> trace" where
  "rpma_peer_cfg_from_descriptor e x1 =
     call (\<lambda>tr. e_peer_cfg_from_descriptor (mr_of e) tr x1) (\<lambda>r. Mr (Ev_peer_cfg_from_descriptor x1 r))"

text \<open>Calls on posted operations.\<close>

definition rpma_conn_req_recv :: "env \<Rightarrow> ptr option \<Rightarrow> ptr option
    \<Rightarrow> u64 \<Rightarrow> u64 \<Rightarrow> ptr option \<Rightarrow> trace \<Rightarrow> int \<times> trace" where
  "rpma_conn_req_recv e x1 x2 x3 x4 x5 =
     call (\<lambda>tr. e_conn_req_recv (post_of e) tr x1 x2 x3 x4 x5) (\<lambda>r. Post (Ev_conn_req_recv x1 x2 x3 x4 x5 r))"

definition rpma_recv :: "env \<Rightarrow> ptr option \<Rightarrow> ptr option
    \<Rightarrow> u64 \<Rightarrow> u64 \<Rightarrow> ptr option \<Rightarrow> trace \<Rightarrow> int \<times> trace" where
  "rpma_recv e x1 x2 x3 x4 x5 =
     call (\<lambda>tr. e_recv (post_of e) tr x1 x2 x3 x4 x5) (\<lambda>r. Post (Ev_recv x1 x2 x3 x4 x5 r))"

definition rpma_send :: "env \<Rightarrow> ptr option \<Rightarrow> ptr option
    \<Rightarrow> u64 \<Rightarrow> u64 \<Rightarrow> int \<Rightarrow> ptr option \<Rightarrow> trace \<Rightarrow> int \<times> trace" where
  "rpma_send e x1 x2 x3 x4 x5 x6 =
     call (\<lambda>tr. e_send (post_of e) tr x1 x2 x3 x4 x5 x6) (\<lambda>r. Post (Ev_send x1 x2 x3 x4 x5 x6 r))"

definition rpma_write :: "env \<Rightarrow> ptr option \<Rightarrow> ptr option
    \<Rightarrow> u64 \<Rightarrow> ptr option \<Rightarrow> u64 \<Rightarrow> u64 \<Rightarrow> int \<Rightarrow> ptr option \<Rightarrow> trace \<Rightarrow> int \<times> trace" where
  "rpma_write e x1 x2 x3 x4 x5 x6 x7 x8 =
     call (\<lambda>tr. e_write (post_of e) tr x1 x2 x3 x4 x5 x6 x7 x8) (\<lambda>r. Post (Ev_write x1 x2 x3 x4 x5 x6 x7 x8 r))"

definition rpma_flush :: "env \<Rightarrow> ptr option \<Rightarrow> ptr option
    \<Rightarrow> u64 \<Rightarrow> u64 \<Rightarrow> rpma_flush_type \<Rightarrow> int \<Rightarrow> ptr option \<Rightarrow> trace \<Rightarrow> int \<times> trace" where
  "rpma_flush e x1 x2 x3 x4 x5 x6 x7 =
     call (\<lambda>tr. e_flush (post_of e) tr x1 x2 x3 x4 x5 x6 x7) (\<lambda>r. Post (Ev_flush x1 x2 x3 x4 x5 x6 x7 r))"

definition rpma_read :: "env \<Rightarrow> ptr option \<Rightarrow> ptr option
    \<Rightarrow> u64 \<Rightarrow> ptr option \<Rightarrow> u64 \<Rightarrow> u64 \<Rightarrow> int \<Rightarrow> ptr option \<Rightarrow> trace \<Rightarrow> int \<times> trace" where
  "rpma_read e x1 x2 x3 x4 x5 x6 x7 x8 =
     call (\<lambda>tr. e_read (post_of e) tr x1 x2 x3 x4 x5 x6 x7 x8) (\<lambda>r. Post (Ev_read x1 x2 x3 x4 x5 x6 x7 x8 r))"

definition rpma_write_atomic :: "env \<Rightarrow> ptr option \<Rightarrow> ptr option
    \<Rightarrow> u64 \<Rightarrow> ptr option \<Rightarrow> u64 \<Rightarrow> int \<Rightarrow> ptr option \<Rightarrow> trace \<Rightarrow> int \<times> trace" where
  "rpma_write_atomic e x1 x2 x3 x4 x5 x6 x7 =
     call (\<lambda>tr. e_write_atomic (post_of e) tr x1 x2 x3 x4 x5 x6 x7) (\<lambda>r. Post (Ev_write_atomic x1 x2 x3 x4 x5 x6 x7 r))"

lemmas rpma_call_defs [env_simps] =
  access_def bufferptr_create_def pmem_map_file_def malloc_def remove_file_def epoll_create1_def fcntl_getfl_def
  fcntl_setfl_def epoll_ctl_add_def epoll_ctl_del_def epoll_wait_def
  rpma_utils_get_ibv_context_def rpma_peer_new_def rpma_ep_listen_def rpma_ep_get_fd_def
  rpma_ep_next_conn_req_def rpma_conn_cfg_new_def rpma_conn_req_new_def
  rpma_conn_req_connect_def rpma_conn_get_event_fd_def rpma_conn_get_completion_fd_def
  rpma_conn_next_event_def rpma_conn_completion_wait_def rpma_conn_completion_get_def
  rpma_conn_disconnect_def rpma_mr_reg_def rpma_mr_get_descriptor_size_def
  rpma_mr_get_descriptor_def rpma_mr_remote_from_descriptor_def rpma_mr_remote_get_size_def
  rpma_peer_cfg_new_def rpma_peer_cfg_set_direct_write_to_pmem_def
  rpma_peer_cfg_get_direct_write_to_pmem_def rpma_peer_cfg_get_descriptor_size_def
  rpma_peer_cfg_get_descriptor_def rpma_peer_cfg_from_descriptor_def rpma_conn_req_recv_def
  rpma_recv_def rpma_send_def rpma_write_def rpma_flush_def rpma_read_def
  rpma_write_atomic_def

text \<open>Calls whose result the program never reads only leave an event.\<close>

definition log_event :: "event \<Rightarrow> trace \<Rightarrow> trace" where
  "log_event ev tr = tr @ [ev]"

lemma log_event_eq [env_simps]: "log_event ev tr = tr @ [ev]"
  by (simp add: log_event_def)

subsection \<open>What a run appended\<close>

text \<open>The trace only grew, and every event it grew by satisfies \<open>P\<close>.\<close>

definition appends :: "(event \<Rightarrow> bool) \<Rightarrow> trace \<Rightarrow> trace \<Rightarrow> bool" where
  "appends P tr tr' \<longleftrightarrow> (\<exists>evs. tr' = tr @ evs \<and> (\<forall>ev \<in> set evs. P ev))"

lemma appends_refl [simp]: "appends P tr tr"
  by (simp add: appends_def)

lemma appends_append [simp]: "appends P tr (tr @ evs) \<longleftrightarrow> (\<forall>ev \<in> set evs. P ev)"
  by (simp add: appends_def)

lemma appends_trans: "appends P tr1 tr2 \<Longrightarrow> appends P tr2 tr3 \<Longrightarrow> appends P tr1 tr3"
  by (auto simp: appends_def)

lemma appends_snoc: "appends P tr tr' \<Longrightarrow> P ev \<Longrightarrow> appends P tr (tr' @ [ev])"
  by (auto simp: appends_def)

lemma appends_mono: "appends P tr tr' \<Longrightarrow> (\<And>ev. P ev \<Longrightarrow> Q ev) \<Longrightarrow> appends Q tr tr'"
  by (auto simp: appends_def)

subsection \<open>An environment in which everything works\<close>

text \<open>
  A concrete environment for evaluating the model: every call succeeds, objects of librpma are
  numbered by the length of the history, a memory region's descriptor is \<open>''MR''\<close>, a peer
  configuration's \<open>''P''\<close>. Components replace single answers of it in their examples.
\<close>

definition fresh_ptr :: "trace \<Rightarrow> int \<times> ptr option" where
  "fresh_ptr tr = (0, Some (length tr))"

definition demo_poll :: poll_env where
  "demo_poll = \<lparr>
     e_epoll_create = (\<lambda>tr. 3),
     e_fcntl_getfl = (\<lambda>tr fd. (2, 0)),
     e_fcntl_setfl = (\<lambda>tr fd fl. (0, 0)),
     e_epoll_add = (\<lambda>tr fd p. (0, 0)),
     e_epoll_del = (\<lambda>tr fd. 0),
     e_epoll_wait = (\<lambda>tr. (0, None)) \<rparr>"

definition demo_setup :: setup_env where
  "demo_setup = \<lparr>
     e_get_ibv_context = (\<lambda>tr a t. fresh_ptr tr),
     e_peer_new = (\<lambda>tr d. fresh_ptr tr),
     e_ep_listen = (\<lambda>tr p a q. fresh_ptr tr),
     e_ep_get_fd = (\<lambda>tr p. (0, Some 10)),
     e_ep_next_conn_req = (\<lambda>tr p. fresh_ptr tr),
     e_conn_cfg_new = (\<lambda>tr. fresh_ptr tr),
     e_conn_req_new = (\<lambda>tr p a q c. fresh_ptr tr),
     e_conn_req_connect = (\<lambda>tr r. (0, None, Some (length tr))) \<rparr>"

definition demo_conn :: conn_env where
  "demo_conn = \<lparr>
     e_conn_get_event_fd = (\<lambda>tr c. (0, Some 11)),
     e_conn_get_completion_fd = (\<lambda>tr c. (0, Some 12)),
     e_conn_next_event = (\<lambda>tr c. (0, RPMA_CONN_ESTABLISHED)),
     e_conn_completion_wait = (\<lambda>tr c. 0),
     e_conn_completion_get =
       (\<lambda>tr c. (0, \<lparr>op_context = None, op = RPMA_OP_SEND, byte_len = 0, op_status = 0\<rparr>)),
     e_conn_disconnect = (\<lambda>tr c. 0) \<rparr>"

definition demo_mr :: mr_env where
  "demo_mr = \<lparr>
     e_mr_reg = (\<lambda>tr p a n u. fresh_ptr tr),
     e_mr_get_descriptor_size = (\<lambda>tr m. (0, 2)),
     e_mr_get_descriptor = (\<lambda>tr m. (0, Some ''MR'')),
     e_mr_remote_from_descriptor = (\<lambda>tr d. fresh_ptr tr),
     e_mr_remote_get_size = (\<lambda>tr m. (0, 4096)),
     e_peer_cfg_new = (\<lambda>tr. fresh_ptr tr),
     e_peer_cfg_set_direct_write = (\<lambda>tr p b. 0),
     e_peer_cfg_get_direct_write = (\<lambda>tr p. (0, Some True)),
     e_peer_cfg_get_descriptor_size = (\<lambda>tr p. (0, 1)),
     e_peer_cfg_get_descriptor = (\<lambda>tr p. (0, Some ''P'')),
     e_peer_cfg_from_descriptor = (\<lambda>tr d. fresh_ptr tr) \<rparr>"

definition demo_post :: post_env where
  "demo_post = \<lparr>
     e_conn_req_recv = (\<lambda>tr r m i n c. 0),
     e_recv = (\<lambda>tr p m i n c. 0),
     e_send = (\<lambda>tr p m i n f c. 0),
     e_write = (\<lambda>tr p d i m j n f c. 0),
     e_flush = (\<lambda>tr p d i n t f c. 0),
     e_read = (\<lambda>tr p m i d j n f c. 0),
     e_write_atomic = (\<lambda>tr p d i m j f c. 0) \<rparr>"

lemmas demo_defs = fresh_ptr_def demo_poll_def demo_setup_def demo_conn_def demo_mr_def demo_post_def

end
