(* ===== verification/Contracts.thy ===== *)
theory Contracts
  imports Environment
begin

text \<open>
  What \<open>include/librpma.h\<close> promises of the functions the program calls. Each manual page
  gives the arguments that are refused with \<open>RPMA_E_INVAL\<close> and the other errors a call may end
  with; the pages of functions with an out-parameter add that it is set on success only. An
  out-parameter itself is always the address of a variable of the caller, so the part of
  \<open>RPMA_E_INVAL\<close> that speaks of it never applies; nor does an unknown enumerator.
\<close>

subsection \<open>Manual pages\<close>

record manpage =
  mp_invalid :: bool
  mp_errors :: "int set"

text \<open>The return code, and an out-parameter that a failed call leaves alone.\<close>

definition returns :: "manpage \<Rightarrow> int \<Rightarrow> bool" where
  "returns m ret \<longleftrightarrow> (if mp_invalid m then ret = RPMA_E_INVAL else ret = 0 \<or> ret \<in> mp_errors m)"

definition creates :: "manpage \<Rightarrow> int \<times> 'a option \<Rightarrow> bool" where
  "creates m r \<longleftrightarrow> returns m (fst r) \<and> (fst r = 0 \<longleftrightarrow> snd r \<noteq> None)"

text \<open>Peers and their configuration.\<close>

definition rpma_utils_get_ibv_context_man :: "string \<Rightarrow> rpma_util_ibv_context_type \<Rightarrow> manpage" where
  "rpma_utils_get_ibv_context_man addr ty =
     \<lparr>mp_invalid = False, mp_errors = {RPMA_E_NOMEM, RPMA_E_PROVIDER}\<rparr>"

definition rpma_peer_cfg_new_man :: "manpage" where
  "rpma_peer_cfg_new_man =
     \<lparr>mp_invalid = False, mp_errors = {RPMA_E_NOMEM}\<rparr>"

definition rpma_peer_cfg_delete_man :: "ptr option \<Rightarrow> manpage" where
  "rpma_peer_cfg_delete_man pcfg =
     \<lparr>mp_invalid = False, mp_errors = {}\<rparr>"

definition rpma_peer_cfg_set_direct_write_to_pmem_man :: "ptr option \<Rightarrow> manpage" where
  "rpma_peer_cfg_set_direct_write_to_pmem_man pcfg =
     \<lparr>mp_invalid = (pcfg = None), mp_errors = {}\<rparr>"

definition rpma_peer_cfg_get_direct_write_to_pmem_man :: "ptr option \<Rightarrow> manpage" where
  "rpma_peer_cfg_get_direct_write_to_pmem_man pcfg =
     \<lparr>mp_invalid = (pcfg = None), mp_errors = {}\<rparr>"

definition rpma_peer_cfg_get_descriptor_man :: "ptr option \<Rightarrow> manpage" where
  "rpma_peer_cfg_get_descriptor_man pcfg =
     \<lparr>mp_invalid = (pcfg = None), mp_errors = {}\<rparr>"

definition rpma_peer_cfg_get_descriptor_size_man :: "ptr option \<Rightarrow> manpage" where
  "rpma_peer_cfg_get_descriptor_size_man pcfg =
     \<lparr>mp_invalid = (pcfg = None), mp_errors = {}\<rparr>"

definition rpma_peer_cfg_from_descriptor_man :: "bytes \<Rightarrow> manpage" where
  "rpma_peer_cfg_from_descriptor_man ds =
     \<lparr>mp_invalid = False, mp_errors = {RPMA_E_NOMEM}\<rparr>"

definition rpma_peer_new_man :: "ptr option \<Rightarrow> manpage" where
  "rpma_peer_new_man dev =
     \<lparr>mp_invalid = (dev = None), mp_errors = {RPMA_E_NOMEM, RPMA_E_PROVIDER, RPMA_E_UNKNOWN}\<rparr>"

definition rpma_peer_delete_man :: "ptr \<Rightarrow> manpage" where
  "rpma_peer_delete_man peer =
     \<lparr>mp_invalid = False, mp_errors = {RPMA_E_PROVIDER}\<rparr>"

text \<open>Memory regions.\<close>

definition rpma_mr_reg_man :: "ptr option \<Rightarrow> addr option \<Rightarrow> u64 \<Rightarrow> manpage" where
  "rpma_mr_reg_man peer a sz =
     \<lparr>mp_invalid = (peer = None \<or> a = None \<or> sz = 0), mp_errors = {RPMA_E_NOMEM, RPMA_E_PROVIDER}\<rparr>"

definition rpma_mr_dereg_man :: "ptr \<Rightarrow> manpage" where
  "rpma_mr_dereg_man mr =
     \<lparr>mp_invalid = False, mp_errors = {RPMA_E_PROVIDER}\<rparr>"

definition rpma_mr_get_descriptor_man :: "ptr option \<Rightarrow> manpage" where
  "rpma_mr_get_descriptor_man mr =
     \<lparr>mp_invalid = (mr = None), mp_errors = {}\<rparr>"

definition rpma_mr_remote_from_descriptor_man :: "bytes \<Rightarrow> manpage" where
  "rpma_mr_remote_from_descriptor_man ds =
     \<lparr>mp_invalid = False, mp_errors = {RPMA_E_INVAL, RPMA_E_NOSUPP, RPMA_E_NOMEM}\<rparr>"

definition rpma_mr_get_descriptor_size_man :: "ptr option \<Rightarrow> manpage" where
  "rpma_mr_get_descriptor_size_man mr =
     \<lparr>mp_invalid = (mr = None), mp_errors = {}\<rparr>"

definition rpma_mr_remote_get_size_man :: "ptr option \<Rightarrow> manpage" where
  "rpma_mr_remote_get_size_man mr =
     \<lparr>mp_invalid = (mr = None), mp_errors = {}\<rparr>"

text \<open>Connections.\<close>

definition rpma_conn_cfg_new_man :: "manpage" where
  "rpma_conn_cfg_new_man =
     \<lparr>mp_invalid = False, mp_errors = {RPMA_E_NOMEM}\<rparr>"

definition rpma_conn_cfg_delete_man :: "ptr option \<Rightarrow> manpage" where
  "rpma_conn_cfg_delete_man cfg =
     \<lparr>mp_invalid = False, mp_errors = {}\<rparr>"

definition rpma_conn_cfg_set_cq_size_man :: "ptr option \<Rightarrow> manpage" where
  "rpma_conn_cfg_set_cq_size_man cfg =
     \<lparr>mp_invalid = (cfg = None), mp_errors = {}\<rparr>"

definition rpma_conn_cfg_set_sq_size_man :: "ptr option \<Rightarrow> manpage" where
  "rpma_conn_cfg_set_sq_size_man cfg =
     \<lparr>mp_invalid = (cfg = None), mp_errors = {}\<rparr>"

definition rpma_conn_cfg_set_rq_size_man :: "ptr option \<Rightarrow> manpage" where
  "rpma_conn_cfg_set_rq_size_man cfg =
     \<lparr>mp_invalid = (cfg = None), mp_errors = {}\<rparr>"

definition rpma_conn_get_event_fd_man :: "ptr option \<Rightarrow> manpage" where
  "rpma_conn_get_event_fd_man conn =
     \<lparr>mp_invalid = (conn = None), mp_errors = {}\<rparr>"

definition rpma_conn_next_event_man :: "ptr option \<Rightarrow> manpage" where
  "rpma_conn_next_event_man conn =
     \<lparr>mp_invalid = (conn = None), mp_errors = {RPMA_E_UNKNOWN, RPMA_E_PROVIDER, RPMA_E_NOMEM}\<rparr>"

definition rpma_conn_apply_remote_peer_cfg_man :: "ptr option \<Rightarrow> ptr option \<Rightarrow> manpage" where
  "rpma_conn_apply_remote_peer_cfg_man conn pcfg =
     \<lparr>mp_invalid = (conn = None \<or> pcfg = None), mp_errors = {}\<rparr>"

definition rpma_conn_disconnect_man :: "ptr option \<Rightarrow> manpage" where
  "rpma_conn_disconnect_man conn =
     \<lparr>mp_invalid = (conn = None), mp_errors = {RPMA_E_PROVIDER}\<rparr>"

definition rpma_conn_delete_man :: "ptr \<Rightarrow> manpage" where
  "rpma_conn_delete_man conn =
     \<lparr>mp_invalid = False, mp_errors = {RPMA_E_PROVIDER}\<rparr>"

text \<open>Connection requests.\<close>

definition rpma_conn_req_new_man :: "ptr option \<Rightarrow> string \<Rightarrow> string \<Rightarrow> manpage" where
  "rpma_conn_req_new_man peer addr port =
     \<lparr>mp_invalid = (peer = None), mp_errors = {RPMA_E_NOMEM, RPMA_E_PROVIDER}\<rparr>"

definition rpma_conn_req_delete_man :: "ptr option \<Rightarrow> manpage" where
  "rpma_conn_req_delete_man req =
     \<lparr>mp_invalid = False, mp_errors = {RPMA_E_PROVIDER}\<rparr>"

definition rpma_conn_req_connect_man :: "ptr option \<Rightarrow> manpage" where
  "rpma_conn_req_connect_man req =
     \<lparr>mp_invalid = (req = None), mp_errors = {RPMA_E_NOMEM, RPMA_E_PROVIDER}\<rparr>"

definition rpma_conn_req_recv_man :: "ptr option \<Rightarrow> ptr option \<Rightarrow> ptr option \<Rightarrow> manpage" where
  "rpma_conn_req_recv_man req dst ctx =
     \<lparr>mp_invalid = (req = None \<or> dst = None \<or> ctx = None), mp_errors = {RPMA_E_PROVIDER}\<rparr>"

text \<open>Endpoints.\<close>

definition rpma_ep_listen_man :: "ptr option \<Rightarrow> string \<Rightarrow> string \<Rightarrow> manpage" where
  "rpma_ep_listen_man peer addr port =
     \<lparr>mp_invalid = (peer = None), mp_errors = {RPMA_E_PROVIDER, RPMA_E_NOMEM}\<rparr>"

definition rpma_ep_shutdown_man :: "ptr \<Rightarrow> manpage" where
  "rpma_ep_shutdown_man ep =
     \<lparr>mp_invalid = False, mp_errors = {RPMA_E_PROVIDER}\<rparr>"

definition rpma_ep_get_fd_man :: "ptr option \<Rightarrow> manpage" where
  "rpma_ep_get_fd_man ep =
     \<lparr>mp_invalid = (ep = None), mp_errors = {}\<rparr>"

definition rpma_ep_next_conn_req_man :: "ptr option \<Rightarrow> manpage" where
  "rpma_ep_next_conn_req_man ep =
     \<lparr>mp_invalid = (ep = None), mp_errors = {RPMA_E_INVAL, RPMA_E_PROVIDER, RPMA_E_NOMEM, RPMA_E_NO_EVENT}\<rparr>"

text \<open>Posted operations.\<close>

definition rpma_read_man :: "ptr option \<Rightarrow> ptr option \<Rightarrow> ptr option \<Rightarrow> int \<Rightarrow> manpage" where
  "rpma_read_man conn dst src flags =
     \<lparr>mp_invalid = (conn = None \<or> dst = None \<or> src = None \<or> flags = 0), mp_errors = {RPMA_E_PROVIDER}\<rparr>"

definition rpma_write_man :: "ptr option \<Rightarrow> ptr option \<Rightarrow> ptr option \<Rightarrow> int \<Rightarrow> manpage" where
  "rpma_write_man conn dst src flags =
     \<lparr>mp_invalid = (conn = None \<or> dst = None \<or> src = None \<or> flags = 0), mp_errors = {RPMA_E_PROVIDER}\<rparr>"

definition rpma_write_atomic_man :: "ptr option \<Rightarrow> ptr option \<Rightarrow> u64 \<Rightarrow> ptr option \<Rightarrow> int \<Rightarrow> manpage" where
  "rpma_write_atomic_man conn dst dst_offset src flags =
     \<lparr>mp_invalid = (conn = None \<or> dst = None \<or> src = None \<or> dst_offset mod 8 \<noteq> 0 \<or> flags = 0), mp_errors = {RPMA_E_PROVIDER}\<rparr>"

definition rpma_flush_man :: "ptr option \<Rightarrow> ptr option \<Rightarrow> rpma_flush_type \<Rightarrow> int \<Rightarrow> manpage" where
  "rpma_flush_man conn dst ty flags =
     \<lparr>mp_invalid = (conn = None \<or> dst = None \<or> flags = 0), mp_errors = (if ty = RPMA_FLUSH_TYPE_PERSISTENT then {RPMA_E_PROVIDER, RPMA_E_NOSUPP} else {RPMA_E_PROVIDER})\<rparr>"

definition rpma_send_man :: "ptr option \<Rightarrow> ptr option \<Rightarrow> int \<Rightarrow> manpage" where
  "rpma_send_man conn src flags =
     \<lparr>mp_invalid = (conn = None \<or> src = None \<or> flags = 0), mp_errors = {RPMA_E_PROVIDER}\<rparr>"

definition rpma_recv_man :: "ptr option \<Rightarrow> ptr option \<Rightarrow> manpage" where
  "rpma_recv_man conn dst =
     \<lparr>mp_invalid = (conn = None \<or> dst = None), mp_errors = {RPMA_E_PROVIDER}\<rparr>"

text \<open>Completions.\<close>

definition rpma_conn_get_completion_fd_man :: "ptr option \<Rightarrow> manpage" where
  "rpma_conn_get_completion_fd_man conn =
     \<lparr>mp_invalid = (conn = None), mp_errors = {}\<rparr>"

definition rpma_conn_completion_wait_man :: "ptr option \<Rightarrow> manpage" where
  "rpma_conn_completion_wait_man conn =
     \<lparr>mp_invalid = (conn = None), mp_errors = {RPMA_E_PROVIDER, RPMA_E_NO_COMPLETION}\<rparr>"

definition rpma_conn_completion_get_man :: "ptr option \<Rightarrow> manpage" where
  "rpma_conn_completion_get_man conn =
     \<lparr>mp_invalid = (conn = None), mp_errors = {RPMA_E_NO_COMPLETION, RPMA_E_PROVIDER, RPMA_E_UNKNOWN, RPMA_E_NOSUPP}\<rparr>"

text \<open>Logging. The threshold may be an enumerator that is not a threshold.\<close>

definition rpma_log_set_threshold_man :: "rpma_log_threshold \<Rightarrow> rpma_log_level \<Rightarrow> manpage" where
  "rpma_log_set_threshold_man threshold level =
     \<lparr>mp_invalid = (threshold \<noteq> RPMA_LOG_THRESHOLD \<and> threshold \<noteq> RPMA_LOG_THRESHOLD_AUX), mp_errors = {RPMA_E_AGAIN}\<rparr>"

lemmas man_defs =
  rpma_utils_get_ibv_context_man_def rpma_peer_cfg_new_man_def rpma_peer_cfg_delete_man_def
  rpma_peer_cfg_set_direct_write_to_pmem_man_def rpma_peer_cfg_get_direct_write_to_pmem_man_def
  rpma_peer_cfg_get_descriptor_man_def rpma_peer_cfg_get_descriptor_size_man_def
  rpma_peer_cfg_from_descriptor_man_def rpma_peer_new_man_def rpma_peer_delete_man_def rpma_mr_reg_man_def
  rpma_mr_dereg_man_def rpma_mr_get_descriptor_man_def rpma_mr_remote_from_descriptor_man_def
  rpma_mr_get_descriptor_size_man_def rpma_mr_remote_get_size_man_def rpma_conn_cfg_new_man_def
  rpma_conn_cfg_delete_man_def rpma_conn_cfg_set_cq_size_man_def rpma_conn_cfg_set_sq_size_man_def
  rpma_conn_cfg_set_rq_size_man_def rpma_conn_get_event_fd_man_def rpma_conn_next_event_man_def
  rpma_conn_apply_remote_peer_cfg_man_def rpma_conn_disconnect_man_def rpma_conn_delete_man_def
  rpma_conn_req_new_man_def rpma_conn_req_delete_man_def rpma_conn_req_connect_man_def
  rpma_conn_req_recv_man_def rpma_ep_listen_man_def rpma_ep_shutdown_man_def rpma_ep_get_fd_man_def
  rpma_ep_next_conn_req_man_def rpma_read_man_def rpma_write_man_def rpma_write_atomic_man_def
  rpma_flush_man_def rpma_send_man_def rpma_recv_man_def rpma_conn_get_completion_fd_man_def
  rpma_conn_completion_wait_man_def rpma_conn_completion_get_man_def rpma_log_set_threshold_man_def

subsection \<open>Calls and their pages\<close>

text \<open>The page that documents the call an event records.\<close>

primrec setup_page :: "setup_event \<Rightarrow> manpage" where
  "setup_page (Ev_get_ibv_context addr ty r) = rpma_utils_get_ibv_context_man addr ty"
| "setup_page (Ev_peer_new dev r) = rpma_peer_new_man dev"
| "setup_page (Ev_peer_delete p) = rpma_peer_delete_man p"
| "setup_page (Ev_ep_listen peer addr port r) = rpma_ep_listen_man peer addr port"
| "setup_page (Ev_ep_shutdown ep) = rpma_ep_shutdown_man ep"
| "setup_page (Ev_ep_get_fd ep r) = rpma_ep_get_fd_man ep"
| "setup_page (Ev_ep_next_conn_req ep r) = rpma_ep_next_conn_req_man ep"
| "setup_page (Ev_conn_cfg_new r) = rpma_conn_cfg_new_man"
| "setup_page (Ev_conn_cfg_set_sq_size cfg n) = rpma_conn_cfg_set_sq_size_man cfg"
| "setup_page (Ev_conn_cfg_set_rq_size cfg n) = rpma_conn_cfg_set_rq_size_man cfg"
| "setup_page (Ev_conn_cfg_set_cq_size cfg n) = rpma_conn_cfg_set_cq_size_man cfg"
| "setup_page (Ev_conn_cfg_delete cfg) = rpma_conn_cfg_delete_man cfg"
| "setup_page (Ev_conn_req_new peer addr port cfg r) = rpma_conn_req_new_man peer addr port"
| "setup_page (Ev_conn_req_delete req) = rpma_conn_req_delete_man req"
| "setup_page (Ev_conn_req_connect req r) = rpma_conn_req_connect_man req"
| "setup_page (Ev_log_set_threshold threshold level) = rpma_log_set_threshold_man threshold level"

primrec conn_page :: "conn_event \<Rightarrow> manpage" where
  "conn_page (Ev_conn_get_event_fd conn r) = rpma_conn_get_event_fd_man conn"
| "conn_page (Ev_conn_get_completion_fd conn r) = rpma_conn_get_completion_fd_man conn"
| "conn_page (Ev_conn_next_event conn r) = rpma_conn_next_event_man conn"
| "conn_page (Ev_conn_completion_wait conn r) = rpma_conn_completion_wait_man conn"
| "conn_page (Ev_conn_completion_get conn r) = rpma_conn_completion_get_man conn"
| "conn_page (Ev_conn_apply_remote_peer_cfg conn pcfg) = rpma_conn_apply_remote_peer_cfg_man conn pcfg"
| "conn_page (Ev_conn_disconnect conn r) = rpma_conn_disconnect_man conn"
| "conn_page (Ev_conn_delete conn) = rpma_conn_delete_man conn"

primrec mr_page :: "mr_event \<Rightarrow> manpage" where
  "mr_page (Ev_mr_reg peer a n u r) = rpma_mr_reg_man peer a n"
| "mr_page (Ev_mr_dereg mr) = rpma_mr_dereg_man mr"
| "mr_page (Ev_mr_get_descriptor_size mr r) = rpma_mr_get_descriptor_size_man mr"
| "mr_page (Ev_mr_get_descriptor mr r) = rpma_mr_get_descriptor_man mr"
| "mr_page (Ev_mr_remote_from_descriptor ds r) = rpma_mr_remote_from_descriptor_man ds"
| "mr_page (Ev_mr_remote_get_size mr r) = rpma_mr_remote_get_size_man mr"
| "mr_page (Ev_peer_cfg_new r) = rpma_peer_cfg_new_man"
| "mr_page (Ev_peer_cfg_set_direct_write pcfg b r) = rpma_peer_cfg_set_direct_write_to_pmem_man pcfg"
| "mr_page (Ev_peer_cfg_get_direct_write pcfg r) = rpma_peer_cfg_get_direct_write_to_pmem_man pcfg"
| "mr_page (Ev_peer_cfg_get_descriptor_size pcfg r) = rpma_peer_cfg_get_descriptor_size_man pcfg"
| "mr_page (Ev_peer_cfg_get_descriptor pcfg r) = rpma_peer_cfg_get_descriptor_man pcfg"
| "mr_page (Ev_peer_cfg_from_descriptor ds r) = rpma_peer_cfg_from_descriptor_man ds"
| "mr_page (Ev_peer_cfg_delete pcfg) = rpma_peer_cfg_delete_man pcfg"

primrec post_page :: "post_event \<Rightarrow> manpage" where
  "post_page (Ev_conn_req_recv req dst off len ctx r) = rpma_conn_req_recv_man req dst ctx"
| "post_page (Ev_recv conn dst off len ctx r) = rpma_recv_man conn dst"
| "post_page (Ev_send conn src off len flags ctx r) = rpma_send_man conn src flags"
| "post_page (Ev_write conn dst off src off2 len flags ctx r) = rpma_write_man conn dst src flags"
| "post_page (Ev_flush conn dst off len ty flags ctx r) = rpma_flush_man conn dst ty flags"
| "post_page (Ev_read conn dst off src off2 len flags ctx r) = rpma_read_man conn dst src flags"
| "post_page (Ev_write_atomic conn dst off src off2 flags ctx r) = rpma_write_atomic_man conn dst off src flags"

text \<open>A call of the library with arguments that its page does not refuse.\<close>

primrec legal_call :: "event \<Rightarrow> bool" where
  "legal_call (Mem x) = True"
| "legal_call (Poll x) = True"
| "legal_call (Setup x) = (\<not> mp_invalid (setup_page x))"
| "legal_call (Conn x) = (\<not> mp_invalid (conn_page x))"
| "legal_call (Mr x) = (\<not> mp_invalid (mr_page x))"
| "legal_call (Post x) = (\<not> mp_invalid (post_page x))"

subsection \<open>Documented environments\<close>

text \<open>
  An environment whose librpma answers as its manual pages say. A connection request is
  consumed by \<open>rpma_conn_req_connect\<close> whatever the outcome.
\<close>

definition connects :: "ptr option \<Rightarrow> int \<times> ptr option \<times> ptr option \<Rightarrow> bool" where
  "connects req r \<longleftrightarrow>
     creates (rpma_conn_req_connect_man req) (fst r, snd (snd r)) \<and> (req \<noteq> None \<longrightarrow> fst (snd r) = None)"

definition documented_setup :: "setup_env \<Rightarrow> bool" where
  "documented_setup s \<longleftrightarrow>
     (\<forall>tr a t. creates (rpma_utils_get_ibv_context_man a t) (e_get_ibv_context s tr a t)) \<and>
     (\<forall>tr d. creates (rpma_peer_new_man d) (e_peer_new s tr d)) \<and>
     (\<forall>tr p a q. creates (rpma_ep_listen_man p a q) (e_ep_listen s tr p a q)) \<and>
     (\<forall>tr p. creates (rpma_ep_get_fd_man p) (e_ep_get_fd s tr p)) \<and>
     (\<forall>tr p. creates (rpma_ep_next_conn_req_man p) (e_ep_next_conn_req s tr p)) \<and>
     (\<forall>tr. creates rpma_conn_cfg_new_man (e_conn_cfg_new s tr)) \<and>
     (\<forall>tr p a q c. creates (rpma_conn_req_new_man p a q) (e_conn_req_new s tr p a q c)) \<and>
     (\<forall>tr r. connects r (e_conn_req_connect s tr r))"

definition documented_conn :: "conn_env \<Rightarrow> bool" where
  "documented_conn s \<longleftrightarrow>
     (\<forall>tr c. creates (rpma_conn_get_event_fd_man c) (e_conn_get_event_fd s tr c)) \<and>
     (\<forall>tr c. creates (rpma_conn_get_completion_fd_man c) (e_conn_get_completion_fd s tr c)) \<and>
     (\<forall>tr c. returns (rpma_conn_next_event_man c) (fst (e_conn_next_event s tr c))) \<and>
     (\<forall>tr c. returns (rpma_conn_completion_wait_man c) (e_conn_completion_wait s tr c)) \<and>
     (\<forall>tr c. returns (rpma_conn_completion_get_man c) (fst (e_conn_completion_get s tr c))) \<and>
     (\<forall>tr c. returns (rpma_conn_disconnect_man c) (e_conn_disconnect s tr c))"

definition documented_mr :: "mr_env \<Rightarrow> bool" where
  "documented_mr s \<longleftrightarrow>
     (\<forall>tr p a n u. creates (rpma_mr_reg_man p a n) (e_mr_reg s tr p a n u)) \<and>
     (\<forall>tr m. returns (rpma_mr_get_descriptor_size_man m) (fst (e_mr_get_descriptor_size s tr m))) \<and>
     (\<forall>tr m. returns (rpma_mr_get_descriptor_man m) (fst (e_mr_get_descriptor s tr m))) \<and>
     (\<forall>tr d. creates (rpma_mr_remote_from_descriptor_man d) (e_mr_remote_from_descriptor s tr d)) \<and>
     (\<forall>tr m. returns (rpma_mr_remote_get_size_man m) (fst (e_mr_remote_get_size s tr m))) \<and>
     (\<forall>tr. creates rpma_peer_cfg_new_man (e_peer_cfg_new s tr)) \<and>
     (\<forall>tr p b. returns (rpma_peer_cfg_set_direct_write_to_pmem_man p) (e_peer_cfg_set_direct_write s tr p b)) \<and>
     (\<forall>tr p. creates (rpma_peer_cfg_get_direct_write_to_pmem_man p) (e_peer_cfg_get_direct_write s tr p)) \<and>
     (\<forall>tr p. returns (rpma_peer_cfg_get_descriptor_size_man p) (fst (e_peer_cfg_get_descriptor_size s tr p))) \<and>
     (\<forall>tr p. returns (rpma_peer_cfg_get_descriptor_man p) (fst (e_peer_cfg_get_descriptor s tr p))) \<and>
     (\<forall>tr d. creates (rpma_peer_cfg_from_descriptor_man d) (e_peer_cfg_from_descriptor s tr d))"

definition documented_post :: "post_env \<Rightarrow> bool" where
  "documented_post s \<longleftrightarrow>
     (\<forall>tr q m i n c. returns (rpma_conn_req_recv_man q m c) (e_conn_req_recv s tr q m i n c)) \<and>
     (\<forall>tr p m i n c. returns (rpma_recv_man p m) (e_recv s tr p m i n c)) \<and>
     (\<forall>tr p m i n f c. returns (rpma_send_man p m f) (e_send s tr p m i n f c)) \<and>
     (\<forall>tr p d i m j n f c. returns (rpma_write_man p d m f) (e_write s tr p d i m j n f c)) \<and>
     (\<forall>tr p d i n t f c. returns (rpma_flush_man p d t f) (e_flush s tr p d i n t f c)) \<and>
     (\<forall>tr p m i d j n f c. returns (rpma_read_man p m d f) (e_read s tr p m i d j n f c)) \<and>
     (\<forall>tr p d i m j f c. returns (rpma_write_atomic_man p d i m f) (e_write_atomic s tr p d i m j f c))"

definition documented :: "env \<Rightarrow> bool" where
  "documented e \<longleftrightarrow> documented_setup (setup_of e) \<and> documented_conn (conn_of e) \<and>
     documented_mr (mr_of e) \<and> documented_post (post_of e)"

text \<open>A created object exists, in whatever form the call is written.\<close>

lemma createsD: "creates m (ret, x) \<Longrightarrow> ret = 0 \<Longrightarrow> \<exists>p. x = Some p"
  by (auto simp: creates_def)

lemma documentedD:
  assumes "documented e"
  shows "e_mr_reg (mr_of e) tr p a n u = (0, x) \<Longrightarrow> x \<noteq> None"
    and "e_peer_cfg_new (mr_of e) tr = (0, x) \<Longrightarrow> x \<noteq> None"
    and "e_ep_next_conn_req (setup_of e) tr q = (0, x) \<Longrightarrow> x \<noteq> None"
    and "e_conn_req_connect (setup_of e) tr q = (0, y, x) \<Longrightarrow> x \<noteq> None"
    and "e_conn_req_connect (setup_of e) tr (Some k) = (ret, y, x) \<Longrightarrow> y = None"
  using assms unfolding documented_def documented_setup_def documented_mr_def connects_def creates_def
  by (metis fst_conv snd_conv, metis fst_conv snd_conv, metis fst_conv snd_conv,
      metis fst_conv snd_conv, metis fst_conv snd_conv option.distinct(1))

subsection \<open>A documented environment\<close>

text \<open>Every call whose arguments are legal succeeds.\<close>

definition answer :: "manpage \<Rightarrow> int" where
  "answer m = (if mp_invalid m then RPMA_E_INVAL else 0)"

definition made :: "manpage \<Rightarrow> 'a \<Rightarrow> int \<times> 'a option" where
  "made m x = (answer m, if mp_invalid m then None else Some x)"

lemma returns_answer [simp]: "returns m (answer m)"
  by (simp add: returns_def answer_def)

lemma creates_made [simp]: "creates m (made m x)"
  by (simp add: creates_def made_def answer_def returns_def)

lemma fst_made [simp]: "fst (made m x) = answer m"
  by (simp add: made_def)

definition manual_setup :: setup_env where
  "manual_setup = \<lparr>
     e_get_ibv_context = (\<lambda>tr a t. made (rpma_utils_get_ibv_context_man a t) (length tr)),
     e_peer_new = (\<lambda>tr d. made (rpma_peer_new_man d) (length tr)),
     e_ep_listen = (\<lambda>tr p a q. made (rpma_ep_listen_man p a q) (length tr)),
     e_ep_get_fd = (\<lambda>tr p. made (rpma_ep_get_fd_man p) 10),
     e_ep_next_conn_req = (\<lambda>tr p. made (rpma_ep_next_conn_req_man p) (length tr)),
     e_conn_cfg_new = (\<lambda>tr. made rpma_conn_cfg_new_man (length tr)),
     e_conn_req_new = (\<lambda>tr p a q c. made (rpma_conn_req_new_man p a q) (length tr)),
     e_conn_req_connect = (\<lambda>tr r. (answer (rpma_conn_req_connect_man r), None,
                             snd (made (rpma_conn_req_connect_man r) (length tr)))) \<rparr>"

definition manual_conn :: conn_env where
  "manual_conn = \<lparr>
     e_conn_get_event_fd = (\<lambda>tr c. made (rpma_conn_get_event_fd_man c) 11),
     e_conn_get_completion_fd = (\<lambda>tr c. made (rpma_conn_get_completion_fd_man c) 12),
     e_conn_next_event = (\<lambda>tr c. (answer (rpma_conn_next_event_man c), RPMA_CONN_ESTABLISHED)),
     e_conn_completion_wait = (\<lambda>tr c. answer (rpma_conn_completion_wait_man c)),
     e_conn_completion_get = (\<lambda>tr c. (answer (rpma_conn_completion_get_man c),
        \<lparr>op_context = Some 0, op = RPMA_OP_RECV, byte_len = 4096, op_status = 0\<rparr>)),
     e_conn_disconnect = (\<lambda>tr c. answer (rpma_conn_disconnect_man c)) \<rparr>"

definition manual_mr :: mr_env where
  "manual_mr = \<lparr>
     e_mr_reg = (\<lambda>tr p a n u. made (rpma_mr_reg_man p a n) (length tr)),
     e_mr_get_descriptor_size = (\<lambda>tr m. (answer (rpma_mr_get_descriptor_size_man m), 2)),
     e_mr_get_descriptor = (\<lambda>tr m. made (rpma_mr_get_descriptor_man m) ''MR''),
     e_mr_remote_from_descriptor = (\<lambda>tr d. made (rpma_mr_remote_from_descriptor_man d) (length tr)),
     e_mr_remote_get_size = (\<lambda>tr m. (answer (rpma_mr_remote_get_size_man m), 4096)),
     e_peer_cfg_new = (\<lambda>tr. made rpma_peer_cfg_new_man (length tr)),
     e_peer_cfg_set_direct_write = (\<lambda>tr p b. answer (rpma_peer_cfg_set_direct_write_to_pmem_man p)),
     e_peer_cfg_get_direct_write = (\<lambda>tr p. made (rpma_peer_cfg_get_direct_write_to_pmem_man p) True),
     e_peer_cfg_get_descriptor_size = (\<lambda>tr p. (answer (rpma_peer_cfg_get_descriptor_size_man p), 1)),
     e_peer_cfg_get_descriptor = (\<lambda>tr p. made (rpma_peer_cfg_get_descriptor_man p) ''P''),
     e_peer_cfg_from_descriptor = (\<lambda>tr d. made (rpma_peer_cfg_from_descriptor_man d) (length tr)) \<rparr>"

definition manual_post :: post_env where
  "manual_post = \<lparr>
     e_conn_req_recv = (\<lambda>tr q m i n c. answer (rpma_conn_req_recv_man q m c)),
     e_recv = (\<lambda>tr p m i n c. answer (rpma_recv_man p m)),
     e_send = (\<lambda>tr p m i n f c. answer (rpma_send_man p m f)),
     e_write = (\<lambda>tr p d i m j n f c. answer (rpma_write_man p d m f)),
     e_flush = (\<lambda>tr p d i n t f c. answer (rpma_flush_man p d t f)),
     e_read = (\<lambda>tr p m i d j n f c. answer (rpma_read_man p m d f)),
     e_write_atomic = (\<lambda>tr p d i m j f c. answer (rpma_write_atomic_man p d i m f)) \<rparr>"

lemma manual_documented:
  assumes "setup_of e = manual_setup" "conn_of e = manual_conn" "mr_of e = manual_mr" "post_of e = manual_post"
  shows "documented e"
proof -
  have connect: "connects r (answer (rpma_conn_req_connect_man r), None, snd (made (rpma_conn_req_connect_man r) n))" for r n
    by (simp add: connects_def creates_def made_def answer_def returns_def)
  have "documented_setup manual_setup" by (simp add: documented_setup_def manual_setup_def connect)
  moreover have "documented_conn manual_conn" by (simp add: documented_conn_def manual_conn_def)
  moreover have "documented_mr manual_mr" by (simp add: documented_mr_def manual_mr_def)
  moreover have "documented_post manual_post" by (simp add: documented_post_def manual_post_def)
  ultimately show ?thesis using assms by (simp add: documented_def)
qed

end
