(* ===== verification/Memory_Manager.thy ===== *)
theory Memory_Manager
  imports Environment
begin

text \<open>
  \<open>MemoryManager.h\<close> and \<open>MemoryManager.cc\<close>: the object that owns the server's data
  region, a mapped file on persistent memory when there is one and heap memory otherwise. The
  blocks a trace leaves allocated are computed from its events; ownership, absence of leaks
  and legality of the releases are stated with them.
\<close>

record MemoryManager =
  mm_data :: "addr option"
  mm_size :: u64
  mm_is_pmem :: bool
  mm_path :: string

text \<open>The default constructor; \<open>_size\<close> is left uninitialised, its value is an argument.\<close>

definition MemoryManager_default :: "u64 \<Rightarrow> MemoryManager" where
  "MemoryManager_default junk = \<lparr>mm_data = None, mm_size = junk, mm_is_pmem = False, mm_path = []\<rparr>"

definition MemoryManager_get_pointer :: "MemoryManager \<Rightarrow> addr option" where
  "MemoryManager_get_pointer m = mm_data m"

text \<open>
  \<open>len\<close> and \<open>is_pmem\<close> are out-parameters of \<open>pmem_map_file\<close>; when the call fails
  they stay uninitialised, here arbitrary answers of the environment, and the disjunction is
  true whatever they are.
\<close>

definition MemoryManager_get_memory_from_pmem ::
    "env \<Rightarrow> string \<Rightarrow> MemoryManager \<Rightarrow> trace \<Rightarrow> addr option \<times> MemoryManager \<times> trace" where
  "MemoryManager_get_memory_from_pmem e path m tr =
     (if path = [] then (None, m, tr)
      else
        let (exists, tr1) = access e path tr;
            ((data, len, is_pmem), tr2) =
              (if exists then pmem_map_file e path 0 False tr1
               else pmem_map_file e path (mm_size m) True tr1);
            m1 = m\<lparr>mm_data := data\<rparr>
        in if \<not> is_pmem \<or> len \<noteq> mm_size m \<or> data = None
           then (case data of
                   Some a \<Rightarrow> (None, m1\<lparr>mm_data := None\<rparr>,
                              log_event (Mem (Ev_pmem_unmap a (mm_size m))) tr2)
                 | None \<Rightarrow> (None, m1, tr2))
           else (data, m1, tr2))"

definition MemoryManager_get_memory_from_dram ::
    "env \<Rightarrow> MemoryManager \<Rightarrow> trace \<Rightarrow> addr option \<times> MemoryManager \<times> trace" where
  "MemoryManager_get_memory_from_dram e m tr =
     (let (data, tr1) = malloc e (mm_size m) tr in (data, m\<lparr>mm_data := data\<rparr>, tr1))"

text \<open>
  \<open>init\<close> and the two-argument constructor, which differ in the name they map: \<open>init\<close>
  passes the prefixed \<open>_path\<close>, the constructor its argument \<open>path\<close>.
\<close>

definition mm_acquire ::
    "env \<Rightarrow> string \<Rightarrow> MemoryManager \<Rightarrow> trace \<Rightarrow> unit result \<times> MemoryManager \<times> trace" where
  "mm_acquire e mapped m tr =
     (let (d1, m1, tr1) = MemoryManager_get_memory_from_pmem e mapped m tr;
          m2 = m1\<lparr>mm_data := d1\<rparr>
      in if d1 \<noteq> None then (Inr (), m2\<lparr>mm_is_pmem := True\<rparr>, tr1)
         else
           let (d2, m3, tr2) =
                 MemoryManager_get_memory_from_dram e (m2\<lparr>mm_is_pmem := False\<rparr>) tr1;
               m4 = m3\<lparr>mm_data := d2\<rparr>
           in if d2 = None then (Inl (Runtime_error ''memory malloc failed''), m4, tr2)
              else (Inr (), m4, tr2))"

definition MemoryManager_init ::
    "env \<Rightarrow> u64 \<Rightarrow> string \<Rightarrow> MemoryManager \<Rightarrow> trace \<Rightarrow> unit result \<times> MemoryManager \<times> trace" where
  "MemoryManager_init e sz path m tr =
     mm_acquire e (''/mnt/pmem/'' @ path) (m\<lparr>mm_path := ''/mnt/pmem/'' @ path, mm_size := sz\<rparr>) tr"

definition MemoryManager_new ::
    "env \<Rightarrow> u64 \<Rightarrow> string \<Rightarrow> trace \<Rightarrow> unit result \<times> MemoryManager \<times> trace" where
  "MemoryManager_new e sz path tr =
     mm_acquire e path ((MemoryManager_default sz)\<lparr>mm_path := ''/mnt/pmem/'' @ path\<rparr>) tr"

text \<open>The two releasing operations share the choice of the releasing function.\<close>

definition mm_release :: "MemoryManager \<Rightarrow> addr \<Rightarrow> trace \<Rightarrow> trace" where
  "mm_release m a tr =
     log_event (Mem (if mm_is_pmem m then Ev_pmem_unmap a (mm_size m) else Ev_free a)) tr"

definition MemoryManager_close_and_remove ::
    "env \<Rightarrow> MemoryManager \<Rightarrow> trace \<Rightarrow> int \<times> MemoryManager \<times> trace" where
  "MemoryManager_close_and_remove e m tr =
     (case mm_data m of
        None \<Rightarrow> (0, m, tr)
      | Some a \<Rightarrow>
          let (ret, tr1) = remove_file e (mm_path m) (mm_release m a tr)
          in (ret, m\<lparr>mm_data := None\<rparr>, tr1))"

definition MemoryManager_destroy :: "MemoryManager \<Rightarrow> trace \<Rightarrow> MemoryManager \<times> trace" where
  "MemoryManager_destroy m tr =
     (case mm_data m of
        None \<Rightarrow> (m, tr)
      | Some a \<Rightarrow> (m\<lparr>mm_data := None\<rparr>, mm_release m a tr))"

lemmas mm_defs =
  MemoryManager_get_memory_from_pmem_def MemoryManager_get_memory_from_dram_def mm_acquire_def
  MemoryManager_init_def MemoryManager_new_def

subsection \<open>The blocks a trace leaves allocated\<close>

datatype block = Mapped u64 | Heap u64

fun mem_apply :: "(addr \<rightharpoonup> block) \<Rightarrow> event \<Rightarrow> (addr \<rightharpoonup> block)" where
  "mem_apply L (Mem (Ev_pmem_map_file p n c (Some a, len, pm))) = L(a \<mapsto> Mapped len)"
| "mem_apply L (Mem (Ev_pmem_unmap a n)) = L(a := None)"
| "mem_apply L (Mem (Ev_malloc n (Some a))) = L(a \<mapsto> Heap n)"
| "mem_apply L (Mem (Ev_free a)) = L(a := None)"
| "mem_apply L ev = L"

definition live_blocks :: "trace \<Rightarrow> (addr \<rightharpoonup> block)" where
  "live_blocks tr = foldl mem_apply Map.empty tr"

text \<open>
  A release is legal when it names a live block of its own kind, an unmapping with the length
  that was mapped.
\<close>

fun release_ok :: "(addr \<rightharpoonup> block) \<Rightarrow> event \<Rightarrow> bool" where
  "release_ok L (Mem (Ev_pmem_unmap a n)) = (L a = Some (Mapped n))"
| "release_ok L (Mem (Ev_free a)) = (case L a of Some (Heap n) \<Rightarrow> True | _ \<Rightarrow> False)"
| "release_ok L ev = True"

fun mem_safe_from :: "(addr \<rightharpoonup> block) \<Rightarrow> trace \<Rightarrow> bool" where
  "mem_safe_from L [] = True"
| "mem_safe_from L (ev # evs) = (release_ok L ev \<and> mem_safe_from (mem_apply L ev) evs)"

definition mem_safe :: "trace \<Rightarrow> bool" where
  "mem_safe tr = mem_safe_from Map.empty tr"

lemma live_blocks_append [simp]: "live_blocks (tr @ evs) = foldl mem_apply (live_blocks tr) evs"
  by (simp add: live_blocks_def)

lemma mem_safe_from_append:
  "mem_safe_from L (xs @ ys) = (mem_safe_from L xs \<and> mem_safe_from (foldl mem_apply L xs) ys)"
  by (induction xs arbitrary: L) auto

lemma mem_safe_append [simp]: "mem_safe (tr @ evs) = (mem_safe tr \<and> mem_safe_from (live_blocks tr) evs)"
  by (simp add: mem_safe_def live_blocks_def mem_safe_from_append)

text \<open>Only events of the memory calls change the live blocks.\<close>

lemma mem_apply_other:
  "\<not> (\<exists>m. ev = Mem m) \<Longrightarrow> mem_apply L ev = L \<and> release_ok L ev"
  by (cases ev) auto

text \<open>
  The allocator's promise: a block handed out does not lie on one that is still live.
\<close>

definition alloc_fresh :: "env \<Rightarrow> bool" where
  "alloc_fresh e \<longleftrightarrow>
     (\<forall>tr n a. e_malloc (mem_of e) tr n = Some a \<longrightarrow> live_blocks tr a = None) \<and>
     (\<forall>tr p n c a len pm. e_pmem_map_file (mem_of e) tr p n c = (Some a, len, pm) \<longrightarrow>
        live_blocks tr a = None)"

lemma alloc_freshD:
  assumes "alloc_fresh e"
  shows "e_malloc (mem_of e) tr n = Some a \<Longrightarrow> live_blocks tr a = None"
    and "e_pmem_map_file (mem_of e) tr p n c = (Some a, len, pm) \<Longrightarrow> live_blocks tr a = None"
  using assms unfolding alloc_fresh_def by blast+

text \<open>The manager owns the block its pointer names, with the kind its flag says.\<close>

definition mm_block :: "MemoryManager \<Rightarrow> block" where
  "mm_block m = (if mm_is_pmem m then Mapped (mm_size m) else Heap (mm_size m))"

definition mm_owns :: "MemoryManager \<Rightarrow> trace \<Rightarrow> bool" where
  "mm_owns m tr = (case mm_data m of None \<Rightarrow> True | Some a \<Rightarrow> live_blocks tr a = Some (mm_block m))"

definition mm_gain :: "MemoryManager \<Rightarrow> (addr \<rightharpoonup> block) \<Rightarrow> (addr \<rightharpoonup> block)" where
  "mm_gain m L = (case mm_data m of None \<Rightarrow> L | Some a \<Rightarrow> L(a \<mapsto> mm_block m))"

subsection \<open>Acquiring memory\<close>

lemma pmem_fields:
  assumes "MemoryManager_get_memory_from_pmem e path m tr = (d, m', tr')" and "mm_data m = None"
  shows "m' = m\<lparr>mm_data := d\<rparr>"
  using assms
  by (cases m) (auto simp: MemoryManager_get_memory_from_pmem_def Let_def split: if_splits prod.splits option.splits)

lemma pmem_blocks:
  assumes "alloc_fresh e" and "MemoryManager_get_memory_from_pmem e path m tr = (d, m', tr')"
  shows "live_blocks tr' = (case d of None \<Rightarrow> live_blocks tr
                            | Some a \<Rightarrow> (live_blocks tr)(a \<mapsto> Mapped (mm_size m)))"
    and "d = Some a \<Longrightarrow> live_blocks tr a = None"
  using assms(2)
  by (auto simp: MemoryManager_get_memory_from_pmem_def Let_def env_simps call_pair fun_upd_idem
      split: if_splits prod.splits option.splits
      dest: alloc_freshD(2) [OF assms(1)])

lemma dram_blocks:
  assumes "alloc_fresh e" and "MemoryManager_get_memory_from_dram e m tr = (d, m', tr')"
  shows "m' = m\<lparr>mm_data := d\<rparr>"
    and "live_blocks tr' = (case d of None \<Rightarrow> live_blocks tr
                            | Some a \<Rightarrow> (live_blocks tr)(a \<mapsto> Heap (mm_size m)))"
    and "d = Some a \<Longrightarrow> live_blocks tr a = None"
  using assms(2)
  by (auto simp: MemoryManager_get_memory_from_dram_def env_simps call_pair
      split: prod.splits option.splits dest: alloc_freshD(1) [OF assms(1)])

text \<open>
  Every outcome of acquiring: success with a fresh block of the requested size, or the exception
  with nothing allocated. A mapping that was rejected is gone in both cases.
\<close>

lemma acquire_outcome:
  assumes fresh: "alloc_fresh e" and none: "mm_data m = None"
    and run: "mm_acquire e path m tr = (r, m', tr')"
  shows "mm_size m' = mm_size m \<and> mm_path m' = mm_path m \<and>
         live_blocks tr' = mm_gain m' (live_blocks tr) \<and>
         (case r of
            Inr _ \<Rightarrow> (\<exists>a. mm_data m' = Some a \<and> live_blocks tr a = None)
          | Inl f \<Rightarrow> f = Runtime_error ''memory malloc failed'' \<and> mm_data m' = None)"
proof -
  obtain d1 m1 tr1 where p: "MemoryManager_get_memory_from_pmem e path m tr = (d1, m1, tr1)"
    by (metis prod_cases3)
  note m1 = pmem_fields [OF p none] and b1 = pmem_blocks [OF fresh p]
  obtain d2 m3 tr2 where
    q: "MemoryManager_get_memory_from_dram e (m1\<lparr>mm_data := d1, mm_is_pmem := False\<rparr>) tr1 = (d2, m3, tr2)"
    by (metis prod_cases3)
  note b2 = dram_blocks [OF fresh q]
  show ?thesis
  proof (cases d1)
    case (Some a)
    then show ?thesis
      using run p m1 b1 by (auto simp: mm_acquire_def mm_gain_def mm_block_def)
  next
    case None
    then show ?thesis
      using run p q m1 b1 b2
      by (auto simp: mm_acquire_def mm_gain_def mm_block_def split: if_splits option.splits)
  qed
qed

lemma acquire_owns:
  assumes "alloc_fresh e" and "mm_data m = None" and "mm_acquire e path m tr = (r, m', tr')"
  shows "mm_owns m' tr'"
  using acquire_outcome [OF assms]
  by (auto simp: mm_owns_def mm_gain_def split: option.splits)

subsection \<open>Releasing memory\<close>

text \<open>
  What the owner of a region promises when it releases it: the pointer is cleared, exactly the
  owned block leaves the live blocks, and the release is legal.
\<close>

locale region_owner =
  fixes owns :: "'o \<Rightarrow> trace \<Rightarrow> bool"
    and pointer :: "'o \<Rightarrow> addr option"
    and release :: "'o \<Rightarrow> trace \<Rightarrow> 'o \<times> trace"
  assumes release_clears: "pointer (fst (release x tr)) = None"
    and release_frees: "owns x tr \<Longrightarrow>
      live_blocks (snd (release x tr))
      = (case pointer x of None \<Rightarrow> live_blocks tr | Some a \<Rightarrow> (live_blocks tr)(a := None))"
    and release_legal: "owns x tr \<Longrightarrow> mem_safe tr \<Longrightarrow> mem_safe (snd (release x tr))"
    and owns_nothing: "pointer x = None \<Longrightarrow> owns x tr"
begin

text \<open>A second release, for instance the destructor after an explicit close, frees nothing.\<close>

lemma release_twice:
  assumes "owns x tr" and "mem_safe tr" and "release x tr = (y, tr1)"
  shows "live_blocks (snd (release y tr1)) = live_blocks tr1 \<and> mem_safe (snd (release y tr1))"
proof -
  have "pointer y = None" and "mem_safe tr1"
    using assms release_clears [of x tr] release_legal [of x tr] by simp_all
  then show ?thesis
    using release_frees [of y tr1] release_legal [of y tr1] owns_nothing [of y tr1] by simp
qed

end

interpretation mm_dtor: region_owner mm_owns mm_data MemoryManager_destroy
  by unfold_locales
    (auto simp: MemoryManager_destroy_def mm_release_def mm_owns_def mm_block_def env_simps
      split: option.splits)

interpretation mm_close: region_owner mm_owns mm_data
  "\<lambda>m tr. snd (MemoryManager_close_and_remove e m tr)" for e
  by unfold_locales
    (auto simp: MemoryManager_close_and_remove_def mm_release_def mm_owns_def mm_block_def env_simps
      split: option.splits)

subsection \<open>Legality of the releases\<close>

text \<open>Every successful mapping has the requested length, whether the file existed or not.\<close>

definition maps_whole :: "env \<Rightarrow> u64 \<Rightarrow> bool" where
  "maps_whole e sz \<longleftrightarrow>
     (\<forall>tr p n c a len pm. e_pmem_map_file (mem_of e) tr p n c = (Some a, len, pm) \<longrightarrow> len = sz)"

lemma maps_wholeD:
  "maps_whole e sz \<Longrightarrow> e_pmem_map_file (mem_of e) tr p n c = (Some a, len, pm) \<Longrightarrow> len = sz"
  unfolding maps_whole_def by blast

lemma pmem_legal:
  assumes "maps_whole e (mm_size m)" and "mem_safe tr"
    and "MemoryManager_get_memory_from_pmem e path m tr = (d, m', tr')"
  shows "mem_safe tr'"
  using assms(2,3)
  by (auto simp: MemoryManager_get_memory_from_pmem_def Let_def env_simps
      split: if_splits prod.splits option.splits dest: maps_wholeD [OF assms(1)])

lemma acquire_legal:
  assumes "maps_whole e (mm_size m)" and "mem_safe tr" and "mm_acquire e path m tr = (r, m', tr')"
  shows "mem_safe tr'"
proof -
  obtain d1 m1 tr1 where p: "MemoryManager_get_memory_from_pmem e path m tr = (d1, m1, tr1)"
    by (metis prod_cases3)
  have "mem_safe tr1"
    by (rule pmem_legal [OF assms(1,2) p])
  with p assms(3) show ?thesis
    by (auto simp: mm_acquire_def MemoryManager_get_memory_from_dram_def Let_def env_simps
        split: if_splits)
qed

subsection \<open>A working allocator\<close>

text \<open>
  An allocator that keeps the promise \<open>alloc_fresh\<close>: it hands out an address above all
  addresses of the history. Files do not exist and are created with the requested size.
\<close>

fun event_addr :: "event \<Rightarrow> addr" where
  "event_addr (Mem (Ev_pmem_map_file p n c (Some a, len, pm))) = a"
| "event_addr (Mem (Ev_malloc n (Some a))) = a"
| "event_addr ev = 0"

definition fresh_addr :: "trace \<Rightarrow> addr" where
  "fresh_addr tr = Suc (Max (insert 0 (event_addr ` set tr)))"

definition demo_mem :: mem_env where
  "demo_mem = \<lparr>
     e_access = (\<lambda>tr p. False),
     e_pmem_map_file = (\<lambda>tr p n c. (Some (fresh_addr tr), n, True)),
     e_malloc = (\<lambda>tr n. Some (fresh_addr tr)),
     e_remove = (\<lambda>tr p. 0),
     e_bufferptr = (\<lambda>tr n. (fresh_addr tr, replicate n (CHR 0x00))) \<rparr>"

definition demo_env :: env where
  "demo_env = \<lparr>mem_of = demo_mem, poll_of = demo_poll, setup_of = demo_setup,
     conn_of = demo_conn, mr_of = demo_mr, post_of = demo_post\<rparr>"

lemma mem_apply_dom: "dom (mem_apply L ev) \<subseteq> insert (event_addr ev) (dom L)"
  by (cases "(L, ev)" rule: mem_apply.cases) (auto split: if_splits)

lemma live_blocks_dom: "dom (live_blocks tr) \<subseteq> event_addr ` set tr"
proof (induction tr rule: rev_induct)
  case Nil
  then show ?case by (simp add: live_blocks_def)
next
  case (snoc ev tr)
  then have "dom (mem_apply (live_blocks tr) ev) \<subseteq> insert (event_addr ev) (event_addr ` set tr)"
    using mem_apply_dom [of "live_blocks tr" ev] by blast
  then show ?case by simp
qed

lemma fresh_addr_not_live: "live_blocks tr (fresh_addr tr) = None"
proof (rule ccontr)
  assume "live_blocks tr (fresh_addr tr) \<noteq> None"
  then have "fresh_addr tr \<in> insert 0 (event_addr ` set tr)"
    using live_blocks_dom [of tr] by blast
  then have "fresh_addr tr \<le> Max (insert 0 (event_addr ` set tr))"
    by (intro Max_ge) simp_all
  then show False by (simp add: fresh_addr_def)
qed

lemma demo_alloc_fresh: "mem_of e = demo_mem \<Longrightarrow> alloc_fresh e"
  by (simp add: alloc_fresh_def demo_mem_def fresh_addr_not_live)

text \<open>The same machine without persistent memory: mapping fails, the heap serves.\<close>

definition dram_env :: env where
  "dram_env = demo_env\<lparr>mem_of := demo_mem\<lparr>e_pmem_map_file := (\<lambda>tr p n c. (None, 0, False))\<rparr>\<rparr>"

lemma dram_alloc_fresh: "alloc_fresh dram_env"
  by (simp add: alloc_fresh_def dram_env_def demo_env_def demo_mem_def fresh_addr_not_live)

subsection \<open>Properties\<close>



text \<open>
  The life of a memory manager leaks nothing: after \<open>init\<close>, whatever its outcome,
  both the destructor and \<open>close_and_remove\<close> bring the live blocks back to what they were
  before, and leave the pointer null.
\<close>

theorem mm_lifecycle_no_leak:
  assumes "alloc_fresh e" and "mm_data m = None"
    and "MemoryManager_init e sz path m tr = (r, m1, tr1)"
  shows "live_blocks (snd (MemoryManager_destroy m1 tr1)) = live_blocks tr \<and>
         live_blocks (snd (snd (MemoryManager_close_and_remove e m1 tr1))) = live_blocks tr \<and>
         mm_data (fst (MemoryManager_destroy m1 tr1)) = None \<and>
         mm_data (fst (snd (MemoryManager_close_and_remove e m1 tr1))) = None"
proof -
  let ?m0 = "m\<lparr>mm_path := ''/mnt/pmem/'' @ path, mm_size := sz\<rparr>"
  have none: "mm_data ?m0 = None" using assms(2) by simp
  note run = assms(3) [unfolded MemoryManager_init_def]
  have owns: "mm_owns m1 tr1"
    by (rule acquire_owns [OF assms(1) none run])
  have gain: "live_blocks tr1 = mm_gain m1 (live_blocks tr)"
    and fresh: "mm_data m1 = Some a \<Longrightarrow> live_blocks tr a = None" for a
    using acquire_outcome [OF assms(1) none run] by (auto split: sum.splits)
  show ?thesis
    using mm_dtor.release_frees [OF owns] mm_close.release_frees [OF owns, of e]
      mm_dtor.release_clears mm_close.release_clears gain fresh
    by (auto simp: mm_gain_def fun_upd_idem split: option.splits)
qed

theorem mm_lifecycle_no_leak_witness:
  "\<exists>m1 tr1. MemoryManager_init demo_env 64 ''f'' (MemoryManager_default 0) [] = (Inr (), m1, tr1) \<and>
     mm_is_pmem m1 \<and> live_blocks (snd (MemoryManager_destroy m1 tr1)) = live_blocks []"
proof -
  obtain r m' tr' where run: "MemoryManager_init demo_env 64 ''f'' (MemoryManager_default 0) [] = (r, m', tr')"
    by (metis prod_cases3)
  have "mm_data (MemoryManager_default 0) = None" and "alloc_fresh demo_env"
    by (simp_all add: MemoryManager_default_def demo_alloc_fresh demo_env_def)
  note out = mm_lifecycle_no_leak [OF this(2,1) run]
  have "r = Inr () \<and> mm_is_pmem m'"
    using run by (auto simp: mm_defs demo_env_def demo_mem_def env_simps split: if_splits)
  with out run show ?thesis by auto
qed

text \<open>
  C22: When each mapping has the requested length, everything a memory manager releases
  during its life is released legally: a live mapping is unmapped with its own length, a live
  heap block is freed, nothing is released twice.
\<close>

theorem mm_lifecycle_legal:
  assumes "alloc_fresh e" and "maps_whole e sz" and "mm_data m = None" and "mem_safe tr"
    and "MemoryManager_init e sz path m tr = (r, m1, tr1)"
    and "MemoryManager_close_and_remove e m1 tr1 = (ret, m2, tr2)"
  shows "mem_safe tr1 \<and> mem_safe tr2 \<and> mem_safe (snd (MemoryManager_destroy m2 tr2))"
proof -
  let ?m0 = "m\<lparr>mm_path := ''/mnt/pmem/'' @ path, mm_size := sz\<rparr>"
  note run = assms(5) [unfolded MemoryManager_init_def]
  have none: "mm_data ?m0 = None" using assms(3) by simp
  have s1: "mem_safe tr1"
    by (rule acquire_legal [OF _ assms(4) run]) (simp add: assms(2))
  have owns: "mm_owns m1 tr1"
    by (rule acquire_owns [OF assms(1) none run])
  have s2: "mem_safe tr2" and m2: "mm_data m2 = None"
    using mm_close.release_legal [OF owns s1, of e] mm_close.release_clears [of e m1 tr1] assms(6)
    by simp_all
  show ?thesis
    using s1 s2 mm_dtor.release_legal [OF mm_dtor.owns_nothing [OF m2] s2] by simp
qed

theorem mm_lifecycle_legal_witness:
  "\<exists>m1 tr1 ret m2 tr2.
     MemoryManager_init dram_env 64 ''f'' (MemoryManager_default 0) [] = (Inr (), m1, tr1) \<and>
     MemoryManager_close_and_remove dram_env m1 tr1 = (ret, m2, tr2) \<and>
     Mem (Ev_free 1) \<in> set tr2 \<and> mem_safe (snd (MemoryManager_destroy m2 tr2))"
proof -
  obtain r m1 tr1 where run: "MemoryManager_init dram_env 64 ''f'' (MemoryManager_default 0) [] = (r, m1, tr1)"
    by (metis prod_cases3)
  obtain ret m2 tr2 where cl: "MemoryManager_close_and_remove dram_env m1 tr1 = (ret, m2, tr2)"
    by (metis prod_cases3)
  have whole: "maps_whole dram_env 64"
    by (simp add: maps_whole_def dram_env_def demo_env_def demo_mem_def)
  have none: "mm_data (MemoryManager_default 0) = None" and safe: "mem_safe []"
    by (simp_all add: MemoryManager_default_def mem_safe_def)
  note out = mm_lifecycle_legal [OF dram_alloc_fresh whole none safe run cl]
  have "r = Inr () \<and> Mem (Ev_free 1) \<in> set tr2"
    using run cl
    by (auto simp: mm_defs MemoryManager_close_and_remove_def mm_release_def dram_env_def
        demo_env_def demo_mem_def env_simps fresh_addr_def split: if_splits)
  with out run cl show ?thesis by auto
qed

text \<open>
  C36: A file left at the path with a length other than the requested one is mapped whole and
  unmapped with the requested length: the release is not legal, whatever happens after.
\<close>

theorem mm_stale_file_wrong_unmap:
  assumes "e_access (mem_of e) tr (''/mnt/pmem/'' @ path)"
    and "e_pmem_map_file (mem_of e) (tr @ [Mem (Ev_access (''/mnt/pmem/'' @ path) True)])
           (''/mnt/pmem/'' @ path) 0 False = (Some a, len, pm)"
    and "len \<noteq> sz" and "MemoryManager_init e sz path m tr = (r, m', tr')"
  shows "\<not> mem_safe tr'"
  using assms
  by (auto simp: mm_defs Let_def env_simps split: if_splits)

theorem mm_stale_file_wrong_unmap_witness:
  "\<exists>e r m' tr'. e_access (mem_of e) [] ''/mnt/pmem/f'' \<and>
     MemoryManager_init e 64 ''f'' (MemoryManager_default 0) [] = (r, m', tr') \<and> \<not> mem_safe tr'"
proof -
  let ?e = "demo_env\<lparr>mem_of := demo_mem\<lparr>e_access := (\<lambda>tr p. True),
    e_pmem_map_file := (\<lambda>tr p n c. (Some (fresh_addr tr), 32, True))\<rparr>\<rparr>"
  obtain r m' tr' where run: "MemoryManager_init ?e 64 ''f'' (MemoryManager_default 0) [] = (r, m', tr')"
    by (metis prod_cases3)
  have acc: "e_access (mem_of ?e) [] (''/mnt/pmem/'' @ ''f'')"
    and len: "(32 :: u64) \<noteq> 64"
    and map: "e_pmem_map_file (mem_of ?e) ([] @ [Mem (Ev_access (''/mnt/pmem/'' @ ''f'') True)])
      (''/mnt/pmem/'' @ ''f'') 0 False = (Some (fresh_addr ([] @ [Mem (Ev_access (''/mnt/pmem/'' @ ''f'') True)])), 32, True)"
    by simp_all
  have "\<not> mem_safe tr'"
    by (rule mm_stale_file_wrong_unmap [OF acc map len run])
  with acc run show ?thesis by (intro exI [of _ ?e]) auto
qed

end
