(* ===== verification/Reactor_Model.thy ===== *)
theory Reactor_Model
  imports Memory_Manager "HOL-Library.AList"
begin

text \<open>
  \<open>EventHandler.h\<close>, \<open>Reactor.h\<close> and \<open>Reactor.cc\<close>: the dispatcher. The table of
  event handles is an association list from descriptors; each entry carries the address of its
  node, because the reactor gives that address to epoll and dereferences what epoll returns.
  Handlers are numbers (the \<open>shared_ptr\<close> in the entry); what they do on an event is a
  parameter of the event loop.
\<close>

datatype EventType = ACCEPT_EVENT | CONNECTION_EVENT | COMPLETION_EVENT

type_synonym hid = nat

record EventHandle =
  eh_node :: ptr
  eh_type :: EventType
  eh_handler :: hid

record Reactor =
  epoll :: fd
  event_table :: "(fd \<times> EventHandle) list"
  next_node :: ptr

definition TIMEOUT_1500S :: int where "TIMEOUT_1500S = 1500000"
definition O_NONBLOCK :: int where "O_NONBLOCK = 2048"

definition Reactor_new :: "env \<Rightarrow> trace \<Rightarrow> Reactor result \<times> trace" where
  "Reactor_new e tr =
     (let (efd, tr1) = epoll_create1 e tr
      in if efd = -1 then (Inl (Runtime_error (''epoll_create1 failed'' @ [CHR 0x0A])), tr1)
         else (Inr \<lparr>epoll = efd, event_table = [], next_node = 0\<rparr>, tr1))"

definition Reactor_destroy :: "Reactor \<Rightarrow> trace \<Rightarrow> trace" where
  "Reactor_destroy r tr = log_event (Poll (Ev_close (epoll r))) tr"

definition Reactor_empty :: "Reactor \<Rightarrow> bool" where
  "Reactor_empty r = (event_table r = [])"

definition Reactor_fd_set_nonblock :: "env \<Rightarrow> fd \<Rightarrow> trace \<Rightarrow> int \<times> trace" where
  "Reactor_fd_set_nonblock e fd tr =
     (let ((ret, err), tr1) = fcntl_getfl e fd tr
      in if ret < 0 then (err, tr1)
         else
           let flags = ret OR O_NONBLOCK;
               ((ret2, err2), tr2) = fcntl_setfl e fd flags tr1
           in if ret2 < 0 then (err2, tr2) else (0, tr2))"

text \<open>
  \<open>emplace\<close> creates a node only when the descriptor has none; the assignments then write
  through the reference in both cases.
\<close>

definition table_emplace :: "fd \<Rightarrow> EventType \<Rightarrow> hid \<Rightarrow> Reactor \<Rightarrow> ptr \<times> Reactor" where
  "table_emplace fd et h r =
     (case map_of (event_table r) fd of
        Some eh \<Rightarrow>
          (eh_node eh,
           r\<lparr>event_table := AList.update fd (eh\<lparr>eh_type := et, eh_handler := h\<rparr>) (event_table r)\<rparr>)
      | None \<Rightarrow>
          (next_node r,
           r\<lparr>event_table := AList.update fd
               \<lparr>eh_node = next_node r, eh_type = et, eh_handler = h\<rparr> (event_table r),
             next_node := Suc (next_node r)\<rparr>))"

definition table_erase :: "fd \<Rightarrow> Reactor \<Rightarrow> Reactor" where
  "table_erase fd r = r\<lparr>event_table := AList.delete fd (event_table r)\<rparr>"

definition Reactor_register_handler ::
    "env \<Rightarrow> (EventType \<Rightarrow> fd) \<Rightarrow> hid \<Rightarrow> EventType \<Rightarrow> Reactor \<Rightarrow> trace \<Rightarrow> int \<times> Reactor \<times> trace" where
  "Reactor_register_handler e get_handle h et r tr =
     (let fd = get_handle et
      in if fd = -1 then (-1, r, tr)
         else
           let (ret, tr1) = Reactor_fd_set_nonblock e fd tr
           in if ret \<noteq> 0 then (-1, r, tr1)
              else
                let (node, r1) = table_emplace fd et h r;
                    ((ret2, err), tr2) = epoll_ctl_add e (get_handle et) node tr1
                in if ret2 \<noteq> 0 then (err, table_erase fd r1, tr2) else (0, r1, tr2))"

definition Reactor_remove_handler ::
    "env \<Rightarrow> (EventType \<Rightarrow> fd) \<Rightarrow> hid \<Rightarrow> EventType \<Rightarrow> Reactor \<Rightarrow> trace \<Rightarrow> int \<times> Reactor \<times> trace" where
  "Reactor_remove_handler e get_handle h et r tr =
     (let fd = get_handle et
      in if fd = -1 then (-1, r, tr)
         else
           let (_, tr1) = epoll_ctl_del e fd tr
           in (0, table_erase fd r, tr1))"

text \<open>Dereferencing a node address: an address of no entry is that of a destroyed node.\<close>

definition Reactor_deref :: "Reactor \<Rightarrow> ptr \<Rightarrow> EventHandle option" where
  "Reactor_deref r p = find (\<lambda>eh. eh_node eh = p) (map snd (event_table r))"

text \<open>
  The event loop. The handlers' \<open>handle\<close> acts on a state that contains the reactor and can
  throw. The loop need not end, so it runs on fuel; running out is \<open>None\<close>.
\<close>

type_synonym 's dispatcher = "hid \<Rightarrow> EventType \<Rightarrow> 's \<Rightarrow> trace \<Rightarrow> int result \<times> 's \<times> trace"

fun Reactor_handle_events ::
    "env \<Rightarrow> ('s \<Rightarrow> Reactor) \<Rightarrow> 's dispatcher \<Rightarrow> nat \<Rightarrow> 's \<Rightarrow> trace
     \<Rightarrow> (int result \<times> 's \<times> trace) option" where
  "Reactor_handle_events e reac disp 0 s tr = None"
| "Reactor_handle_events e reac disp (Suc n) s tr =
     (let ((ret, data), tr1) = epoll_wait e tr
      in if ret \<noteq> 1 then Some (Inr ret, s, tr1)
         else
           (case data of
              None \<Rightarrow> Some (Inl Null_dereference, s, tr1)
            | Some p \<Rightarrow>
                (case Reactor_deref (reac s) p of
                   None \<Rightarrow> Some (Inl Use_after_free, s, tr1)
                 | Some eh \<Rightarrow>
                     (case disp (eh_handler eh) (eh_type eh) s tr1 of
                        (Inl f, s2, tr2) \<Rightarrow> Some (Inl f, s2, tr2)
                      | (Inr _, s2, tr2) \<Rightarrow>
                          if Reactor_empty (reac s2) then Some (Inr ret, s2, tr2)
                          else Reactor_handle_events e reac disp n s2 tr2))))"

lemmas reactor_defs =
  Reactor_fd_set_nonblock_def Reactor_register_handler_def Reactor_remove_handler_def
  table_emplace_def table_erase_def

subsection \<open>The kernel's interest list\<close>

text \<open>What epoll watches after a trace: each descriptor with the address registered for it.\<close>

fun poll_apply :: "(fd \<rightharpoonup> ptr) \<Rightarrow> event \<Rightarrow> (fd \<rightharpoonup> ptr)" where
  "poll_apply I (Poll (Ev_epoll_add fd p (ret, err))) = (if ret = 0 then I(fd \<mapsto> p) else I)"
| "poll_apply I (Poll (Ev_epoll_del fd ret)) = (if ret = 0 then I(fd := None) else I)"
| "poll_apply I ev = I"

definition interest :: "trace \<Rightarrow> (fd \<rightharpoonup> ptr)" where
  "interest tr = foldl poll_apply Map.empty tr"

lemma interest_append [simp]: "interest (tr @ evs) = foldl poll_apply (interest tr) evs"
  by (simp add: interest_def)

text \<open>
  The kernel's promises, from epoll_ctl(2) and epoll_wait(2): a descriptor is added only when it
  is not watched yet and deleting a watched one succeeds; a failed call sets an error number; a
  returned event carries the address registered for a watched descriptor.
\<close>

definition epoll_ok :: "env \<Rightarrow> bool" where
  "epoll_ok e \<longleftrightarrow>
     (\<forall>tr fd p ret err. e_epoll_add (poll_of e) tr fd p = (ret, err) \<longrightarrow>
        (ret = 0 \<longrightarrow> interest tr fd = None) \<and> (ret \<noteq> 0 \<longrightarrow> err \<noteq> 0)) \<and>
     (\<forall>tr fd. interest tr fd \<noteq> None \<longrightarrow> e_epoll_del (poll_of e) tr fd = 0) \<and>
     (\<forall>tr data. e_epoll_wait (poll_of e) tr = (1, data) \<longrightarrow>
        (\<exists>p. data = Some p \<and> p \<in> ran (interest tr)))"

lemma epoll_okD:
  assumes "epoll_ok e"
  shows "e_epoll_add (poll_of e) tr fd p = (0, err) \<Longrightarrow> interest tr fd = None"
    and "e_epoll_add (poll_of e) tr fd p = (ret, 0) \<Longrightarrow> ret = 0"
    and "interest tr fd = Some p \<Longrightarrow> e_epoll_del (poll_of e) tr fd = 0"
    and "e_epoll_wait (poll_of e) tr = (1, data) \<Longrightarrow> \<exists>p. data = Some p \<and> p \<in> ran (interest tr)"
  using assms unfolding epoll_ok_def by blast+

subsection \<open>Invariant and abstract view\<close>

text \<open>
  The table and the kernel agree: the watched descriptors are the keys of the table, each
  watched with the address of its entry, and addresses identify entries. The abstract view
  forgets the addresses.
\<close>

definition reactor_inv :: "Reactor \<Rightarrow> trace \<Rightarrow> bool" where
  "reactor_inv r tr \<longleftrightarrow>
     distinct (map fst (event_table r)) \<and>
     (\<forall>fd eh. map_of (event_table r) fd = Some eh \<longrightarrow> eh_node eh < next_node r) \<and>
     (\<forall>fd1 fd2 eh1 eh2. map_of (event_table r) fd1 = Some eh1 \<longrightarrow>
        map_of (event_table r) fd2 = Some eh2 \<longrightarrow> eh_node eh1 = eh_node eh2 \<longrightarrow> fd1 = fd2) \<and>
     (\<forall>fd. interest tr fd = map_option eh_node (map_of (event_table r) fd))"

definition reactor_view :: "Reactor \<Rightarrow> (fd \<rightharpoonup> EventType \<times> hid)" where
  "reactor_view r fd = map_option (\<lambda>eh. (eh_type eh, eh_handler eh)) (map_of (event_table r) fd)"

lemma view_None: "reactor_view r fd = None \<longleftrightarrow> map_of (event_table r) fd = None"
  by (simp add: reactor_view_def)

lemma reactor_invD:
  assumes "reactor_inv r tr"
  shows "distinct (map fst (event_table r))"
    and "map_of (event_table r) fd = Some eh \<Longrightarrow> eh_node eh < next_node r"
    and "\<lbrakk>map_of (event_table r) fd1 = Some eh1; map_of (event_table r) fd2 = Some eh2;
          eh_node eh1 = eh_node eh2\<rbrakk> \<Longrightarrow> fd1 = fd2"
    and "interest tr fd = map_option eh_node (map_of (event_table r) fd)"
  using assms unfolding reactor_inv_def by blast+

lemma reactor_inv_cong:
  "interest tr' = interest tr \<Longrightarrow> reactor_inv r tr \<Longrightarrow> reactor_inv r tr'"
  by (simp add: reactor_inv_def)

text \<open>A fresh entry, once the kernel watches it, extends the invariant.\<close>

lemma reactor_inv_emplace:
  assumes inv: "reactor_inv r tr" and new: "map_of (event_table r) fd = None"
    and int: "interest tr' = (interest tr)(fd \<mapsto> next_node r)"
  shows "reactor_inv (snd (table_emplace fd et h r)) tr'"
  using inv new int
  by (auto simp: reactor_inv_def table_emplace_def update_conv distinct_update less_SucI
      split: if_splits) (metis less_irrefl)+

text \<open>Erasing an entry keeps the invariant once the kernel forgot the descriptor.\<close>

lemma reactor_inv_erase:
  assumes "reactor_inv r tr" and "interest tr' = (interest tr)(fd := None)"
  shows "reactor_inv (table_erase fd r) tr'"
  using assms
  by (auto simp: reactor_inv_def table_erase_def delete_conv distinct_delete split: if_splits)

lemma view_emplace:
  "reactor_view (snd (table_emplace fd et h r)) = (reactor_view r)(fd \<mapsto> (et, h))"
  by (auto simp: reactor_view_def table_emplace_def update_conv fun_eq_iff split: option.splits)

lemma view_erase: "reactor_view (table_erase fd r) = (reactor_view r)(fd := None)"
  by (auto simp: reactor_view_def table_erase_def delete_conv fun_eq_iff)

lemma node_emplace:
  "map_of (event_table r) fd = None \<Longrightarrow> fst (table_emplace fd et h r) = next_node r"
  by (simp add: table_emplace_def)

lemma delete_update_new: "k \<notin> fst ` set al \<Longrightarrow> AList.delete k (AList.update k v al) = al"
  by (induction al) auto

lemma erase_emplace:
  assumes "map_of (event_table r) fd = None"
  shows "event_table (table_erase fd (snd (table_emplace fd et h r))) = event_table r"
proof -
  have "fd \<notin> fst ` set (event_table r)"
    using assms by (simp add: map_of_eq_None_iff)
  with assms show ?thesis
    by (simp add: table_erase_def table_emplace_def delete_update_new)
qed

lemma nonblock_interest:
  "Reactor_fd_set_nonblock e fd tr = (ret, tr') \<Longrightarrow> interest tr' = interest tr"
  by (auto simp: Reactor_fd_set_nonblock_def Let_def env_simps split: if_splits prod.splits)

text \<open>A node that the kernel returns is an entry of the table.\<close>

lemma deref_entry:
  assumes inv: "reactor_inv r tr" and entry: "map_of (event_table r) fd = Some eh"
  shows "Reactor_deref r (eh_node eh) = Some eh"
proof -
  have "eh \<in> set (map snd (event_table r))"
    using map_of_SomeD [OF entry] by force
  then obtain eh' where f: "Reactor_deref r (eh_node eh) = Some eh'"
    unfolding Reactor_deref_def by (cases "find (\<lambda>x. eh_node x = eh_node eh) (map snd (event_table r))")
      (auto simp: find_None_iff)
  then have "eh_node eh' = eh_node eh" and "eh' \<in> set (map snd (event_table r))"
    by (auto simp: Reactor_deref_def find_Some_iff)
  then obtain fd' where "map_of (event_table r) fd' = Some eh'"
    using reactor_invD(1) [OF inv] by auto
  then have "fd' = fd" and "map_of (event_table r) fd' = Some eh'"
    using reactor_invD(3) [OF inv _ entry] \<open>eh_node eh' = eh_node eh\<close> by blast+
  with entry f show ?thesis by simp
qed

subsection \<open>Registering and removing\<close>

lemma register_outcome:
  assumes ok: "epoll_ok e" and inv: "reactor_inv r tr" and new: "reactor_view r (gh et) = None"
    and run: "Reactor_register_handler e gh h et r tr = (ret, r', tr')"
  shows "reactor_inv r' tr' \<and>
         reactor_view r' = (if ret = 0 then (reactor_view r)(gh et \<mapsto> (et, h)) else reactor_view r) \<and>
         (ret = 0 \<longrightarrow> gh et \<noteq> -1)"
proof -
  let ?fd = "gh et"
  obtain nb tr1 where n: "Reactor_fd_set_nonblock e ?fd tr = (nb, tr1)"
    by (metis prod.exhaust)
  have i1: "interest tr1 = interest tr"
    by (rule nonblock_interest [OF n])
  obtain ret2 err where add: "e_epoll_add (poll_of e) tr1 ?fd (next_node r) = (ret2, err)"
    by (metis prod.exhaust)
  have entry: "map_of (event_table r) ?fd = None"
    using new by (simp add: view_None)
  then obtain r1 where em: "table_emplace ?fd et h r = (next_node r, r1)"
    by (simp add: table_emplace_def)
  have r1: "r1 = snd (table_emplace ?fd et h r)" using em by simp
  have inv_tr1: "reactor_inv r tr1"
    by (rule reactor_inv_cong [OF i1 inv])
  consider "?fd = -1" | "?fd \<noteq> -1" "nb \<noteq> 0" | "?fd \<noteq> -1" "nb = 0" "ret2 \<noteq> 0" | "?fd \<noteq> -1" "nb = 0" "ret2 = 0"
    by blast
  then show ?thesis
  proof cases
    case 1
    with run inv show ?thesis by (simp add: Reactor_register_handler_def)
  next
    case 2
    with run n inv_tr1 show ?thesis by (simp add: Reactor_register_handler_def)
  next
    case 3
    then have "ret = err" and r': "r' = table_erase ?fd r1" and tr': "interest tr' = interest tr"
      using run n add em i1 by (auto simp: Reactor_register_handler_def Let_def env_simps)
    moreover have "err \<noteq> 0"
      using epoll_okD(2) [OF ok] add 3 by blast
    moreover have "event_table r' = event_table r" and "next_node r' = Suc (next_node r)"
      using erase_emplace [OF entry, of et h] em entry r'
      by (auto simp: r1 table_erase_def table_emplace_def)
    moreover from this have "reactor_inv r' tr'"
      using inv tr' by (auto simp: reactor_inv_def intro: less_SucI)
    ultimately show ?thesis by (simp add: reactor_view_def fun_eq_iff)
  next
    case 4
    then have "ret = 0" and r': "r' = r1" and "interest tr' = (interest tr)(?fd \<mapsto> next_node r)"
      using run n add em i1 by (auto simp: Reactor_register_handler_def Let_def env_simps)
    then show ?thesis
      using reactor_inv_emplace [OF inv entry, of tr' et h] view_emplace [of ?fd et h r] r1 4
      by simp
  qed
qed

lemma remove_outcome:
  assumes ok: "epoll_ok e" and inv: "reactor_inv r tr"
    and run: "Reactor_remove_handler e gh h et r tr = (ret, r', tr')"
  shows "reactor_inv r' tr' \<and>
         (if gh et = -1 then ret = -1 \<and> reactor_view r' = reactor_view r
          else ret = 0 \<and> reactor_view r' = (reactor_view r)(gh et := None))"
proof (cases "gh et = -1")
  case True
  with run inv show ?thesis by (simp add: Reactor_remove_handler_def)
next
  case False
  have "interest tr' = (interest tr)(gh et := None)"
    using run False epoll_okD(3) [OF ok, of tr "gh et"]
    by (cases "interest tr (gh et)")
       (auto simp: Reactor_remove_handler_def Let_def env_simps fun_upd_idem)
  then show ?thesis
    using run False reactor_inv_erase [OF inv] view_erase [of "gh et" r]
    by (auto simp: Reactor_remove_handler_def Let_def env_simps)
qed

text \<open>
  The contract the connection handlers rely on: a registry of descriptors with an abstract view.
  \<open>register_self\<close> of both handler classes registers two descriptors and takes the first
  back when the second fails.
\<close>

locale registry =
  fixes view :: "'r \<Rightarrow> (fd \<rightharpoonup> EventType \<times> hid)"
    and inv :: "'r \<Rightarrow> trace \<Rightarrow> bool"
    and reg :: "(EventType \<Rightarrow> fd) \<Rightarrow> hid \<Rightarrow> EventType \<Rightarrow> 'r \<Rightarrow> trace \<Rightarrow> int \<times> 'r \<times> trace"
    and unreg :: "(EventType \<Rightarrow> fd) \<Rightarrow> hid \<Rightarrow> EventType \<Rightarrow> 'r \<Rightarrow> trace \<Rightarrow> int \<times> 'r \<times> trace"
  assumes reg_outcome: "\<lbrakk>inv r tr; view r (gh et) = None; reg gh h et r tr = (ret, r', tr')\<rbrakk> \<Longrightarrow>
      inv r' tr' \<and> view r' = (if ret = 0 then (view r)(gh et \<mapsto> (et, h)) else view r) \<and>
      (ret = 0 \<longrightarrow> gh et \<noteq> -1)"
    and unreg_outcome: "\<lbrakk>inv r tr; unreg gh h et r tr = (ret, r', tr')\<rbrakk> \<Longrightarrow>
      inv r' tr' \<and> (if gh et = -1 then ret = -1 \<and> view r' = view r
                    else ret = 0 \<and> view r' = (view r)(gh et := None))"
begin

text \<open>Registering and removing again leaves the view as it was.\<close>

lemma reg_unreg:
  assumes "inv r tr" and "view r (gh et) = None" and "reg gh h et r tr = (0, r1, tr1)"
    and "unreg gh h et r1 tr1 = (ret, r2, tr2)"
  shows "view r2 = view r \<and> inv r2 tr2 \<and> ret = 0"
proof -
  note a = reg_outcome [OF assms(1-3)]
  note b = unreg_outcome [OF conjunct1 [OF a] assms(4)]
  from a b assms(2) show ?thesis by (auto simp: fun_upd_idem)
qed

end

text \<open>On a kernel that keeps its promises the reactor is such a registry.\<close>

lemma reactor_registry:
  assumes "epoll_ok e"
  shows "registry reactor_view reactor_inv (Reactor_register_handler e) (Reactor_remove_handler e)"
  by unfold_locales (rule register_outcome [OF assms], assumption+, rule remove_outcome [OF assms])

locale epoll_kernel =
  fixes e :: env
  assumes kernel: "epoll_ok e"

sublocale epoll_kernel \<subseteq> reactor: registry reactor_view reactor_inv
  "Reactor_register_handler e" "Reactor_remove_handler e"
  by (rule reactor_registry [OF kernel])

text \<open>
  A kernel that answers from the interest list: adding a watched descriptor fails with
  \<open>EEXIST\<close>, deleting an unwatched one fails, waiting times out.
\<close>

definition kernel_poll :: poll_env where
  "kernel_poll = demo_poll\<lparr>
     e_epoll_add := (\<lambda>tr fd p. if interest tr fd = None then (0, 0) else (-1, 17)),
     e_epoll_del := (\<lambda>tr fd. if interest tr fd = None then -1 else 0)\<rparr>"

lemma kernel_epoll_ok: "poll_of e = kernel_poll \<Longrightarrow> epoll_ok e"
  by (auto simp: epoll_ok_def kernel_poll_def demo_poll_def split: if_splits)

definition kernel_env :: env where
  "kernel_env = demo_env\<lparr>poll_of := kernel_poll\<rparr>"

interpretation kernel: epoll_kernel kernel_env
  by unfold_locales (simp add: kernel_epoll_ok kernel_env_def)

subsection \<open>The event loop\<close>

text \<open>
  The contract of the handlers towards the loop: they keep a state in which table and kernel
  agree. Then the loop dereferences live entries only, and every failure that leaves it was
  raised by a handler that was called for an entry of the table.
\<close>

locale event_loop =
  fixes e :: env
    and reac :: "'s \<Rightarrow> Reactor"
    and disp :: "'s dispatcher"
    and ok :: "'s \<Rightarrow> trace \<Rightarrow> bool"
  assumes kernel: "epoll_ok e"
    and ok_inv: "ok s tr \<Longrightarrow> reactor_inv (reac s) tr"
    and ok_wait: "ok s tr \<Longrightarrow> ok s (tr @ [Poll (Ev_epoll_wait x)])"
    and disp_ok: "\<lbrakk>ok s tr; reactor_view (reac s) fd = Some (et, h); disp h et s tr = (Inr v, s', tr')\<rbrakk>
      \<Longrightarrow> ok s' tr'"
begin

lemma wait_entry:
  assumes "ok s tr" and "e_epoll_wait (poll_of e) tr = (1, data)"
  shows "\<exists>p fd eh. data = Some p \<and> map_of (event_table (reac s)) fd = Some eh \<and> eh_node eh = p \<and>
           Reactor_deref (reac s) p = Some eh"
proof -
  obtain p where p: "data = Some p" "p \<in> ran (interest tr)"
    using epoll_okD(4) [OF kernel assms(2)] by blast
  then obtain fd where "interest tr fd = Some p"
    by (auto simp: ran_def)
  then obtain eh where eh: "map_of (event_table (reac s)) fd = Some eh" "eh_node eh = p"
    using reactor_invD(4) [OF ok_inv [OF assms(1)], of fd] by auto
  show ?thesis
    using p eh deref_entry [OF ok_inv [OF assms(1)] eh(1)] by blast
qed

lemma loop_safe:
  assumes "ok s tr" and "Reactor_handle_events e reac disp n s tr = Some (res, s', tr')"
  shows "case res of
      Inr ret \<Rightarrow> ok s' tr' \<and> (ret = 1 \<longrightarrow> Reactor_empty (reac s'))
    | Inl f \<Rightarrow> (\<exists>h et fd s0 tr0. ok s0 tr0 \<and> reactor_view (reac s0) fd = Some (et, h) \<and>
                 disp h et s0 tr0 = (Inl f, s', tr'))"
  using assms
proof (induction n arbitrary: s tr)
  case 0
  then show ?case by simp
next
  case (Suc n)
  obtain ret data where w: "e_epoll_wait (poll_of e) tr = (ret, data)"
    by (metis prod.exhaust)
  let ?tr1 = "tr @ [Poll (Ev_epoll_wait (ret, data))]"
  have ok1: "ok s ?tr1" by (rule ok_wait [OF Suc.prems(1)])
  show ?case
  proof (cases "ret = 1")
    case False
    with Suc.prems(2) w ok1 show ?thesis by (auto simp: env_simps)
  next
    case True
    then obtain p fd eh where p: "data = Some p" "map_of (event_table (reac s)) fd = Some eh"
        "Reactor_deref (reac s) p = Some eh"
      using wait_entry [OF Suc.prems(1)] w by blast
    then have v: "reactor_view (reac s) fd = Some (eh_type eh, eh_handler eh)"
      by (simp add: reactor_view_def)
    obtain q s2 tr2 where d: "disp (eh_handler eh) (eh_type eh) s ?tr1 = (q, s2, tr2)"
      by (metis prod_cases3)
    show ?thesis
    proof (cases q)
      case (Inl f)
      with Suc.prems(2) w True p d have "res = Inl f \<and> s' = s2 \<and> tr' = tr2"
        by (simp add: env_simps)
      moreover have "\<exists>h et fd s0 tr0. ok s0 tr0 \<and> reactor_view (reac s0) fd = Some (et, h) \<and>
          disp h et s0 tr0 = (Inl f, s2, tr2)"
        using d v ok1 unfolding Inl by blast
      ultimately show ?thesis by simp
    next
      case (Inr u)
      have ok2: "ok s2 tr2"
        using disp_ok [OF ok1 v] d Inr by simp
      show ?thesis
        using Suc.prems(2) w True p d Inr ok2 Suc.IH [OF ok2]
        by (auto simp: env_simps split: if_splits)
    qed
  qed
qed

end

subsection \<open>Properties\<close>



text \<open>
  C20: Removing a handler keeps table and kernel in agreement and takes exactly its descriptor
  out of the abstract table; with the descriptor -1 it returns -1 and changes nothing.
\<close>

theorem reactor_remove_refines:
  assumes "epoll_ok e" and "reactor_inv r tr"
    and "Reactor_remove_handler e gh h et r tr = (ret, r', tr')"
  shows "reactor_inv r' tr' \<and>
         (if gh et = -1 then ret = -1 \<and> reactor_view r' = reactor_view r
          else ret = 0 \<and> reactor_view r' = (reactor_view r)(gh et := None))"
  by (rule remove_outcome [OF assms])

theorem reactor_remove_refines_witness:
  "\<exists>r' tr'. Reactor_remove_handler kernel_env (\<lambda>_. 7) 5 ACCEPT_EVENT
       \<lparr>epoll = 3, event_table = [(7, \<lparr>eh_node = 0, eh_type = ACCEPT_EVENT, eh_handler = 5\<rparr>)], next_node = 1\<rparr>
       [Poll (Ev_epoll_add 7 0 (0, 0))] = (0, r', tr') \<and> reactor_view r' 7 = None \<and> reactor_inv r' tr'"
proof -
  let ?r = "\<lparr>epoll = 3, event_table = [(7, \<lparr>eh_node = 0, eh_type = ACCEPT_EVENT, eh_handler = 5\<rparr>)], next_node = 1\<rparr>"
  let ?tr = "[Poll (Ev_epoll_add 7 0 (0, 0))]"
  obtain ret r' tr' where run: "Reactor_remove_handler kernel_env (\<lambda>_. 7) 5 ACCEPT_EVENT ?r ?tr = (ret, r', tr')"
    by (metis prod_cases3)
  have "reactor_inv ?r ?tr"
    by (simp add: reactor_inv_def interest_def)
  note out = reactor_remove_refines [OF kernel.kernel this run]
  then show ?thesis using run by auto
qed

text \<open>
  Registering a descriptor a second time does not only fail: the failed \<open>epoll_ctl\<close>
  makes \<open>register_handler\<close> erase the entry of the first registration, while the kernel
  still watches the descriptor with the address of the erased node. Dereferencing what epoll
  returns for it is then a use after free.
\<close>

theorem reactor_duplicate_dangles:
  assumes ok: "epoll_ok e" and inv: "reactor_inv r tr"
    and old: "map_of (event_table r) (gh et) = Some eh" and fd: "gh et \<noteq> -1"
    and nb: "Reactor_fd_set_nonblock e (gh et) tr = (0, tr1)"
    and run: "Reactor_register_handler e gh h et r tr = (ret, r', tr')"
  shows "ret \<noteq> 0 \<and> reactor_view r' (gh et) = None \<and> interest tr' (gh et) = Some (eh_node eh) \<and>
         Reactor_deref r' (eh_node eh) = None"
proof -
  let ?fd = "gh et"
  let ?eh = "eh\<lparr>eh_type := et, eh_handler := h\<rparr>"
  have i1: "interest tr1 ?fd = Some (eh_node eh)"
    using nonblock_interest [OF nb] reactor_invD(4) [OF inv, of ?fd] old by simp
  obtain ret2 err where add: "e_epoll_add (poll_of e) tr1 ?fd (eh_node eh) = (ret2, err)"
    by (metis prod.exhaust)
  have ne: "ret2 \<noteq> 0" "err \<noteq> 0"
    using epoll_okD(1,2) [OF ok] add i1 by force+
  have t: "event_table r' = AList.delete ?fd (AList.update ?fd ?eh (event_table r))"
    and "ret = err" and "interest tr' = interest tr1"
    using run nb add ne fd old
    by (auto simp: Reactor_register_handler_def table_emplace_def table_erase_def Let_def env_simps)
  moreover have "eh_node eh' \<noteq> eh_node eh" if "(fd', eh') \<in> set (event_table r')" for fd' eh'
  proof -
    have "distinct (map fst (event_table r'))"
      using reactor_invD(1) [OF inv] by (simp add: t distinct_delete distinct_update)
    then have "map_of (event_table r') fd' = Some eh'" using that by simp
    then have "fd' \<noteq> ?fd" and "map_of (event_table r) fd' = Some eh'"
      by (auto simp: t delete_conv update_conv split: if_splits)
    then show ?thesis using reactor_invD(3) [OF inv _ old] by blast
  qed
  ultimately show ?thesis
    using ne i1 by (auto simp: reactor_view_def delete_conv Reactor_deref_def find_None_iff)
qed

theorem reactor_duplicate_dangles_witness:
  "\<exists>r' tr'. Reactor_register_handler kernel_env (\<lambda>_. 7) 6 ACCEPT_EVENT
       \<lparr>epoll = 3, event_table = [(7, \<lparr>eh_node = 0, eh_type = ACCEPT_EVENT, eh_handler = 5\<rparr>)], next_node = 1\<rparr>
       [Poll (Ev_epoll_add 7 0 (0, 0))] = (17, r', tr') \<and>
     interest tr' 7 = Some 0 \<and> Reactor_deref r' 0 = None"
proof -
  let ?eh = "\<lparr>eh_node = 0, eh_type = ACCEPT_EVENT, eh_handler = 5\<rparr>"
  let ?r = "\<lparr>epoll = 3, event_table = [(7, ?eh)], next_node = 1\<rparr>"
  let ?tr = "[Poll (Ev_epoll_add 7 0 (0, 0))]"
  let ?gh = "\<lambda>_ :: EventType. (7 :: fd)"
  obtain ret r' tr' where run: "Reactor_register_handler kernel_env ?gh 6 ACCEPT_EVENT ?r ?tr = (ret, r', tr')"
    by (metis prod_cases3)
  obtain tr1 where nb: "Reactor_fd_set_nonblock kernel_env (?gh ACCEPT_EVENT) ?tr = (0, tr1)"
    by (simp add: Reactor_fd_set_nonblock_def Let_def kernel_env_def demo_env_def kernel_poll_def demo_poll_def env_simps)
  have inv: "reactor_inv ?r ?tr" and old: "map_of (event_table ?r) (?gh ACCEPT_EVENT) = Some ?eh"
    and fd: "?gh ACCEPT_EVENT \<noteq> -1"
    by (simp_all add: reactor_inv_def interest_def)
  note out = reactor_duplicate_dangles [OF kernel.kernel inv old fd nb run]
  have "ret = 17"
    using run by (auto simp: reactor_defs Let_def kernel_env_def demo_env_def kernel_poll_def demo_poll_def env_simps interest_def)
  with out run show ?thesis by auto
qed

end
