(* ===== verification/Rpma_Objects.thy ===== *)
theory Rpma_Objects
  imports Memory_Manager
begin

text \<open>
  The small classes around librpma: the deleters and \<open>RpmaConn\<close> of \<open>EventOp.h\<close> and
  \<open>EventOp.cc\<close>, and the operation objects of \<open>RpmaOp.h\<close> with the callbacks they carry.
\<close>

subsection \<open>Logging of the library\<close>

text \<open>Both programs start with this; the return codes are ignored.\<close>

definition set_log_thresholds :: "trace \<Rightarrow> trace" where
  "set_log_thresholds tr =
     log_event (Setup (Ev_log_set_threshold RPMA_LOG_THRESHOLD_AUX RPMA_LOG_LEVEL_INFO))
       (log_event (Setup (Ev_log_set_threshold RPMA_LOG_THRESHOLD RPMA_LOG_LEVEL_INFO)) tr)"

subsection \<open>Deleters\<close>

text \<open>
  A \<open>unique_ptr\<close> with a deleter runs it for the pointer it holds, when it is destroyed and
  when it is reset; the null pointer is not deleted.
\<close>

definition RpmaPeerDeleter :: "ptr \<Rightarrow> trace \<Rightarrow> trace" where
  "RpmaPeerDeleter p tr = log_event (Setup (Ev_peer_delete p)) tr"

definition RpmaEpDeleter :: "ptr \<Rightarrow> trace \<Rightarrow> trace" where
  "RpmaEpDeleter p tr = log_event (Setup (Ev_ep_shutdown p)) tr"

definition RpmaMRDeleter :: "ptr \<Rightarrow> trace \<Rightarrow> trace" where
  "RpmaMRDeleter p tr = log_event (Mr (Ev_mr_dereg p)) tr"

definition unique_delete :: "(ptr \<Rightarrow> trace \<Rightarrow> trace) \<Rightarrow> ptr option \<Rightarrow> trace \<Rightarrow> trace" where
  "unique_delete del p tr = (case p of None \<Rightarrow> tr | Some q \<Rightarrow> del q tr)"

lemma unique_delete_simps [simp]:
  "unique_delete del None tr = tr"
  "unique_delete del (Some p) tr = del p tr"
  by (simp_all add: unique_delete_def)

subsection \<open>Connections\<close>

record RpmaConn =
  rc_conn :: "ptr option"
  rc_disconnected :: bool

definition RpmaConn_default :: RpmaConn where
  "RpmaConn_default = \<lparr>rc_conn = None, rc_disconnected = True\<rparr>"

definition RpmaConn_new :: "ptr option \<Rightarrow> RpmaConn" where
  "RpmaConn_new c = \<lparr>rc_conn = c, rc_disconnected = False\<rparr>"

definition RpmaConn_reset :: "ptr option \<Rightarrow> RpmaConn \<Rightarrow> RpmaConn" where
  "RpmaConn_reset c x = x\<lparr>rc_conn := c, rc_disconnected := False\<rparr>"

definition RpmaConn_get :: "RpmaConn \<Rightarrow> ptr option" where
  "RpmaConn_get x = rc_conn x"

definition RpmaConn_disconnect :: "env \<Rightarrow> RpmaConn \<Rightarrow> trace \<Rightarrow> int \<times> RpmaConn \<times> trace" where
  "RpmaConn_disconnect e x tr =
     (let (ret, tr1) = rpma_conn_disconnect e (rc_conn x) tr
      in (ret, x\<lparr>rc_disconnected := True\<rparr>, tr1))"

definition RpmaConn_destroy :: "env \<Rightarrow> RpmaConn \<Rightarrow> trace \<Rightarrow> RpmaConn \<times> trace" where
  "RpmaConn_destroy e x tr =
     (case rc_conn x of
        None \<Rightarrow> (x, tr)
      | Some c \<Rightarrow>
          let tr1 = (if \<not> rc_disconnected x then snd (rpma_conn_disconnect e (Some c) tr) else tr)
          in (x\<lparr>rc_conn := None\<rparr>, log_event (Conn (Ev_conn_delete c)) tr1))"

declare RpmaConn_default_def [obj_defs] RpmaConn_new_def [obj_defs] RpmaConn_reset_def [obj_defs]
  RpmaConn_get_def [obj_defs] RpmaConn_disconnect_def [obj_defs] RpmaConn_destroy_def [obj_defs]
  RpmaPeerDeleter_def [obj_defs] RpmaEpDeleter_def [obj_defs] RpmaMRDeleter_def [obj_defs]

subsection \<open>Peers\<close>

text \<open>The device is looked up by address, then a peer is created on it.\<close>

definition common_peer_via_address ::
    "env \<Rightarrow> string \<Rightarrow> rpma_util_ibv_context_type \<Rightarrow> trace \<Rightarrow> (int \<times> ptr option) \<times> trace" where
  "common_peer_via_address e addr ty tr =
     (let ((ret, dev), tr1) = rpma_utils_get_ibv_context e addr ty tr
      in if ret \<noteq> 0 then ((ret, None), tr1) else rpma_peer_new e dev tr1)"

subsection \<open>Operations and their callbacks\<close>

text \<open>
  The closures of the program as data: no function, the server's \<open>deal_require\<close>, the two
  closures of the client's \<open>init_replica\<close> and \<open>close_replica\<close> (with the stack frame whose
  locals they capture by reference), and a closure of the application.
\<close>

datatype callback =
    No_callback
  | Deal_require
  | Init_replica_done nat
  | Close_replica_done nat
  | User_callback nat

datatype op_class =
    RpmaRecv | RpmaReqRecv | RpmaSend | RpmaWrite | RpmaFlush | RpmaRead | RpmaWriteAtomic

record RpmaOp =
  op_class :: op_class
  func :: callback

text \<open>\<open>do_callback\<close> runs the function if there is one.\<close>

definition RpmaOp_do_callback ::
    "(callback \<Rightarrow> 'h \<Rightarrow> trace \<Rightarrow> unit result \<times> 'h \<times> trace) \<Rightarrow> RpmaOp
     \<Rightarrow> 'h \<Rightarrow> trace \<Rightarrow> unit result \<times> 'h \<times> trace" where
  "RpmaOp_do_callback run x h tr =
     (if func x \<noteq> No_callback then run (func x) h tr else (Inr (), h, tr))"

definition RpmaRecv_call ::
    "env \<Rightarrow> ptr option \<Rightarrow> ptr option \<Rightarrow> u64 \<Rightarrow> u64 \<Rightarrow> ptr option \<Rightarrow> trace \<Rightarrow> int \<times> trace" where
  "RpmaRecv_call e conn dst offset len op_ctx = rpma_recv e conn dst offset len op_ctx"

definition RpmaReqRecv_call ::
    "env \<Rightarrow> ptr option \<Rightarrow> ptr option \<Rightarrow> u64 \<Rightarrow> u64 \<Rightarrow> ptr option \<Rightarrow> trace \<Rightarrow> int \<times> trace" where
  "RpmaReqRecv_call e req dst offset len op_ctx = rpma_conn_req_recv e req dst offset len op_ctx"

definition RpmaSend_call ::
    "env \<Rightarrow> ptr option \<Rightarrow> ptr option \<Rightarrow> u64 \<Rightarrow> u64 \<Rightarrow> int \<Rightarrow> ptr option \<Rightarrow> trace \<Rightarrow> int \<times> trace" where
  "RpmaSend_call e conn src offset len flags op_ctx = rpma_send e conn src offset len flags op_ctx"

definition RpmaWrite_call ::
    "env \<Rightarrow> ptr option \<Rightarrow> ptr option \<Rightarrow> u64 \<Rightarrow> ptr option \<Rightarrow> u64 \<Rightarrow> u64 \<Rightarrow> int \<Rightarrow> ptr option
     \<Rightarrow> trace \<Rightarrow> int \<times> trace" where
  "RpmaWrite_call e conn dst dst_offset src src_offset len flags op_ctx =
     rpma_write e conn dst dst_offset src src_offset len flags op_ctx"

definition RpmaFlush_call ::
    "env \<Rightarrow> ptr option \<Rightarrow> ptr option \<Rightarrow> u64 \<Rightarrow> u64 \<Rightarrow> rpma_flush_type \<Rightarrow> int \<Rightarrow> ptr option
     \<Rightarrow> trace \<Rightarrow> int \<times> trace" where
  "RpmaFlush_call e conn dst dst_offset len ty flags op_ctx =
     rpma_flush e conn dst dst_offset len ty flags op_ctx"

definition RpmaRead_call ::
    "env \<Rightarrow> ptr option \<Rightarrow> ptr option \<Rightarrow> u64 \<Rightarrow> ptr option \<Rightarrow> u64 \<Rightarrow> u64 \<Rightarrow> int \<Rightarrow> ptr option
     \<Rightarrow> trace \<Rightarrow> int \<times> trace" where
  "RpmaRead_call e conn dst dst_offset src src_offset len flags op_ctx =
     rpma_read e conn dst dst_offset src src_offset len flags op_ctx"

definition RpmaWriteAtomic_call ::
    "env \<Rightarrow> ptr option \<Rightarrow> ptr option \<Rightarrow> u64 \<Rightarrow> ptr option \<Rightarrow> u64 \<Rightarrow> int \<Rightarrow> ptr option
     \<Rightarrow> trace \<Rightarrow> int \<times> trace" where
  "RpmaWriteAtomic_call e conn dst dst_offset src src_offset flags op_ctx =
     rpma_write_atomic e conn dst dst_offset src src_offset flags op_ctx"

lemmas op_call_defs [env_simps] =
  RpmaRecv_call_def RpmaReqRecv_call_def RpmaSend_call_def RpmaWrite_call_def RpmaFlush_call_def
  RpmaRead_call_def RpmaWriteAtomic_call_def

subsection \<open>Objects of librpma that a trace leaves alive\<close>

text \<open>The memory regions registered and not deregistered, and the connections not deleted.\<close>

fun mr_apply :: "ptr set \<Rightarrow> event \<Rightarrow> ptr set" where
  "mr_apply M (Mr (Ev_mr_reg p a n u (ret, Some m))) = insert m M"
| "mr_apply M (Mr (Ev_mr_dereg m)) = M - {m}"
| "mr_apply M ev = M"

definition live_mrs :: "trace \<Rightarrow> ptr set" where
  "live_mrs tr = foldl mr_apply {} tr"

fun conn_apply :: "ptr set \<Rightarrow> event \<Rightarrow> ptr set" where
  "conn_apply C (Setup (Ev_conn_req_connect q (ret, q', Some c))) = insert c C"
| "conn_apply C (Conn (Ev_conn_delete c)) = C - {c}"
| "conn_apply C ev = C"

definition live_conns :: "trace \<Rightarrow> ptr set" where
  "live_conns tr = foldl conn_apply {} tr"

lemma live_mrs_append [simp]: "live_mrs (tr @ evs) = foldl mr_apply (live_mrs tr) evs"
  by (simp add: live_mrs_def)

lemma live_conns_append [simp]: "live_conns (tr @ evs) = foldl conn_apply (live_conns tr) evs"
  by (simp add: live_conns_def)

text \<open>How often a connection was asked to disconnect.\<close>

definition disconnects :: "ptr \<Rightarrow> trace \<Rightarrow> nat" where
  "disconnects c tr = length (filter (\<lambda>ev. \<exists>r. ev = Conn (Ev_conn_disconnect (Some c) r)) tr)"

lemma disconnects_append [simp]: "disconnects c (xs @ ys) = disconnects c xs + disconnects c ys"
  by (simp add: disconnects_def)

lemma disconnects_Nil [simp]: "disconnects c [] = 0"
  by (simp add: disconnects_def)

lemma disconnects_Cons [simp]:
  "disconnects c (ev # evs) = (if \<exists>r. ev = Conn (Ev_conn_disconnect (Some c) r) then 1 else 0) + disconnects c evs"
  by (simp add: disconnects_def)

text \<open>
  The destructor of a connection deletes the connection it holds and calls
  \<open>rpma_conn_disconnect\<close> first exactly when nobody called it before; after an explicit
  \<open>disconnect\<close> the connection is thus disconnected once in all, and nothing is called
  for an empty connection object.
\<close>

theorem RpmaConn_disconnected_once:
  assumes "rc_conn x = Some c" and "\<not> rc_disconnected x"
  shows "disconnects c (snd (RpmaConn_destroy e x tr)) = Suc (disconnects c tr) \<and>
         disconnects c (snd (RpmaConn_destroy e (fst (snd (RpmaConn_disconnect e x tr)))
           (snd (snd (RpmaConn_disconnect e x tr))))) = Suc (disconnects c tr) \<and>
         c \<notin> live_conns (snd (RpmaConn_destroy e x tr)) \<and>
         RpmaConn_destroy e (fst (RpmaConn_destroy e x tr)) tr' = (fst (RpmaConn_destroy e x tr), tr')"
  using assms by (simp add: obj_defs env_simps)

theorem RpmaConn_disconnected_once_witness:
  "disconnects 4 (snd (RpmaConn_destroy demo_env (RpmaConn_new (Some 4)) [])) = 1"
  using RpmaConn_disconnected_once [of "RpmaConn_new (Some 4)" 4 demo_env "[]" "[]"]
  by (simp add: RpmaConn_new_def)

end
