(* ===== verification/Ceph_Codec.thy ===== *)
theory Ceph_Codec
  imports Prelude
begin

text \<open>
  The encoding library of Ceph (\<open>include/encoding.h\<close> and \<open>bufferlist\<close>, not part of the
  repository) as a parameter: the primitive encoders and decoders and the versioned sections
  that \<open>ENCODE_START .. ENCODE_FINISH\<close> and \<open>DECODE_START .. DECODE_FINISH\<close> delimit.
  A decoder takes the bytes from the iterator's position to the end of the buffer and returns the
  value with the bytes after it; \<open>None\<close> is an exception of the library.

  \<open>decode_start v bs\<close> reads a section header; its result is the number of bytes that lie
  behind the section's end, and the bytes after the header. \<open>decode_finish n bs\<close> moves to
  the section's end: it skips the fields the reader does not know and throws when the reader
  went past the end.
\<close>

record ceph_codec =
  encode_u32 :: "u32 \<Rightarrow> bytes"
  decode_u32 :: "bytes \<Rightarrow> (u32 \<times> bytes) option"
  encode_u64 :: "u64 \<Rightarrow> bytes"
  decode_u64 :: "bytes \<Rightarrow> (u64 \<times> bytes) option"
  encode_int :: "c_int \<Rightarrow> bytes"
  decode_int :: "bytes \<Rightarrow> (c_int \<times> bytes) option"
  encode_string :: "string \<Rightarrow> bytes"
  decode_string :: "bytes \<Rightarrow> (string \<times> bytes) option"
  encode_section :: "nat \<Rightarrow> nat \<Rightarrow> bytes \<Rightarrow> bytes"
  decode_start :: "nat \<Rightarrow> bytes \<Rightarrow> (nat \<times> bytes) option"
  decode_finish :: "nat \<Rightarrow> bytes \<Rightarrow> bytes option"

text \<open>
  What the program relies on: every primitive decoder inverts its encoder whatever follows in
  the buffer, a section header records where the section ends, and the encodings have the
  documented fixed sizes (4 and 8 bytes, a 4 byte length before a string, a 6 byte section
  header with version, compat version and length).
\<close>

locale ceph_encoding =
  fixes cdc :: ceph_codec
  assumes u32_roundtrip [simp]: "decode_u32 cdc (encode_u32 cdc x @ rest) = Some (x, rest)"
    and u64_roundtrip [simp]: "decode_u64 cdc (encode_u64 cdc y @ rest) = Some (y, rest)"
    and int_roundtrip [simp]: "decode_int cdc (encode_int cdc t @ rest) = Some (t, rest)"
    and string_roundtrip [simp]:
      "length s < 2 ^ 32 \<Longrightarrow> decode_string cdc (encode_string cdc s @ rest) = Some (s, rest)"
    and start_roundtrip [simp]:
      "\<lbrakk>v < 256; cv \<le> v; cv \<le> v'; length body < 2 ^ 32\<rbrakk> \<Longrightarrow>
       decode_start cdc v' (encode_section cdc v cv body @ rest) = Some (length rest, body @ rest)"
    and finish_skips [simp]:
      "decode_finish cdc n bs = (if n \<le> length bs then Some (drop (length bs - n) bs) else None)"
    and u32_length [simp]: "length (encode_u32 cdc x) = 4"
    and u64_length [simp]: "length (encode_u64 cdc y) = 8"
    and int_length [simp]: "length (encode_int cdc t) = 4"
    and string_length [simp]: "length (encode_string cdc s) = 4 + length s"
    and section_length [simp]: "length (encode_section cdc v cv body) = 6 + length body"
begin

text \<open>
  The client's law: reading any prefix of a section's fields and then closing the section leaves
  exactly what follows the section.
\<close>

lemma finish_after_prefix:
  "decode_finish cdc (length rest) (unread @ rest) = Some rest"
  by simp

end

subsection \<open>The wire format\<close>

text \<open>
  Ceph's own layout of these primitives: little-endian integers, length-prefixed strings,
  section header of two version bytes and a 32-bit length. It shows that the laws above hold
  together, and it is the codec on which the development evaluates messages.
\<close>

definition le_decode :: "nat \<Rightarrow> bytes \<Rightarrow> (nat \<times> bytes) option" where
  "le_decode k bs = (if k \<le> length bs then Some (nat_of_le (take k bs), drop k bs) else None)"

lemma le_decode_bytes [simp]:
  "n < 256 ^ k \<Longrightarrow> le_decode k (le_bytes k n @ rest) = Some (n, rest)"
  by (simp add: le_decode_def)

lemma le_decode_one [simp]: "n < 256 \<Longrightarrow> le_decode (Suc 0) (char_of n # rest) = Some (n, rest)"
  using le_decode_bytes [of n "Suc 0" rest] by simp

definition le_decode_string :: "bytes \<Rightarrow> (string \<times> bytes) option" where
  "le_decode_string bs = do {
     (n, it) \<leftarrow> le_decode 4 bs;
     if n \<le> length it then Some (take n it, drop n it) else None }"

definition le_decode_start :: "nat \<Rightarrow> bytes \<Rightarrow> (nat \<times> bytes) option" where
  "le_decode_start v bs = do {
     (struct_v, it1) \<leftarrow> le_decode 1 bs;
     (struct_compat, it2) \<leftarrow> le_decode 1 it1;
     (struct_len, it3) \<leftarrow> le_decode 4 it2;
     if v < struct_compat \<or> length it3 < struct_len then None
     else Some (length it3 - struct_len, it3) }"

definition ceph_le :: ceph_codec where
  "ceph_le = \<lparr>
     encode_u32 = (\<lambda>x. le_bytes 4 (unat x)),
     decode_u32 = (\<lambda>bs. map_option (\<lambda>(n, it). (of_nat n, it)) (le_decode 4 bs)),
     encode_u64 = (\<lambda>x. le_bytes 8 (unat x)),
     decode_u64 = (\<lambda>bs. map_option (\<lambda>(n, it). (of_nat n, it)) (le_decode 8 bs)),
     encode_int = (\<lambda>x. le_bytes 4 (unat x)),
     decode_int = (\<lambda>bs. map_option (\<lambda>(n, it). (of_nat n, it)) (le_decode 4 bs)),
     encode_string = (\<lambda>s. le_bytes 4 (length s) @ s),
     decode_string = le_decode_string,
     encode_section =
       (\<lambda>v cv body. le_bytes 1 v @ le_bytes 1 cv @ le_bytes 4 (length body) @ body),
     decode_start = le_decode_start,
     decode_finish = (\<lambda>n bs. if n \<le> length bs then Some (drop (length bs - n) bs) else None) \<rparr>"

interpretation ceph_le: ceph_encoding ceph_le
proof (unfold_locales, goal_cases)
  case (1 x rest)
  show ?case using unat_u32_bound [of x] by (simp add: ceph_le_def)
next
  case (2 y rest)
  show ?case using unat_u64_bound [of y] by (simp add: ceph_le_def)
next
  case (3 t rest)
  show ?case using unat_u32_bound [of t] by (simp add: ceph_le_def)
next
  case (4 s rest)
  then show ?case by (simp add: ceph_le_def le_decode_string_def)
next
  case (5 v cv v' body rest)
  then show ?case by (simp add: ceph_le_def le_decode_start_def)
qed (simp_all add: ceph_le_def)

end
