(* ===== verification/Wire_Types.thy ===== *)
theory Wire_Types
  imports Ceph_Codec
begin

text \<open>
  \<open>Types.h\<close> and \<open>Types.cc\<close>: the messages that client and server exchange, with their
  \<open>encode\<close> and \<open>decode\<close> members. A class is a record of its fields; an inherited field
  is inherited by record extension. The codec of the wire is the parameter of theory Ceph_Codec.
\<close>

subsection \<open>Constants\<close>

definition MSG_SIZE :: nat where "MSG_SIZE = 4096"

definition RWL_REPLICA_INIT_REQUEST :: c_int where "RWL_REPLICA_INIT_REQUEST = 0x1"
definition RWL_REPLICA_INIT_SUCCESSED :: c_int where "RWL_REPLICA_INIT_SUCCESSED = 0x11"
definition RWL_REPLICA_INIT_FAILED :: c_int where "RWL_REPLICA_INIT_FAILED = 0x12"
definition RWL_REPLICA_FINISHED_REQUEST :: c_int where "RWL_REPLICA_FINISHED_REQUEST = 0x2"
definition RWL_REPLICA_FINISHED_SUCCCESSED :: c_int where
  "RWL_REPLICA_FINISHED_SUCCCESSED = 0x21"
definition RWL_REPLICA_FINISHED_FAILED :: c_int where "RWL_REPLICA_FINISHED_FAILED = 0x22"

lemmas rwl_types =
  RWL_REPLICA_INIT_REQUEST_def RWL_REPLICA_INIT_SUCCESSED_def RWL_REPLICA_INIT_FAILED_def
  RWL_REPLICA_FINISHED_REQUEST_def RWL_REPLICA_FINISHED_SUCCCESSED_def
  RWL_REPLICA_FINISHED_FAILED_def

definition KILOBYTE :: u64 where "KILOBYTE = 1024"
definition MEGABYTE :: u64 where "MEGABYTE = 1024 * KILOBYTE"
definition GIGABYTE :: u64 where "GIGABYTE = 1024 * MEGABYTE"
definition SIZE_10GB :: u64 where "SIZE_10GB = 10 * GIGABYTE"
definition REQUIRE_SIZE :: u64 where "REQUIRE_SIZE = SIZE_10GB"

subsection \<open>Messages\<close>

record RwlCacheInfo =
  cache_id :: u32
  cache_size :: u64
  pool_name :: string
  image_name :: string

record RpmaConfigDescriptor =
  mr_desc_size :: u32
  pcfg_desc_size :: u32
  descriptors :: bytes

record RwlReplicaRequest =
  type_of :: c_int

record RwlReplicaInitRequest = RwlReplicaRequest +
  info :: RwlCacheInfo

record RwlReplicaInitRequestReply = RwlReplicaRequest +
  desc :: RpmaConfigDescriptor

type_synonym RwlReplicaFinishedRequest = RwlReplicaRequest
type_synonym RwlReplicaFinishedRequestReply = RwlReplicaRequest

definition RwlCacheInfo_encode :: "ceph_codec \<Rightarrow> RwlCacheInfo \<Rightarrow> bytes" where
  "RwlCacheInfo_encode c i = encode_section c 1 1
     (encode_u32 c (cache_id i) @ encode_u64 c (cache_size i)
      @ encode_string c (pool_name i) @ encode_string c (image_name i))"

definition RwlCacheInfo_decode :: "ceph_codec \<Rightarrow> bytes \<Rightarrow> (RwlCacheInfo \<times> bytes) option" where
  "RwlCacheInfo_decode c bs = do {
     (struct_end, it0) \<leftarrow> decode_start c 1 bs;
     (cid, it1) \<leftarrow> decode_u32 c it0;
     (csize, it2) \<leftarrow> decode_u64 c it1;
     (pool, it3) \<leftarrow> decode_string c it2;
     (image, it4) \<leftarrow> decode_string c it3;
     it5 \<leftarrow> decode_finish c struct_end it4;
     Some (\<lparr>cache_id = cid, cache_size = csize, pool_name = pool, image_name = image\<rparr>, it5) }"

definition RpmaConfigDescriptor_encode :: "ceph_codec \<Rightarrow> RpmaConfigDescriptor \<Rightarrow> bytes" where
  "RpmaConfigDescriptor_encode c d = encode_section c 1 1
     (encode_u32 c (mr_desc_size d) @ encode_u32 c (pcfg_desc_size d)
      @ encode_string c (descriptors d))"

definition RpmaConfigDescriptor_decode ::
    "ceph_codec \<Rightarrow> bytes \<Rightarrow> (RpmaConfigDescriptor \<times> bytes) option" where
  "RpmaConfigDescriptor_decode c bs = do {
     (struct_end, it0) \<leftarrow> decode_start c 1 bs;
     (mr_size, it1) \<leftarrow> decode_u32 c it0;
     (pcfg_size, it2) \<leftarrow> decode_u32 c it1;
     (ds, it3) \<leftarrow> decode_string c it2;
     it4 \<leftarrow> decode_finish c struct_end it3;
     Some (\<lparr>mr_desc_size = mr_size, pcfg_desc_size = pcfg_size, descriptors = ds\<rparr>, it4) }"

definition RwlReplicaRequest_encode :: "ceph_codec \<Rightarrow> RwlReplicaRequest \<Rightarrow> bytes" where
  "RwlReplicaRequest_encode c r = encode_section c 1 1 (encode_int c (type_of r))"

definition RwlReplicaRequest_decode ::
    "ceph_codec \<Rightarrow> bytes \<Rightarrow> (RwlReplicaRequest \<times> bytes) option" where
  "RwlReplicaRequest_decode c bs = do {
     (struct_end, it0) \<leftarrow> decode_start c 1 bs;
     (t, it1) \<leftarrow> decode_int c it0;
     it2 \<leftarrow> decode_finish c struct_end it1;
     Some (\<lparr>type_of = t\<rparr>, it2) }"

definition RwlReplicaInitRequest_encode :: "ceph_codec \<Rightarrow> RwlReplicaInitRequest \<Rightarrow> bytes" where
  "RwlReplicaInitRequest_encode c r = encode_section c 1 1
     (encode_int c (type_of r) @ RwlCacheInfo_encode c (info r))"

definition RwlReplicaInitRequest_decode ::
    "ceph_codec \<Rightarrow> bytes \<Rightarrow> (RwlReplicaInitRequest \<times> bytes) option" where
  "RwlReplicaInitRequest_decode c bs = do {
     (struct_end, it0) \<leftarrow> decode_start c 1 bs;
     (t, it1) \<leftarrow> decode_int c it0;
     (i, it2) \<leftarrow> RwlCacheInfo_decode c it1;
     it3 \<leftarrow> decode_finish c struct_end it2;
     Some (\<lparr>type_of = t, info = i\<rparr>, it3) }"

definition RwlReplicaInitRequestReply_encode ::
    "ceph_codec \<Rightarrow> RwlReplicaInitRequestReply \<Rightarrow> bytes" where
  "RwlReplicaInitRequestReply_encode c r = encode_section c 1 1
     (encode_int c (type_of r) @ RpmaConfigDescriptor_encode c (desc r))"

definition RwlReplicaInitRequestReply_decode ::
    "ceph_codec \<Rightarrow> bytes \<Rightarrow> (RwlReplicaInitRequestReply \<times> bytes) option" where
  "RwlReplicaInitRequestReply_decode c bs = do {
     (struct_end, it0) \<leftarrow> decode_start c 1 bs;
     (t, it1) \<leftarrow> decode_int c it0;
     (d, it2) \<leftarrow> RpmaConfigDescriptor_decode c it1;
     it3 \<leftarrow> decode_finish c struct_end it2;
     Some (\<lparr>type_of = t, desc = d\<rparr>, it3) }"

lemmas encode_defs =
  RwlCacheInfo_encode_def RpmaConfigDescriptor_encode_def RwlReplicaRequest_encode_def
  RwlReplicaInitRequest_encode_def RwlReplicaInitRequestReply_encode_def

lemmas decode_defs =
  RwlCacheInfo_decode_def RpmaConfigDescriptor_decode_def RwlReplicaRequest_decode_def
  RwlReplicaInitRequest_decode_def RwlReplicaInitRequestReply_decode_def

subsection \<open>The contract of a message type\<close>

text \<open>
  What the handlers rely on for each message: decoding inverts encoding whatever bytes
  follow. The messages travel in buffers of fixed size, so the bytes after a message are the
  remains of earlier messages.
\<close>

locale wire_message =
  fixes enc :: "'m \<Rightarrow> bytes"
    and dec :: "bytes \<Rightarrow> ('m \<times> bytes) option"
  assumes roundtrip: "length (enc m) < 2 ^ 32 \<Longrightarrow> dec (enc m @ rest) = Some (m, rest)"
begin

text \<open>A message copied to the front of a buffer is read back from it.\<close>

lemma decode_memcpy:
  assumes "length (enc m) < 2 ^ 32"
  shows "dec (memcpy buf (enc m) (length (enc m))) = Some (m, drop (length (enc m)) buf)"
  using assms by (simp add: memcpy_all roundtrip)

text \<open>Two messages with a common continuation are equal: the encoding is prefix-free.\<close>

lemma encode_inj:
  assumes "length (enc m) < 2 ^ 32" and "length (enc m') < 2 ^ 32"
    and "enc m @ rest = enc m' @ rest'"
  shows "m = m' \<and> rest = rest'"
proof -
  have "Some (m, rest) = dec (enc m' @ rest')"
    using roundtrip [OF assms(1), of rest] by (simp only: assms(3))
  also have "\<dots> = Some (m', rest')"
    by (rule roundtrip [OF assms(2)])
  finally show ?thesis by simp
qed

end

context ceph_encoding
begin

lemma cache_info_roundtrip:
  "length (RwlCacheInfo_encode cdc i) < 2 ^ 32 \<Longrightarrow>
   RwlCacheInfo_decode cdc (RwlCacheInfo_encode cdc i @ rest) = Some (i, rest)"
  by (simp add: RwlCacheInfo_encode_def RwlCacheInfo_decode_def)

lemma config_descriptor_roundtrip:
  "length (RpmaConfigDescriptor_encode cdc d) < 2 ^ 32 \<Longrightarrow>
   RpmaConfigDescriptor_decode cdc (RpmaConfigDescriptor_encode cdc d @ rest) = Some (d, rest)"
  by (simp add: RpmaConfigDescriptor_encode_def RpmaConfigDescriptor_decode_def)

lemma request_roundtrip:
  "RwlReplicaRequest_decode cdc (RwlReplicaRequest_encode cdc r @ rest) = Some (r, rest)"
  by (simp add: RwlReplicaRequest_encode_def RwlReplicaRequest_decode_def)

lemma init_request_roundtrip:
  "length (RwlReplicaInitRequest_encode cdc r) < 2 ^ 32 \<Longrightarrow>
   RwlReplicaInitRequest_decode cdc (RwlReplicaInitRequest_encode cdc r @ rest) = Some (r, rest)"
  by (simp add: RwlReplicaInitRequest_encode_def RwlReplicaInitRequest_decode_def
      cache_info_roundtrip)

lemma init_reply_roundtrip:
  "length (RwlReplicaInitRequestReply_encode cdc r) < 2 ^ 32 \<Longrightarrow>
   RwlReplicaInitRequestReply_decode cdc (RwlReplicaInitRequestReply_encode cdc r @ rest)
   = Some (r, rest)"
  by (simp add: RwlReplicaInitRequestReply_encode_def RwlReplicaInitRequestReply_decode_def
      config_descriptor_roundtrip)

text \<open>
  \<open>RPMAHandler::get_descriptor\<close> first reads a request as a plain \<open>RwlReplicaRequest\<close>
  to find its type; closing the section skips the fields of the derived class.
\<close>

lemma peek_init_request:
  "length (RwlReplicaInitRequest_encode cdc r) < 2 ^ 32 \<Longrightarrow>
   RwlReplicaRequest_decode cdc (RwlReplicaInitRequest_encode cdc r @ rest)
   = Some (\<lparr>type_of = type_of r\<rparr>, rest)"
  by (simp add: RwlReplicaInitRequest_encode_def RwlReplicaRequest_decode_def)

lemma peek_init_reply:
  "length (RwlReplicaInitRequestReply_encode cdc r) < 2 ^ 32 \<Longrightarrow>
   RwlReplicaRequest_decode cdc (RwlReplicaInitRequestReply_encode cdc r @ rest)
   = Some (\<lparr>type_of = type_of r\<rparr>, rest)"
  by (simp add: RwlReplicaInitRequestReply_encode_def RwlReplicaRequest_decode_def)

lemma cache_info_length:
  "length (RwlCacheInfo_encode cdc i) = 26 + length (pool_name i) + length (image_name i)"
  by (simp add: RwlCacheInfo_encode_def)

lemma request_length: "length (RwlReplicaRequest_encode cdc r) = 10"
  by (simp add: RwlReplicaRequest_encode_def)

lemma init_request_length:
  "length (RwlReplicaInitRequest_encode cdc r)
   = 36 + length (pool_name (info r)) + length (image_name (info r))"
  by (simp add: RwlReplicaInitRequest_encode_def cache_info_length)

lemma init_reply_length:
  "length (RwlReplicaInitRequestReply_encode cdc r) = 28 + length (descriptors (desc r))"
  by (simp add: RwlReplicaInitRequestReply_encode_def RpmaConfigDescriptor_encode_def)

end

sublocale ceph_encoding \<subseteq> cache_info: wire_message "RwlCacheInfo_encode cdc" "RwlCacheInfo_decode cdc"
  by unfold_locales (rule cache_info_roundtrip)

sublocale ceph_encoding \<subseteq> config_descriptor:
  wire_message "RpmaConfigDescriptor_encode cdc" "RpmaConfigDescriptor_decode cdc"
  by unfold_locales (rule config_descriptor_roundtrip)

sublocale ceph_encoding \<subseteq> request: wire_message "RwlReplicaRequest_encode cdc" "RwlReplicaRequest_decode cdc"
  by unfold_locales (rule request_roundtrip)

sublocale ceph_encoding \<subseteq> init_request:
  wire_message "RwlReplicaInitRequest_encode cdc" "RwlReplicaInitRequest_decode cdc"
  by unfold_locales (rule init_request_roundtrip)

sublocale ceph_encoding \<subseteq> init_reply:
  wire_message "RwlReplicaInitRequestReply_encode cdc" "RwlReplicaInitRequestReply_decode cdc"
  by unfold_locales (rule init_reply_roundtrip)

end
