(* ===== verification/Connection_Handler.thy ===== *)
theory Connection_Handler
  imports Reactor_Model Rpma_Objects Wire_Types
begin

text \<open>
  The base class \<open>ConnectionHandler\<close> of \<open>EventOp.h\<close> and \<open>EventOp.cc\<close>: one connection
  with its send and receive buffers, the operations posted on it and their callbacks. The derived
  classes extend the record; virtual functions and closures are arguments.

  Operation objects live on a heap of their own, \<open>op_heap\<close>, and are named by allocation
  number; \<open>callback_table\<close> holds the numbers of the objects whose ownership was given up to
  the library (\<open>unique_ptr::release\<close>). Deleting or calling an object that is not on the heap
  is a use after free.
\<close>

record ConnectionHandler =
  callback_table :: "ptr set"
  op_heap :: "ptr \<rightharpoonup> RpmaOp"
  op_next :: ptr
  ch_peer :: "ptr option"
  ch_conn :: RpmaConn
  send_bl :: bytes
  send_addr :: addr
  send_mr :: "ptr option"
  recv_bl :: bytes
  recv_addr :: addr
  recv_mr :: "ptr option"
  conn_fd :: fd
  comp_fd :: fd
  connected :: bool

subsection \<open>Construction\<close>

text \<open>The descriptors are uninitialised until \<open>init_conn_fd\<close>; their values are arguments.\<close>

definition ConnectionHandler_new :: "fd \<Rightarrow> fd \<Rightarrow> ConnectionHandler" where
  "ConnectionHandler_new junk1 junk2 =
     \<lparr>callback_table = {}, op_heap = Map.empty, op_next = 0, ch_peer = None,
      ch_conn = RpmaConn_default, send_bl = [], send_addr = 0, send_mr = None,
      recv_bl = [], recv_addr = 0, recv_mr = None,
      conn_fd = junk1, comp_fd = junk2, connected = False\<rparr>"

definition msg_len :: u64 where "msg_len = of_nat MSG_SIZE"

definition ConnectionHandler_init_send_recv_buffer ::
    "env \<Rightarrow> 'z ConnectionHandler_scheme \<Rightarrow> trace \<Rightarrow> unit result \<times> 'z ConnectionHandler_scheme \<times> trace" where
  "ConnectionHandler_init_send_recv_buffer e h tr =
     (let ((a, content), tr1) = bufferptr_create e MSG_SIZE tr;
          h1 = h\<lparr>recv_bl := recv_bl h @ content, recv_addr := a\<rparr>;
          ((ret, mr), tr2) = rpma_mr_reg e (ch_peer h1) (Some a) msg_len RPMA_MR_USAGE_RECV tr1
      in if ret \<noteq> 0 then (Inl (Runtime_error ''recv memory region registers failed.''), h1, tr2)
         else
           let tr3 = unique_delete RpmaMRDeleter (recv_mr h1) tr2;
               h2 = h1\<lparr>recv_mr := mr\<rparr>;
               ((b, content2), tr4) = bufferptr_create e MSG_SIZE tr3;
               h3 = h2\<lparr>send_bl := send_bl h2 @ content2, send_addr := b\<rparr>;
               ((ret2, mr2), tr5) = rpma_mr_reg e (ch_peer h3) (Some b) msg_len RPMA_MR_USAGE_SEND tr4
           in if ret2 \<noteq> 0 then (Inl (Runtime_error ''send memory region registers failed.''), h3, tr5)
              else (Inr (), h3\<lparr>send_mr := mr2\<rparr>, unique_delete RpmaMRDeleter (send_mr h3) tr5))"

definition ConnectionHandler_init_conn_fd ::
    "env \<Rightarrow> 'z ConnectionHandler_scheme \<Rightarrow> trace \<Rightarrow> unit result \<times> 'z ConnectionHandler_scheme \<times> trace" where
  "ConnectionHandler_init_conn_fd e h tr =
     (let ((ret, f), tr1) = rpma_conn_get_event_fd e (RpmaConn_get (ch_conn h)) tr;
          h1 = (case f of Some x \<Rightarrow> h\<lparr>conn_fd := x\<rparr> | None \<Rightarrow> h)
      in if ret \<noteq> 0 then (Inl (Runtime_error ''get the connection's event fd failed''), h1, tr1)
         else
           let ((ret2, g), tr2) = rpma_conn_get_completion_fd e (RpmaConn_get (ch_conn h1)) tr1;
               h2 = (case g of Some x \<Rightarrow> h1\<lparr>comp_fd := x\<rparr> | None \<Rightarrow> h1)
           in if ret2 \<noteq> 0
              then (Inl (Runtime_error ''get the connection's completion fd failed''), h2, tr2)
              else (Inr (), h2, tr2))"

text \<open>
  The destructor: the body deletes the operations left in the table, then the members go in
  the reverse order of their declaration (\<open>recv_mr\<close>, \<open>send_mr\<close>, \<open>_conn\<close>). The
  shared peer is released by the owner of the last reference, outside this class.
\<close>

definition ConnectionHandler_destroy ::
    "env \<Rightarrow> 'z ConnectionHandler_scheme \<Rightarrow> trace \<Rightarrow> unit result \<times> 'z ConnectionHandler_scheme \<times> trace" where
  "ConnectionHandler_destroy e h tr =
     (if \<exists>p \<in> callback_table h. op_heap h p = None then (Inl Use_after_free, h, tr)
      else
        let h1 = h\<lparr>op_heap := (\<lambda>p. if p \<in> callback_table h then None else op_heap h p)\<rparr>;
            tr1 = unique_delete RpmaMRDeleter (recv_mr h1) tr;
            tr2 = unique_delete RpmaMRDeleter (send_mr h1) tr1;
            (c, tr3) = RpmaConn_destroy e (ch_conn h1) tr2
        in (Inr (), h1\<lparr>recv_mr := None, send_mr := None, ch_conn := c, callback_table := {}\<rparr>, tr3))"

definition ConnectionHandler_get_handle :: "'z ConnectionHandler_scheme \<Rightarrow> EventType \<Rightarrow> fd" where
  "ConnectionHandler_get_handle h et =
     (if et = CONNECTION_EVENT then conn_fd h
      else if et = COMPLETION_EVENT then comp_fd h
      else -1)"

subsection \<open>Posting operations\<close>

definition new_op :: "op_class \<Rightarrow> callback \<Rightarrow> 'z ConnectionHandler_scheme \<Rightarrow> ptr \<times> 'z ConnectionHandler_scheme" where
  "new_op k cb h =
     (op_next h, h\<lparr>op_heap := (op_heap h)(op_next h \<mapsto> \<lparr>op_class = k, func = cb\<rparr>), op_next := Suc (op_next h)\<rparr>)"

definition delete_op :: "ptr \<Rightarrow> 'z ConnectionHandler_scheme \<Rightarrow> 'z ConnectionHandler_scheme" where
  "delete_op p h = h\<lparr>op_heap := (op_heap h)(p := None)\<rparr>"

text \<open>
  The end that all posting functions share: on success the object goes into the table and is
  released from its \<open>unique_ptr\<close>, otherwise the \<open>unique_ptr\<close> deletes it.
\<close>

definition settle_op :: "ptr \<Rightarrow> int \<Rightarrow> 'z ConnectionHandler_scheme \<Rightarrow> 'z ConnectionHandler_scheme" where
  "settle_op p ret h =
     (if ret = 0 then h\<lparr>callback_table := insert p (callback_table h)\<rparr> else delete_op p h)"

definition ConnectionHandler_send ::
    "env \<Rightarrow> callback \<Rightarrow> 'z ConnectionHandler_scheme \<Rightarrow> trace \<Rightarrow> int \<times> 'z ConnectionHandler_scheme \<times> trace" where
  "ConnectionHandler_send e cb h tr =
     (let (p, h1) = new_op RpmaSend cb h;
          (ret, tr1) = RpmaSend_call e (RpmaConn_get (ch_conn h1)) (send_mr h1) 0 msg_len
                         RPMA_F_COMPLETION_ALWAYS (Some p) tr
      in (ret, settle_op p ret h1, tr1))"

definition ConnectionHandler_recv ::
    "env \<Rightarrow> callback \<Rightarrow> 'z ConnectionHandler_scheme \<Rightarrow> trace \<Rightarrow> int \<times> 'z ConnectionHandler_scheme \<times> trace" where
  "ConnectionHandler_recv e cb h tr =
     (let (p, h1) = new_op RpmaRecv cb h;
          (ret, tr1) = RpmaRecv_call e (RpmaConn_get (ch_conn h1)) (recv_mr h1) 0 msg_len (Some p) tr
      in (ret, settle_op p ret h1, tr1))"

text \<open>What all four messages go through: assert that the message fits, copy it to the send buffer.\<close>

definition put_message :: "bytes \<Rightarrow> 'z ConnectionHandler_scheme \<Rightarrow> unit result \<times> 'z ConnectionHandler_scheme" where
  "put_message bl h =
     (if length bl < MSG_SIZE
      then (Inr (), h\<lparr>send_bl := memcpy (send_bl h) bl (length bl)\<rparr>)
      else (Inl Assertion_failed, h))"

subsection \<open>Events\<close>

text \<open>
  \<open>handle_connection_event\<close>. The virtual \<open>remove_self\<close> acts on the reactor, which may be
  gone (\<open>weak_ptr\<close>).
\<close>

type_synonym 'h remover = "'h \<Rightarrow> Reactor option \<Rightarrow> trace \<Rightarrow> int \<times> Reactor option \<times> trace"

definition ConnectionHandler_handle_connection_event ::
    "env \<Rightarrow> 'z ConnectionHandler_scheme remover \<Rightarrow> 'z ConnectionHandler_scheme \<Rightarrow> Reactor option \<Rightarrow> trace
     \<Rightarrow> int \<times> 'z ConnectionHandler_scheme \<times> Reactor option \<times> trace" where
  "ConnectionHandler_handle_connection_event e remove_self h ro tr =
     (let ((ret, ev), tr1) = rpma_conn_next_event e (RpmaConn_get (ch_conn h)) tr
      in if ret \<noteq> 0
         then (if ret = RPMA_E_NO_EVENT then (0, h, ro, tr1)
               else let (_, c, tr2) = RpmaConn_disconnect e (ch_conn h) tr1
                    in (ret, h\<lparr>ch_conn := c\<rparr>, ro, tr2))
         else if ev = RPMA_CONN_ESTABLISHED then (0, h\<lparr>connected := True\<rparr>, ro, tr1)
         else
           let h1 = h\<lparr>connected := False\<rparr>;
               (ret2, ro1, tr2) = remove_self h1 ro tr1
           in (ret2, h1, ro1, tr2))"

text \<open>
  \<open>handle_completion\<close>: the completed operation leaves the table, its callback runs, and the
  local \<open>unique_ptr\<close> deletes it, also when the callback throws. An operation that completed
  with an error status stays in the table and its callback is not called.
\<close>

definition ConnectionHandler_handle_completion ::
    "env \<Rightarrow> (callback \<Rightarrow> 'z ConnectionHandler_scheme \<Rightarrow> trace \<Rightarrow> unit result \<times> 'z ConnectionHandler_scheme \<times> trace)
     \<Rightarrow> 'z ConnectionHandler_scheme \<Rightarrow> trace \<Rightarrow> int result \<times> 'z ConnectionHandler_scheme \<times> trace" where
  "ConnectionHandler_handle_completion e run h tr =
     (let (ret, tr1) = rpma_conn_completion_wait e (RpmaConn_get (ch_conn h)) tr
      in if ret \<noteq> 0
         then (if ret = RPMA_E_NO_COMPLETION then (Inr 0, h, tr1)
               else let (_, c, tr2) = RpmaConn_disconnect e (ch_conn h) tr1
                    in (Inr ret, h\<lparr>ch_conn := c\<rparr>, tr2))
         else
           let ((ret, cmpl), tr2) = rpma_conn_completion_get e (RpmaConn_get (ch_conn h)) tr1
           in if ret \<noteq> 0
              then (if ret = RPMA_E_NO_COMPLETION then (Inr 0, h, tr2)
                    else let (_, c, tr3) = RpmaConn_disconnect e (ch_conn h) tr2
                         in (Inr ret, h\<lparr>ch_conn := c\<rparr>, tr3))
              else if op_status cmpl \<noteq> IBV_WC_SUCCESS then (Inr ret, h, tr2)
              else
                (case op_context cmpl of
                   None \<Rightarrow> (Inr ret, h, tr2)
                 | Some p \<Rightarrow>
                     let h1 = h\<lparr>callback_table := callback_table h - {p}\<rparr>
                     in (case op_heap h1 p of
                           None \<Rightarrow> (Inl Use_after_free, h1, tr2)
                         | Some x \<Rightarrow>
                             let (r, h2, tr3) = RpmaOp_do_callback run x h1 tr2
                             in (map_sum id (\<lambda>_. ret) r, delete_op p h2, tr3))))"

definition ConnectionHandler_handle ::
    "env \<Rightarrow> 'z ConnectionHandler_scheme remover
     \<Rightarrow> (callback \<Rightarrow> 'z ConnectionHandler_scheme \<Rightarrow> trace \<Rightarrow> unit result \<times> 'z ConnectionHandler_scheme \<times> trace)
     \<Rightarrow> EventType \<Rightarrow> 'z ConnectionHandler_scheme \<Rightarrow> Reactor option \<Rightarrow> trace
     \<Rightarrow> int result \<times> 'z ConnectionHandler_scheme \<times> Reactor option \<times> trace" where
  "ConnectionHandler_handle e remove_self run et h ro tr =
     (if et = CONNECTION_EVENT
      then let (ret, h1, ro1, tr1) = ConnectionHandler_handle_connection_event e remove_self h ro tr
           in (Inr ret, h1, ro1, tr1)
      else if et = COMPLETION_EVENT
      then let (ret, h1, tr1) = ConnectionHandler_handle_completion e run h tr
           in (ret, h1, ro, tr1)
      else (Inr (-1), h, ro, tr))"

text \<open>
  \<open>register_self\<close> and \<open>remove_self\<close> of \<open>RPMAHandler\<close> and of \<open>ClientHandler\<close>
  have the same text; both derived classes name these two.
\<close>

definition register_pair ::
    "env \<Rightarrow> hid \<Rightarrow> 'z ConnectionHandler_scheme \<Rightarrow> Reactor option \<Rightarrow> trace \<Rightarrow> int \<times> Reactor option \<times> trace" where
  "register_pair e i h ro tr =
     (case ro of
        None \<Rightarrow> (0, None, tr)
      | Some r \<Rightarrow>
          let gh = ConnectionHandler_get_handle h;
              (ret, r1, tr1) = Reactor_register_handler e gh i CONNECTION_EVENT r tr
          in if ret \<noteq> 0 then (ret, Some r1, tr1)
             else
               let (ret2, r2, tr2) = Reactor_register_handler e gh i COMPLETION_EVENT r1 tr1
               in if ret2 \<noteq> 0
                  then let (_, r3, tr3) = Reactor_remove_handler e gh i CONNECTION_EVENT r2 tr2
                       in (ret2, Some r3, tr3)
                  else (ret2, Some r2, tr2))"

definition remove_pair ::
    "env \<Rightarrow> hid \<Rightarrow> 'z ConnectionHandler_scheme \<Rightarrow> Reactor option \<Rightarrow> trace \<Rightarrow> int \<times> Reactor option \<times> trace" where
  "remove_pair e i h ro tr =
     (case ro of
        None \<Rightarrow> (0, None, tr)
      | Some r \<Rightarrow>
          let gh = ConnectionHandler_get_handle h;
              (ret, r1, tr1) = Reactor_remove_handler e gh i CONNECTION_EVENT r tr;
              (ret2, r2, tr2) = Reactor_remove_handler e gh i COMPLETION_EVENT r1 tr1
          in (ret OR ret2, Some r2, tr2))"

subsection \<open>Ownership of the operations\<close>

text \<open>
  Every operation object is owned exactly once: by the callback table, or (the set \<open>B\<close>) by
  a \<open>unique_ptr\<close> of a function that is running.
\<close>

definition ops_inv :: "ptr set \<Rightarrow> 'z ConnectionHandler_scheme \<Rightarrow> bool" where
  "ops_inv B h \<longleftrightarrow>
     (\<forall>p. op_heap h p \<noteq> None \<longleftrightarrow> p \<in> callback_table h \<or> p \<in> B) \<and>
     (\<forall>p \<in> callback_table h. p \<notin> B) \<and>
     (\<forall>p. op_heap h p \<noteq> None \<longrightarrow> p < op_next h)"

lemma ops_inv_frame [simp]:
  "ops_inv B (h\<lparr>ch_conn := c\<rparr>) = ops_inv B h"
  "ops_inv B (h\<lparr>connected := b\<rparr>) = ops_inv B h"
  "ops_inv B (h\<lparr>send_bl := bl\<rparr>) = ops_inv B h"
  "ops_inv B (h\<lparr>recv_bl := bl\<rparr>) = ops_inv B h"
  by (simp_all add: ops_inv_def)

lemma ops_inv_post:
  assumes "ops_inv B h" and "new_op k cb h = (p, h1)"
  shows "ops_inv B (settle_op p ret h1)"
proof -
  have "op_heap h (op_next h) = None"
    using assms(1) by (metis ops_inv_def less_irrefl)
  then have "op_next h \<notin> callback_table h" "op_next h \<notin> B"
    using assms(1) by (auto simp: ops_inv_def)
  then show ?thesis
    using assms by (auto simp: ops_inv_def new_op_def settle_op_def delete_op_def less_SucI)
qed

lemma ops_inv_send:
  "ops_inv B h \<Longrightarrow> ConnectionHandler_send e cb h tr = (ret, h', tr') \<Longrightarrow> ops_inv B h'"
  by (auto simp: ConnectionHandler_send_def Let_def split: prod.splits intro: ops_inv_post)

lemma ops_inv_recv:
  "ops_inv B h \<Longrightarrow> ConnectionHandler_recv e cb h tr = (ret, h', tr') \<Longrightarrow> ops_inv B h'"
  by (auto simp: ConnectionHandler_recv_def Let_def split: prod.splits intro: ops_inv_post)

lemma put_message_ops: "put_message bl h = (r, h') \<Longrightarrow> ops_inv B h' = ops_inv B h"
  by (auto simp: put_message_def split: if_splits)

lemma put_message_failure: "put_message bl h = (Inl f, h') \<Longrightarrow> f = Assertion_failed"
  by (auto simp: put_message_def split: if_splits)

lemma ops_inv_take: "ops_inv {} h \<Longrightarrow> p \<in> callback_table h \<Longrightarrow>
   ops_inv {p} (h\<lparr>callback_table := callback_table h - {p}\<rparr>) \<and> (\<exists>x. op_heap h p = Some x)"
  by (auto simp: ops_inv_def)

lemma ops_inv_drop: "ops_inv {p} h \<Longrightarrow> ops_inv {} (delete_op p h)"
  by (auto simp: ops_inv_def delete_op_def)

text \<open>The destructor deletes what the table owns, each object once, and leaves nothing.\<close>

lemma destroy_frees_ops:
  assumes "ops_inv {} h" and "ConnectionHandler_destroy e h tr = (r, h', tr')"
  shows "r = Inr () \<and> op_heap h' = Map.empty \<and> callback_table h' = {}"
proof -
  have "\<not> (\<exists>p \<in> callback_table h. op_heap h p = None)"
    using assms(1) by (auto simp: ops_inv_def)
  with assms show ?thesis
    by (auto simp: ConnectionHandler_destroy_def ops_inv_def fun_eq_iff split: prod.splits)
qed

text \<open>
  What the environment promises of a completion: a successful one names no operation or one
  that was posted and has not been taken out of the table.
\<close>

definition completion_ok :: "env \<Rightarrow> 'z ConnectionHandler_scheme \<Rightarrow> trace \<Rightarrow> bool" where
  "completion_ok e h tr \<longleftrightarrow>
     (let c = rc_conn (ch_conn h);
          (ret, cmpl) = e_conn_completion_get (conn_of e) (tr @ [Conn (Ev_conn_completion_wait c 0)]) c
      in ret = 0 \<longrightarrow> op_status cmpl = IBV_WC_SUCCESS \<longrightarrow>
           (case op_context cmpl of None \<Rightarrow> True | Some p \<Rightarrow> p \<in> callback_table h))"

text \<open>
  The contract of the closures that run inside \<open>handle_completion\<close>: they keep the
  ownership of the operations, whoever else holds one.
\<close>

locale callback_runner =
  fixes run :: "callback \<Rightarrow> 'z ConnectionHandler_scheme \<Rightarrow> trace \<Rightarrow> unit result \<times> 'z ConnectionHandler_scheme \<times> trace"
  assumes run_ops: "ops_inv B h \<Longrightarrow> run cb h tr = (r, h', tr') \<Longrightarrow> ops_inv B h'"
begin

lemma do_callback_ops:
  assumes "ops_inv B h" and "RpmaOp_do_callback run x h tr = (r, h', tr')"
  shows "ops_inv B h'"
  using assms run_ops by (auto simp: RpmaOp_do_callback_def split: if_splits)

text \<open>
  Handling a completion keeps the ownership, and the only failures are those of the closure:
  the operation object is alive when it is called.
\<close>

lemma completion_ops:
  assumes inv: "ops_inv {} h" and ok: "completion_ok e h tr"
    and run: "ConnectionHandler_handle_completion e run h tr = (r, h', tr')"
  shows "ops_inv {} h' \<and>
         (\<forall>f. r = Inl f \<longrightarrow> (\<exists>cb h1 tr1 h2 tr2. run cb h1 tr1 = (Inl f, h2, tr2)))"
proof -
  let ?c = "rc_conn (ch_conn h)"
  obtain ret cmpl where g: "e_conn_completion_get (conn_of e) (tr @ [Conn (Ev_conn_completion_wait ?c 0)]) ?c = (ret, cmpl)"
    by (metis prod.exhaust)
  show ?thesis
  proof (cases "e_conn_completion_wait (conn_of e) tr ?c = 0 \<and> ret = 0 \<and>
      op_status cmpl = IBV_WC_SUCCESS \<and> op_context cmpl \<noteq> None")
    case False
    then have "\<exists>v. r = Inr v" and "ops_inv {} h'"
      using run g inv
      by (auto simp: ConnectionHandler_handle_completion_def Let_def env_simps obj_defs
          split: if_splits option.splits)
    then show ?thesis by auto
  next
    case True
    then obtain p where p: "op_context cmpl = Some p" "p \<in> callback_table h"
      using ok g by (auto simp: completion_ok_def Let_def)
    let ?h1 = "h\<lparr>callback_table := callback_table h - {p}\<rparr>"
    obtain x where x: "op_heap h p = Some x" and i1: "ops_inv {p} ?h1"
      using ops_inv_take [OF inv p(2)] by blast
    let ?tr2 = "tr @ [Conn (Ev_conn_completion_wait ?c 0), Conn (Ev_conn_completion_get ?c (0, cmpl))]"
    obtain r2 h2 tr3 where d: "RpmaOp_do_callback run x ?h1 ?tr2 = (r2, h2, tr3)"
      by (metis prod_cases3)
    have res: "r = map_sum id (\<lambda>_. 0) r2" "h' = delete_op p h2"
      using run True g p(1) x d
      by (auto simp: ConnectionHandler_handle_completion_def Let_def env_simps obj_defs)
    have "ops_inv {} h'"
      using ops_inv_drop [OF do_callback_ops [OF i1 d]] res(2) by simp
    moreover have "\<exists>cb h1 tr1 h2 tr2. run cb h1 tr1 = (Inl f, h2, tr2)" if "r = Inl f" for f
    proof -
      have "r2 = Inl f" using that res(1) by (cases r2) auto
      with d show ?thesis by (auto simp: RpmaOp_do_callback_def split: if_splits) blast
    qed
    ultimately show ?thesis by blast
  qed
qed

end

subsection \<open>Registration of a handler's two descriptors\<close>

context registry
begin

text \<open>The second registration failed: taking the first back restores the view.\<close>

lemma pair_rollback:
  assumes "inv r tr" and "view r (gh et1) = None" and "view r (gh et2) = None" and "gh et1 \<noteq> gh et2"
    and "reg gh i et1 r tr = (0, r1, tr1)" and "reg gh i et2 r1 tr1 = (ret, r2, tr2)" and "ret \<noteq> 0"
    and "unreg gh i et1 r2 tr2 = (ret', r3, tr3)"
  shows "inv r3 tr3 \<and> view r3 = view r"
proof -
  note a = reg_outcome [OF assms(1,2,5)]
  have "view r1 (gh et2) = None" using a assms(3,4) by simp
  note b = reg_outcome [OF conjunct1 [OF a] this assms(6)]
  note c = unreg_outcome [OF conjunct1 [OF b] assms(8)]
  from a b c assms(2,7) show ?thesis by (auto simp: fun_upd_idem)
qed

lemma pair_commit:
  assumes "inv r tr" and "view r (gh et1) = None" and "view r (gh et2) = None" and "gh et1 \<noteq> gh et2"
    and "reg gh i et1 r tr = (0, r1, tr1)" and "reg gh i et2 r1 tr1 = (0, r2, tr2)"
  shows "inv r2 tr2 \<and> view r2 = (view r)(gh et1 \<mapsto> (et1, i), gh et2 \<mapsto> (et2, i)) \<and>
         gh et1 \<noteq> -1 \<and> gh et2 \<noteq> -1"
proof -
  note a = reg_outcome [OF assms(1,2,5)]
  have "view r1 (gh et2) = None" using a assms(3,4) by simp
  note b = reg_outcome [OF conjunct1 [OF a] this assms(6)]
  from a b show ?thesis by simp
qed

end

lemma get_handle_simps [simp]:
  "ConnectionHandler_get_handle h CONNECTION_EVENT = conn_fd h"
  "ConnectionHandler_get_handle h COMPLETION_EVENT = comp_fd h"
  "ConnectionHandler_get_handle h ACCEPT_EVENT = -1"
  by (simp_all add: ConnectionHandler_get_handle_def)

definition pair_view :: "hid \<Rightarrow> 'z ConnectionHandler_scheme \<Rightarrow> (fd \<rightharpoonup> EventType \<times> hid) \<Rightarrow> (fd \<rightharpoonup> EventType \<times> hid)" where
  "pair_view i h V = V(conn_fd h \<mapsto> (CONNECTION_EVENT, i), comp_fd h \<mapsto> (COMPLETION_EVENT, i))"

lemma register_pair_outcome:
  assumes ok: "epoll_ok e" and inv: "reactor_inv r tr"
    and free: "reactor_view r (conn_fd h) = None" "reactor_view r (comp_fd h) = None"
    and differ: "conn_fd h \<noteq> comp_fd h"
    and run: "register_pair e i h (Some r) tr = (ret, ro', tr')"
  shows "\<exists>r'. ro' = Some r' \<and> reactor_inv r' tr' \<and>
           reactor_view r' = (if ret = 0 then pair_view i h (reactor_view r) else reactor_view r)"
proof -
  let ?gh = "ConnectionHandler_get_handle h"
  note reg = reactor_registry [OF ok]
  obtain ret1 r1 tr1 where a: "Reactor_register_handler e ?gh i CONNECTION_EVENT r tr = (ret1, r1, tr1)"
    by (metis prod_cases3)
  obtain ret2 r2 tr2 where b: "Reactor_register_handler e ?gh i COMPLETION_EVENT r1 tr1 = (ret2, r2, tr2)"
    by (metis prod_cases3)
  obtain ret3 r3 tr3 where c: "Reactor_remove_handler e ?gh i CONNECTION_EVENT r2 tr2 = (ret3, r3, tr3)"
    by (metis prod_cases3)
  have free': "reactor_view r (?gh CONNECTION_EVENT) = None" "reactor_view r (?gh COMPLETION_EVENT) = None"
      "?gh CONNECTION_EVENT \<noteq> ?gh COMPLETION_EVENT"
    using free differ by simp_all
  consider "ret1 \<noteq> 0" | "ret1 = 0" "ret2 \<noteq> 0" | "ret1 = 0" "ret2 = 0" by blast
  then show ?thesis
  proof cases
    case 1
    with run a registry.reg_outcome [OF reg inv free'(1) a] show ?thesis
      by (auto simp: register_pair_def)
  next
    case 2
    with run a b c registry.pair_rollback [OF reg inv free' a [unfolded 2] b _ c] show ?thesis
      by (auto simp: register_pair_def)
  next
    case 3
    with run a b registry.pair_commit [OF reg inv free' a [unfolded 3] b [unfolded 3]] show ?thesis
      by (auto simp: register_pair_def pair_view_def)
  qed
qed

lemma remove_pair_outcome:
  assumes ok: "epoll_ok e" and inv: "reactor_inv r tr"
    and fds: "conn_fd h \<noteq> -1" "comp_fd h \<noteq> -1"
    and run: "remove_pair e i h (Some r) tr = (ret, ro', tr')"
  shows "\<exists>r'. ro' = Some r' \<and> reactor_inv r' tr' \<and> ret = 0 \<and>
           reactor_view r' = (reactor_view r)(conn_fd h := None, comp_fd h := None)"
proof -
  let ?gh = "ConnectionHandler_get_handle h"
  note reg = reactor_registry [OF ok]
  obtain ret1 r1 tr1 where a: "Reactor_remove_handler e ?gh i CONNECTION_EVENT r tr = (ret1, r1, tr1)"
    by (metis prod_cases3)
  obtain ret2 r2 tr2 where b: "Reactor_remove_handler e ?gh i COMPLETION_EVENT r1 tr1 = (ret2, r2, tr2)"
    by (metis prod_cases3)
  note o1 = registry.unreg_outcome [OF reg inv a]
  note o2 = registry.unreg_outcome [OF reg conjunct1 [OF o1] b]
  from run a b o1 o2 fds show ?thesis by (auto simp: remove_pair_def)
qed

end
