(* ===== verification/Rpma_Handler.thy ===== *)
theory Rpma_Handler
  imports Connection_Handler
begin

text \<open>
  \<open>RPMAHandler\<close> of \<open>EventOp.h\<close> and \<open>EventOp.cc\<close>: the server's end of one connection.
  It answers an init request with the descriptor of a freshly acquired memory region and a
  finish request by giving the region up.
\<close>

record RPMAHandler = ConnectionHandler +
  data_manager :: MemoryManager
  data_mr :: "ptr option"

subsection \<open>Life of a handler\<close>

text \<open>
  Members are destroyed in reverse order of declaration, so the region is deregistered before
  its memory is released; then the base class follows. The same happens to a handler whose
  constructor throws.
\<close>

definition RPMAHandler_destroy ::
    "env \<Rightarrow> RPMAHandler \<Rightarrow> trace \<Rightarrow> unit result \<times> RPMAHandler \<times> trace" where
  "RPMAHandler_destroy e h tr =
     (let tr1 = unique_delete RpmaMRDeleter (data_mr h) tr;
          (m, tr2) = MemoryManager_destroy (data_manager h) tr1
      in ConnectionHandler_destroy e (h\<lparr>data_mr := None, data_manager := m\<rparr>) tr2)"

definition ctor_throw :: "env \<Rightarrow> failure \<Rightarrow> RPMAHandler \<Rightarrow> trace \<Rightarrow> RPMAHandler result \<times> trace" where
  "ctor_throw e f h tr = (let (_, _, tr1) = RPMAHandler_destroy e h tr in (Inl f, tr1))"

text \<open>Uninitialised members have their values as arguments.\<close>

definition RPMAHandler_default :: "fd \<Rightarrow> fd \<Rightarrow> u64 \<Rightarrow> RPMAHandler" where
  "RPMAHandler_default j1 j2 jsz =
     ConnectionHandler.extend (ConnectionHandler_new j1 j2)
       \<lparr>data_manager = MemoryManager_default jsz, data_mr = None\<rparr>"

definition RPMAHandler_new ::
    "env \<Rightarrow> fd \<Rightarrow> fd \<Rightarrow> u64 \<Rightarrow> ptr option \<Rightarrow> ptr option \<Rightarrow> trace \<Rightarrow> RPMAHandler result \<times> trace" where
  "RPMAHandler_new e j1 j2 jsz peer ep tr =
     (let h0 = (RPMAHandler_default j1 j2 jsz)\<lparr>ch_peer := peer\<rparr>;
          (r1, h1, tr1) = ConnectionHandler_init_send_recv_buffer e h0 tr
      in case r1 of
           Inl f \<Rightarrow> ctor_throw e f h1 tr1
         | Inr _ \<Rightarrow>
             let ((ret, req), tr2) = rpma_ep_next_conn_req e ep tr1
             in if ret \<noteq> 0
                then ctor_throw e (Runtime_error ''receive an incoming connection request failed.'') h1 tr2
                else
                  let (p, h2) = new_op RpmaReqRecv Deal_require h1;
                      (ret2, tr3) = RpmaReqRecv_call e req (recv_mr h2) 0 msg_len (Some p) tr2;
                      h3 = settle_op p ret2 h2
                  in if ret2 \<noteq> 0
                     then ctor_throw e (Runtime_error ''Put an initial receive to be prepared for the first message of the client's ping-pong failed.'')
                            h3 (log_event (Setup (Ev_conn_req_delete req)) tr3)
                     else
                       let ((ret3, req2, conn), tr4) = rpma_conn_req_connect e req tr3
                       in if ret3 \<noteq> 0
                          then ctor_throw e (Runtime_error ''accept the connection request and obtain the connection object failed.'')
                                 h3 (if req2 \<noteq> None then log_event (Setup (Ev_conn_req_delete req2)) tr4 else tr4)
                          else
                            let h4 = h3\<lparr>ch_conn := RpmaConn_reset conn (ch_conn h3)\<rparr>;
                                (r5, h5, tr5) = ConnectionHandler_init_conn_fd e h4 tr4
                            in case r5 of
                                 Inl f \<Rightarrow> ctor_throw e f h5 tr5
                               | Inr _ \<Rightarrow> (Inr h5, tr5))"

definition RPMAHandler_register_self ::
    "env \<Rightarrow> hid \<Rightarrow> RPMAHandler \<Rightarrow> Reactor option \<Rightarrow> trace \<Rightarrow> int \<times> Reactor option \<times> trace" where
  "RPMAHandler_register_self e i h ro tr = register_pair e i h ro tr"

definition RPMAHandler_remove_self ::
    "env \<Rightarrow> hid \<Rightarrow> RPMAHandler \<Rightarrow> Reactor option \<Rightarrow> trace \<Rightarrow> int \<times> Reactor option \<times> trace" where
  "RPMAHandler_remove_self e i h ro tr = remove_pair e i h ro tr"

subsection \<open>Requests\<close>

text \<open>The usage mask: \<open>RPMA_OP_FLUSH\<close> falls through to \<open>RPMA_OP_WRITE\<close>.\<close>

definition mr_usage :: "rpma_op \<Rightarrow> bool \<Rightarrow> int" where
  "mr_usage opk is_pmem =
     (case opk of
        RPMA_OP_FLUSH \<Rightarrow>
          (0 OR (if is_pmem then RPMA_MR_USAGE_FLUSH_TYPE_PERSISTENT
                 else RPMA_MR_USAGE_FLUSH_TYPE_VISIBILITY)) OR RPMA_MR_USAGE_WRITE_DST
      | RPMA_OP_WRITE \<Rightarrow> 0 OR RPMA_MR_USAGE_WRITE_DST
      | RPMA_OP_READ \<Rightarrow> 0 OR RPMA_MR_USAGE_READ_SRC
      | _ \<Rightarrow> 0)"

text \<open>
  A library call writes a descriptor into a string at an offset: past the end of the string is
  undefined behaviour.
\<close>

definition put_descriptor :: "bytes \<Rightarrow> nat \<Rightarrow> bytes option \<Rightarrow> bytes result" where
  "put_descriptor s i d =
     (case d of
        None \<Rightarrow> Inr s
      | Some b \<Rightarrow> if i + length b \<le> length s then Inr (blit s i b) else Inl Out_of_range)"

text \<open>
  The part of \<open>register_mr_to_descriptor\<close> for \<open>RPMA_OP_FLUSH\<close> that appends the peer
  configuration's descriptor: an early return code, or the completed descriptor fields.
\<close>

definition append_pcfg ::
    "env \<Rightarrow> bool \<Rightarrow> u64 \<Rightarrow> bytes \<Rightarrow> trace \<Rightarrow> (int + (u32 \<times> bytes)) result \<times> trace" where
  "append_pcfg e is_pmem mr_size ds tr =
     (let ((_, pcfg), tr1) = rpma_peer_cfg_new e tr;
          (ret, tr2) = (if is_pmem then rpma_peer_cfg_set_direct_write_to_pmem e pcfg True tr1 else (0, tr1))
      in if is_pmem \<and> ret \<noteq> 0
         then (Inr (Inl ret), log_event (Mr (Ev_peer_cfg_delete pcfg)) tr2)
         else
           let ((_, psize), tr3) = rpma_peer_cfg_get_descriptor_size e pcfg tr2;
               ds1 = str_resize ds (unat (mr_size + psize));
               ((_, d), tr4) = rpma_peer_cfg_get_descriptor e pcfg tr3
           in case put_descriptor ds1 (unat mr_size) d of
                Inl f \<Rightarrow> (Inl f, tr4)
              | Inr ds2 \<Rightarrow> (Inr (Inr (ucast psize, ds2)), log_event (Mr (Ev_peer_cfg_delete pcfg)) tr4))"

text \<open>
  The part that builds the reply's descriptor from a registered region; \<open>junk\<close> is the
  uninitialised \<open>pcfg_desc_size\<close>, which \<open>RPMA_OP_FLUSH\<close> overwrites.
\<close>

definition build_descriptor ::
    "env \<Rightarrow> u32 \<Rightarrow> rpma_op \<Rightarrow> bool \<Rightarrow> ptr option \<Rightarrow> trace \<Rightarrow> (int + RpmaConfigDescriptor) result \<times> trace" where
  "build_descriptor e junk opk is_pmem mr tr =
     (let ((_, mr_size), tr1) = rpma_mr_get_descriptor_size e mr tr;
          ds = str_resize [] (unat mr_size);
          ((_, d), tr2) = rpma_mr_get_descriptor e mr tr1
      in case put_descriptor ds 0 d of
           Inl f \<Rightarrow> (Inl f, tr2)
         | Inr ds1 \<Rightarrow>
             if opk = RPMA_OP_FLUSH
             then let (ext, tr3) = append_pcfg e is_pmem mr_size ds1 tr2
                  in (map_sum id (map_sum id (\<lambda>(psize, ds2).
                        \<lparr>mr_desc_size = ucast mr_size, pcfg_desc_size = psize, descriptors = ds2\<rparr>)) ext, tr3)
             else (Inr (Inr \<lparr>mr_desc_size = ucast mr_size, pcfg_desc_size = junk, descriptors = ds1\<rparr>), tr2))"

definition RPMAHandler_register_mr_to_descriptor ::
    "env \<Rightarrow> ceph_codec \<Rightarrow> u32 \<Rightarrow> rpma_op \<Rightarrow> RPMAHandler \<Rightarrow> trace \<Rightarrow> int result \<times> RPMAHandler \<times> trace" where
  "RPMAHandler_register_mr_to_descriptor e c junk opk h tr =
     (let m = data_manager h;
          ((ret, mr), tr1) = rpma_mr_reg e (ch_peer h) (MemoryManager_get_pointer m) (mm_size m)
                               (mr_usage opk (mm_is_pmem m)) tr
      in if ret \<noteq> 0 then (Inr ret, h, tr1)
         else
           let tr2 = unique_delete RpmaMRDeleter (data_mr h) tr1;
               h1 = h\<lparr>data_mr := mr\<rparr>;
               (d, tr3) = build_descriptor e junk opk (mm_is_pmem m) mr tr2
           in case d of
                Inl f \<Rightarrow> (Inl f, h1, tr3)
              | Inr (Inl ret2) \<Rightarrow> (Inr ret2, h1, tr3)
              | Inr (Inr ds) \<Rightarrow>
                  let reply = \<lparr>type_of = RWL_REPLICA_INIT_SUCCESSED, desc = ds\<rparr>;
                      (r, h2) = put_message (RwlReplicaInitRequestReply_encode c reply) h1
                  in (map_sum id (\<lambda>_. 0) r, h2, tr3))"

definition replica_path :: "RwlCacheInfo \<Rightarrow> string" where
  "replica_path i =
     ''rbd-pwl.'' @ pool_name i @ ''.'' @ image_name i @ ''.pool.'' @ dec_digits (unat (cache_id i))"

definition RPMAHandler_get_descriptor_for_write ::
    "env \<Rightarrow> ceph_codec \<Rightarrow> u32 \<Rightarrow> RPMAHandler \<Rightarrow> trace \<Rightarrow> int result \<times> RPMAHandler \<times> trace" where
  "RPMAHandler_get_descriptor_for_write e c junk h tr =
     (case RwlReplicaInitRequest_decode c (recv_bl h) of
        None \<Rightarrow> (Inl Buffer_error, h, tr)
      | Some (init, _) \<Rightarrow>
          let path = replica_path (info init);
              (r, m, tr1) =
                (if MemoryManager_get_pointer (data_manager h) = None
                 then MemoryManager_init e (cache_size (info init)) path (data_manager h) tr
                 else (Inr (), data_manager h, tr));
              h1 = h\<lparr>data_manager := m\<rparr>
          in case r of
               Inl f \<Rightarrow> (Inl f, h1, tr1)
             | Inr _ \<Rightarrow> RPMAHandler_register_mr_to_descriptor e c junk RPMA_OP_FLUSH h1 tr1)"

definition RPMAHandler_close ::
    "env \<Rightarrow> ceph_codec \<Rightarrow> RPMAHandler \<Rightarrow> trace \<Rightarrow> int result \<times> RPMAHandler \<times> trace" where
  "RPMAHandler_close e c h tr =
     (let tr1 = unique_delete RpmaMRDeleter (data_mr h) tr;
          h1 = h\<lparr>data_mr := None\<rparr>;
          (ret, m, tr2) = MemoryManager_close_and_remove e (data_manager h1) tr1;
          h2 = h1\<lparr>data_manager := m\<rparr>;
          reply = \<lparr>type_of = (if ret \<noteq> 0 then RWL_REPLICA_FINISHED_FAILED
                              else RWL_REPLICA_FINISHED_SUCCCESSED)\<rparr>;
          (r, h3) = put_message (RwlReplicaRequest_encode c reply) h2
      in case r of
           Inl f \<Rightarrow> (Inl f, h3, tr2)
         | Inr _ \<Rightarrow> let (_, h4, tr3) = ConnectionHandler_send e No_callback h3 tr2 in (Inr 0, h4, tr3))"

definition RPMAHandler_get_descriptor ::
    "env \<Rightarrow> ceph_codec \<Rightarrow> u32 \<Rightarrow> RPMAHandler \<Rightarrow> trace \<Rightarrow> int result \<times> RPMAHandler \<times> trace" where
  "RPMAHandler_get_descriptor e c junk h tr =
     (case RwlReplicaRequest_decode c (recv_bl h) of
        None \<Rightarrow> (Inl Buffer_error, h, tr)
      | Some (request, _) \<Rightarrow>
          if type_of request = RWL_REPLICA_INIT_REQUEST
          then RPMAHandler_get_descriptor_for_write e c junk h tr
          else if type_of request = RWL_REPLICA_FINISHED_REQUEST then RPMAHandler_close e c h tr
          else (Inr (-1), h, tr))"

text \<open>
  \<open>deal_require\<close>: whatever \<open>get_descriptor\<close> returned, prepare the next receive and send
  the send buffer; only an exception leaves earlier.
\<close>

definition RPMAHandler_deal_require ::
    "env \<Rightarrow> ceph_codec \<Rightarrow> u32 \<Rightarrow> RPMAHandler \<Rightarrow> trace \<Rightarrow> unit result \<times> RPMAHandler \<times> trace" where
  "RPMAHandler_deal_require e c junk h tr =
     (let (r, h1, tr1) = RPMAHandler_get_descriptor e c junk h tr
      in case r of
           Inl f \<Rightarrow> (Inl f, h1, tr1)
         | Inr _ \<Rightarrow>
             let (_, h2, tr2) = ConnectionHandler_recv e Deal_require h1 tr1;
                 (_, tr3) = rpma_send e (RpmaConn_get (ch_conn h2)) (send_mr h2) 0 msg_len
                              RPMA_F_COMPLETION_ALWAYS None tr2
             in (Inr (), h2, tr3))"

text \<open>The closures the server puts into its operations.\<close>

definition RPMAHandler_run ::
    "env \<Rightarrow> ceph_codec \<Rightarrow> u32 \<Rightarrow> callback \<Rightarrow> RPMAHandler \<Rightarrow> trace \<Rightarrow> unit result \<times> RPMAHandler \<times> trace" where
  "RPMAHandler_run e c junk cb h tr =
     (if cb = Deal_require then RPMAHandler_deal_require e c junk h tr else (Inr (), h, tr))"

definition RPMAHandler_handle ::
    "env \<Rightarrow> ceph_codec \<Rightarrow> u32 \<Rightarrow> hid \<Rightarrow> EventType \<Rightarrow> RPMAHandler \<Rightarrow> Reactor option \<Rightarrow> trace
     \<Rightarrow> int result \<times> RPMAHandler \<times> Reactor option \<times> trace" where
  "RPMAHandler_handle e c junk i et h ro tr =
     ConnectionHandler_handle e (RPMAHandler_remove_self e i) (RPMAHandler_run e c junk) et h ro tr"

subsection \<open>Ownership of the operations\<close>

lemma ops_inv_server [simp]:
  "ops_inv B (h\<lparr>data_mr := x\<rparr>) = ops_inv B h"
  "ops_inv B (h\<lparr>data_manager := m\<rparr>) = ops_inv B h"
  by (simp_all add: ops_inv_def)

lemma register_mr_ops:
  assumes "RPMAHandler_register_mr_to_descriptor e c junk opk h tr = (r, h', tr')"
  shows "ops_inv B h' = ops_inv B h"
  using assms
  by (auto simp: RPMAHandler_register_mr_to_descriptor_def Let_def
      split: prod.splits if_splits sum.splits dest: put_message_ops [where B = B])

lemma close_ops:
  assumes "ops_inv B h" and "RPMAHandler_close e c h tr = (r, h', tr')"
  shows "ops_inv B h'"
  using assms
  by (auto simp: RPMAHandler_close_def Let_def split: prod.splits sum.splits
      dest: put_message_ops [where B = B] intro: ops_inv_send)

lemma get_descriptor_ops:
  assumes "ops_inv B h" and "RPMAHandler_get_descriptor e c junk h tr = (r, h', tr')"
  shows "ops_inv B h'"
  using assms
  by (auto simp: RPMAHandler_get_descriptor_def RPMAHandler_get_descriptor_for_write_def Let_def
      split: option.splits prod.splits if_splits sum.splits
      dest: register_mr_ops [where B = B] intro: close_ops)

lemma deal_require_ops:
  assumes "ops_inv B h" and "RPMAHandler_deal_require e c junk h tr = (r, h', tr')"
  shows "ops_inv B h'"
  using assms
  by (auto simp: RPMAHandler_deal_require_def Let_def split: prod.splits sum.splits
      dest: get_descriptor_ops intro: ops_inv_recv)

interpretation server_callbacks: callback_runner "RPMAHandler_run e c junk" for e c junk
  by unfold_locales (auto simp: RPMAHandler_run_def split: if_splits intro: deal_require_ops)

subsection \<open>Failures of the request handling\<close>

text \<open>Nothing in the request handling touches a destroyed object.\<close>

definition request_failures :: "failure set" where
  "request_failures = {Buffer_error, Assertion_failed, Out_of_range, Runtime_error ''memory malloc failed''}"

lemma init_failure:
  "MemoryManager_init e sz path m tr = (Inl f, m', tr') \<Longrightarrow> f = Runtime_error ''memory malloc failed''"
  by (auto simp: mm_defs Let_def split: prod.splits if_splits)

lemma append_pcfg_failure: "append_pcfg e pm sz ds tr = (Inl f, tr') \<Longrightarrow> f = Out_of_range"
  by (auto simp: append_pcfg_def put_descriptor_def Let_def
      split: prod.splits if_splits option.splits sum.splits)

lemma build_descriptor_failure: "build_descriptor e junk opk pm mr tr = (Inl f, tr') \<Longrightarrow> f = Out_of_range"
  by (auto simp: build_descriptor_def put_descriptor_def Let_def map_sum_def
      split: prod.splits if_splits option.splits sum.splits dest: append_pcfg_failure)

lemma register_mr_failure:
  "RPMAHandler_register_mr_to_descriptor e c junk opk h tr = (Inl f, h', tr') \<Longrightarrow> f \<in> request_failures"
  by (auto simp: RPMAHandler_register_mr_to_descriptor_def request_failures_def Let_def map_sum_def
      split: prod.splits if_splits sum.splits
      dest: put_message_failure build_descriptor_failure)

lemma get_descriptor_failure:
  "RPMAHandler_get_descriptor e c junk h tr = (Inl f, h', tr') \<Longrightarrow> f \<in> request_failures"
  by (auto simp: RPMAHandler_get_descriptor_def RPMAHandler_get_descriptor_for_write_def
      RPMAHandler_close_def Let_def request_failures_def
      split: option.splits prod.splits if_splits sum.splits
      dest: put_message_failure init_failure register_mr_failure [unfolded request_failures_def])

lemma deal_require_failure:
  "RPMAHandler_deal_require e c junk h tr = (Inl f, h', tr') \<Longrightarrow> f \<in> request_failures"
  by (auto simp: RPMAHandler_deal_require_def Let_def split: prod.splits sum.splits
      dest: get_descriptor_failure)

subsection \<open>Construction and events keep the ownership\<close>

lemma init_buffer_ops:
  assumes "ConnectionHandler_init_send_recv_buffer e h tr = (r, h', tr')"
  shows "ops_inv B h' = ops_inv B h"
  using assms
  by (auto simp: ConnectionHandler_init_send_recv_buffer_def ops_inv_def Let_def split: prod.splits if_splits)

lemma init_conn_fd_ops:
  assumes "ConnectionHandler_init_conn_fd e h tr = (r, h', tr')"
  shows "ops_inv B h' = ops_inv B h"
  using assms
  by (auto simp: ConnectionHandler_init_conn_fd_def ops_inv_def Let_def split: prod.splits if_splits option.splits)

lemma new_handler_ops:
  assumes "RPMAHandler_new e j1 j2 jsz peer ep tr = (Inr h, tr')"
  shows "ops_inv {} h"
proof -
  have start: "ops_inv {} ((RPMAHandler_default j1 j2 jsz)\<lparr>ch_peer := peer\<rparr>)"
    by (simp add: ops_inv_def RPMAHandler_default_def ConnectionHandler_new_def ConnectionHandler.extend_def)
  show ?thesis
    using assms start
    by (auto simp: RPMAHandler_new_def ctor_throw_def Let_def split: prod.splits sum.splits if_splits
        dest!: init_buffer_ops [where B = "{}"] init_conn_fd_ops [where B = "{}"] intro: ops_inv_post)
qed

lemma server_handle_ops:
  assumes "ops_inv {} h" and "completion_ok e h tr"
    and "RPMAHandler_handle e c junk i et h ro tr = (r, h', ro', tr')"
  shows "ops_inv {} h' \<and> (\<forall>f. r = Inl f \<longrightarrow> f \<in> request_failures)"
proof (cases "et = COMPLETION_EVENT")
  case True
  then have q: "ConnectionHandler_handle_completion e (RPMAHandler_run e c junk) h tr = (r, h', tr')"
    using assms(3) by (auto simp: RPMAHandler_handle_def ConnectionHandler_handle_def split: prod.splits)
  note o = server_callbacks.completion_ops [OF assms(1,2) q]
  have "f \<in> request_failures" if inl: "r = Inl f" for f
  proof -
    obtain cb h1 tr1 h2 tr2 where "RPMAHandler_run e c junk cb h1 tr1 = (Inl f, h2, tr2)"
      using o inl by blast
    then show ?thesis
      by (auto simp: RPMAHandler_run_def split: if_splits dest: deal_require_failure)
  qed
  with o show ?thesis by blast
next
  case False
  then show ?thesis
    using assms(1,3)
    by (auto simp: RPMAHandler_handle_def ConnectionHandler_handle_def Let_def
        ConnectionHandler_handle_connection_event_def split: prod.splits if_splits)
qed

subsection \<open>Descriptors\<close>

text \<open>What a peer configuration last declared about direct writes, from the trace.\<close>

fun direct_apply :: "(ptr \<Rightarrow> bool) \<Rightarrow> event \<Rightarrow> (ptr \<Rightarrow> bool)" where
  "direct_apply D (Mr (Ev_peer_cfg_new (ret, Some p))) = D(p := False)"
| "direct_apply D (Mr (Ev_peer_cfg_set_direct_write (Some p) b ret)) = (if ret = 0 then D(p := b) else D)"
| "direct_apply D ev = D"

definition direct_write :: "trace \<Rightarrow> ptr \<Rightarrow> bool" where
  "direct_write tr = foldl direct_apply (\<lambda>_. False) tr"

lemma direct_write_append [simp]: "direct_write (tr @ evs) = foldl direct_apply (direct_write tr) evs"
  by (simp add: direct_write_def)

text \<open>
  The documented success behaviour of the descriptor calls: a region and a peer configuration
  each have one descriptor, of the size the library reports; a configuration's descriptor
  depends on what was declared about direct writes to persistent memory.
\<close>

definition server_descriptors :: "env \<Rightarrow> (ptr \<Rightarrow> bytes) \<Rightarrow> (bool \<Rightarrow> bytes) \<Rightarrow> bool" where
  "server_descriptors e mdesc pdesc \<longleftrightarrow>
     (\<forall>tr m. e_mr_get_descriptor_size (mr_of e) tr (Some m) = (0, of_nat (length (mdesc m)))) \<and>
     (\<forall>tr m. e_mr_get_descriptor (mr_of e) tr (Some m) = (0, Some (mdesc m))) \<and>
     (\<forall>tr. \<exists>p. e_peer_cfg_new (mr_of e) tr = (0, Some p)) \<and>
     (\<forall>tr p b. e_peer_cfg_set_direct_write (mr_of e) tr (Some p) b = 0) \<and>
     (\<forall>tr p. e_peer_cfg_get_descriptor_size (mr_of e) tr (Some p) = (0, of_nat (length (pdesc (direct_write tr p))))) \<and>
     (\<forall>tr p. e_peer_cfg_get_descriptor (mr_of e) tr (Some p) = (0, Some (pdesc (direct_write tr p)))) \<and>
     (\<forall>m b. length (mdesc m) + length (pdesc b) < 2 ^ 32)"

lemma unat_of_nat_u64: "n < 2 ^ 32 \<Longrightarrow> unat (of_nat n :: u64) = n"
  by (simp add: unsigned_of_nat take_bit_nat_eq_self)

lemma ucast_of_nat_u32: "n < 2 ^ 32 \<Longrightarrow> (ucast (of_nat n :: u64) :: u32) = of_nat n"
  by (simp add: unsigned_of_nat take_bit_nat_eq_self)

lemma append_pcfg_ok:
  assumes d: "server_descriptors e mdesc pdesc" and ds: "length ds = length (mdesc m)"
  shows "\<exists>tr'. append_pcfg e pm (of_nat (length (mdesc m))) ds tr
           = (Inr (Inr (of_nat (length (pdesc pm)), ds @ pdesc pm)), tr')"
proof -
  obtain p where p: "e_peer_cfg_new (mr_of e) tr = (0, Some p)"
    using d unfolding server_descriptors_def by blast
  have small: "length (mdesc m) + length (pdesc pm) < 2 ^ 32"
    using d unfolding server_descriptors_def by blast
  have sum: "unat (of_nat (length (mdesc m)) + of_nat (length (pdesc pm)) :: u64) = length ds + length (pdesc pm)"
    using unat_of_nat_u64 [OF small] ds by simp
  have "unat (of_nat (length (mdesc m)) :: u64) = length ds"
    using small ds by (simp add: unat_of_nat_u64)
  moreover have "blit (str_resize ds (length ds + length (pdesc pm))) (length ds) (pdesc pm) = ds @ pdesc pm"
    by (simp add: blit_def str_resize_def)
  moreover have "(ucast (of_nat (length (pdesc pm)) :: u64) :: u32) = of_nat (length (pdesc pm))"
    using small by (intro ucast_of_nat_u32) linarith
  ultimately show ?thesis
    using d p sum small
    by (cases pm) (simp_all add: append_pcfg_def server_descriptors_def env_simps put_descriptor_def)
qed

lemma build_descriptor_ok:
  assumes d: "server_descriptors e mdesc pdesc"
  shows "\<exists>tr'. build_descriptor e junk RPMA_OP_FLUSH pm (Some m) tr
           = (Inr (Inr \<lparr>mr_desc_size = of_nat (length (mdesc m)), pcfg_desc_size = of_nat (length (pdesc pm)),
                         descriptors = mdesc m @ pdesc pm\<rparr>), tr')"
proof -
  have small: "length (mdesc m) < 2 ^ 32"
    using d unfolding server_descriptors_def by (metis add_lessD1)
  have fit: "put_descriptor (str_resize [] (length (mdesc m))) 0 (Some (mdesc m)) = Inr (mdesc m)"
    by (simp add: put_descriptor_def blit_zero_all)
  let ?tr2 = "tr @ [Mr (Ev_mr_get_descriptor_size (Some m) (0, of_nat (length (mdesc m)))),
                    Mr (Ev_mr_get_descriptor (Some m) (0, Some (mdesc m)))]"
  obtain tr' where "append_pcfg e pm (of_nat (length (mdesc m))) (mdesc m) ?tr2
      = (Inr (Inr (of_nat (length (pdesc pm)), mdesc m @ pdesc pm)), tr')"
    using append_pcfg_ok [OF d refl] by blast
  then show ?thesis
    using d fit small
    by (simp add: build_descriptor_def server_descriptors_def env_simps unat_of_nat_u64 ucast_of_nat_u32)
qed

end
