(* ===== verification/Resources.thy ===== *)
theory Resources
  imports Rpma_Handler
begin

text \<open>
  The resources a connection holds, computed from the trace of calls: heap blocks and mappings,
  registered memory regions and connections. A call is quiet when it creates and releases none;
  the invariant says that a handler holds exactly what was created since its construction began.
\<close>

subsection \<open>Quiet calls\<close>

fun quiet_event :: "event \<Rightarrow> bool" where
  "quiet_event (Mem (Ev_access p b)) = True"
| "quiet_event (Mem (Ev_remove p r)) = True"
| "quiet_event (Mem (Ev_bufferptr n r)) = True"
| "quiet_event (Mem m) = False"
| "quiet_event (Mr (Ev_mr_reg p a n u r)) = False"
| "quiet_event (Mr (Ev_mr_dereg m)) = False"
| "quiet_event (Setup (Ev_conn_req_connect q r)) = False"
| "quiet_event (Conn (Ev_conn_delete c)) = False"
| "quiet_event ev = True"

definition quiet :: "trace \<Rightarrow> trace \<Rightarrow> bool" where
  "quiet tr tr' \<longleftrightarrow> (\<exists>evs. tr' = tr @ evs \<and> (\<forall>ev \<in> set evs. quiet_event ev))"

lemma quiet_refl [simp]: "quiet tr tr"
  by (simp add: quiet_def)

lemma quiet_append [simp]: "quiet tr (tr @ evs) \<longleftrightarrow> (\<forall>ev \<in> set evs. quiet_event ev)"
  by (simp add: quiet_def)

lemma quiet_trans: "quiet tr1 tr2 \<Longrightarrow> quiet tr2 tr3 \<Longrightarrow> quiet tr1 tr3"
  by (auto simp: quiet_def)

lemma quiet_snoc: "quiet tr tr' \<Longrightarrow> quiet_event ev \<Longrightarrow> quiet tr (tr' @ [ev])"
  by (auto simp: quiet_def)

lemma quiet_event_applies:
  "quiet_event ev \<Longrightarrow> mem_apply L ev = L \<and> mr_apply M ev = M \<and> conn_apply C ev = C"
  by (cases ev rule: quiet_event.cases) auto

lemma quiet_foldl:
  "\<forall>ev \<in> set evs. quiet_event ev \<Longrightarrow>
   foldl mem_apply L evs = L \<and> foldl mr_apply M evs = M \<and> foldl conn_apply C evs = C"
  by (induction evs arbitrary: L M C) (auto simp: quiet_event_applies)

lemma quiet_live:
  assumes "quiet tr tr'"
  shows "live_blocks tr' = live_blocks tr" and "live_mrs tr' = live_mrs tr" and "live_conns tr' = live_conns tr"
  using assms quiet_foldl by (auto simp: quiet_def)

lemma quiet_send: "ConnectionHandler_send e cb h tr = (ret, h', tr') \<Longrightarrow> quiet tr tr'"
  by (auto simp: ConnectionHandler_send_def new_op_def env_simps)

lemma quiet_recv: "ConnectionHandler_recv e cb h tr = (ret, h', tr') \<Longrightarrow> quiet tr tr'"
  by (auto simp: ConnectionHandler_recv_def new_op_def env_simps)

lemma quiet_append_pcfg: "append_pcfg e pm sz ds tr = (r, tr') \<Longrightarrow> quiet tr tr'"
  by (auto simp: append_pcfg_def env_simps Let_def split: prod.splits if_splits sum.splits)

lemma quiet_build_descriptor: "build_descriptor e junk opk pm mr tr = (r, tr') \<Longrightarrow> quiet tr tr'"
proof -
  assume run: "build_descriptor e junk opk pm mr tr = (r, tr')"
  obtain s tr1 where a: "e_mr_get_descriptor_size (mr_of e) tr mr = s"
    and "tr1 = tr @ [Mr (Ev_mr_get_descriptor_size mr s)]" by blast
  let ?tr2 = "tr1 @ [Mr (Ev_mr_get_descriptor mr (e_mr_get_descriptor (mr_of e) tr1 mr))]"
  have "quiet tr ?tr2" using \<open>tr1 = _\<close> by simp
  moreover have "quiet ?tr2 tr'"
    using run a \<open>tr1 = _\<close>
    by (auto simp: build_descriptor_def env_simps Let_def split: prod.splits if_splits sum.splits
        dest: quiet_append_pcfg)
  ultimately show ?thesis by (rule quiet_trans)
qed

lemma quiet_remove_handler: "Reactor_remove_handler e gh i et r tr = (ret, r', tr') \<Longrightarrow> quiet tr tr'"
  by (auto simp: Reactor_remove_handler_def env_simps Let_def split: if_splits)

lemma quiet_remove_pair: "remove_pair e i h ro tr = (ret, ro', tr') \<Longrightarrow> quiet tr tr'"
  by (auto simp: remove_pair_def Let_def split: option.splits prod.splits
      dest!: quiet_remove_handler intro: quiet_trans)

lemma quiet_register_handler: "Reactor_register_handler e gh i et r tr = (ret, r', tr') \<Longrightarrow> quiet tr tr'"
  by (auto simp: reactor_defs env_simps Let_def split: if_splits prod.splits)

lemma quiet_register_pair: "register_pair e i h ro tr = (ret, ro', tr') \<Longrightarrow> quiet tr tr'"
  by (auto simp: register_pair_def Let_def split: option.splits prod.splits if_splits
      dest!: quiet_register_handler quiet_remove_handler intro: quiet_trans)

subsection \<open>What a handler holds\<close>

definition opt_list :: "'a option \<Rightarrow> 'a list" where
  "opt_list x = (case x of None \<Rightarrow> [] | Some y \<Rightarrow> [y])"

lemma opt_list_simps [simp]: "opt_list None = []" "opt_list (Some y) = [y]"
  by (simp_all add: opt_list_def)

definition buffer_mrs :: "'z ConnectionHandler_scheme \<Rightarrow> ptr list" where
  "buffer_mrs h = opt_list (recv_mr h) @ opt_list (send_mr h)"

text \<open>Everything alive after a trace: blocks, regions and connections.\<close>

record footprint =
  fp_blocks :: "addr \<rightharpoonup> block"
  fp_mrs :: "ptr set"
  fp_conns :: "ptr set"

definition footprint :: "trace \<Rightarrow> footprint" where
  "footprint tr = \<lparr>fp_blocks = live_blocks tr, fp_mrs = live_mrs tr, fp_conns = live_conns tr\<rparr>"

lemma footprint_simps [simp]:
  "fp_blocks (footprint tr) = live_blocks tr" "fp_mrs (footprint tr) = live_mrs tr" "fp_conns (footprint tr) = live_conns tr"
  by (simp_all add: footprint_def)

text \<open>The regions \<open>ms\<close> and connections \<open>cs\<close> are exactly those alive besides the footprint \<open>F\<close>.\<close>

definition holds_mrs :: "footprint \<Rightarrow> ptr list \<Rightarrow> trace \<Rightarrow> bool" where
  "holds_mrs F ms tr \<longleftrightarrow>
     distinct ms \<and> set ms \<inter> fp_mrs F = {} \<and> live_mrs tr = fp_mrs F \<union> set ms"

definition holds_conn :: "footprint \<Rightarrow> ptr option \<Rightarrow> trace \<Rightarrow> bool" where
  "holds_conn F c tr \<longleftrightarrow>
     (\<forall>x. c = Some x \<longrightarrow> x \<notin> fp_conns F) \<and> live_conns tr = fp_conns F \<union> set_option c"

definition holds_memory :: "footprint \<Rightarrow> MemoryManager \<Rightarrow> trace \<Rightarrow> bool" where
  "holds_memory F m tr \<longleftrightarrow>
     (\<forall>a. mm_data m = Some a \<longrightarrow> fp_blocks F a = None) \<and> live_blocks tr = mm_gain m (fp_blocks F)"

text \<open>The library's promise: a new region or connection is none that is still alive.\<close>

definition objects_fresh :: "env \<Rightarrow> bool" where
  "objects_fresh e \<longleftrightarrow>
     (\<forall>tr p a n u ret r. e_mr_reg (mr_of e) tr p a n u = (ret, r) \<longrightarrow>
        (if ret = 0 then \<exists>m. r = Some m \<and> m \<notin> live_mrs tr else r = None)) \<and>
     (\<forall>tr q ret q' r. e_conn_req_connect (setup_of e) tr q = (ret, q', r) \<longrightarrow>
        (if ret = 0 then \<exists>c. r = Some c \<and> c \<notin> live_conns tr else r = None))"

lemma objects_freshD:
  assumes "objects_fresh e"
  shows "e_mr_reg (mr_of e) tr p a n u = (ret, r) \<Longrightarrow>
           if ret = 0 then \<exists>m. r = Some m \<and> m \<notin> live_mrs tr else r = None"
    and "e_conn_req_connect (setup_of e) tr q = (ret, q', r) \<Longrightarrow>
           if ret = 0 then \<exists>c. r = Some c \<and> c \<notin> live_conns tr else r = None"
  using assms unfolding objects_fresh_def by blast+

lemma holds_start [simp]: "holds_mrs (footprint tr) [] tr" "holds_conn (footprint tr) None tr"
  by (simp_all add: holds_mrs_def holds_conn_def)

lemma holds_quiet:
  assumes "quiet tr tr'"
  shows "holds_mrs F ms tr' = holds_mrs F ms tr" and "holds_conn F c tr' = holds_conn F c tr"
    and "holds_memory F m tr' = holds_memory F m tr"
  using quiet_live [OF assms] by (simp_all add: holds_mrs_def holds_conn_def holds_memory_def)

lemma holds_mrs_dereg:
  "holds_mrs F (opt_list x @ ms) tr \<Longrightarrow> holds_mrs F ms (unique_delete RpmaMRDeleter x tr)"
  by (cases x) (auto simp: holds_mrs_def RpmaMRDeleter_def env_simps)

lemma holds_mrs_reg:
  assumes "objects_fresh e" and "holds_mrs F ms tr" and "e_mr_reg (mr_of e) tr p a n u = (ret, r)"
  shows "holds_mrs F (opt_list r @ ms) (tr @ [Mr (Ev_mr_reg p a n u (ret, r))])"
  using assms(2) objects_freshD(1) [OF assms(1,3)]
  by (cases "ret = 0") (auto simp: holds_mrs_def)

lemma holds_mrs_perm: "set ms = set ms' \<Longrightarrow> distinct ms = distinct ms' \<Longrightarrow> holds_mrs F ms tr = holds_mrs F ms' tr"
  by (simp add: holds_mrs_def)

lemma dereg_frame [simp]:
  "live_blocks (unique_delete RpmaMRDeleter x tr) = live_blocks tr"
  "live_conns (unique_delete RpmaMRDeleter x tr) = live_conns tr"
  by (cases x; simp add: RpmaMRDeleter_def env_simps)+

lemma release_frame:
  "live_mrs (mm_release m a tr) = live_mrs tr" "live_conns (mm_release m a tr) = live_conns tr"
  by (simp_all add: mm_release_def env_simps)

text \<open>Acquiring and releasing the data region.\<close>

lemma acquire_other:
  assumes "MemoryManager_init e sz path m tr = (r, m', tr')"
  shows "live_mrs tr' = live_mrs tr \<and> live_conns tr' = live_conns tr"
  using assms
  by (auto simp: mm_defs env_simps Let_def split: prod.splits if_splits option.splits)

lemma holds_memory_init:
  assumes "alloc_fresh e" and "mm_data m = None" and "holds_memory F m tr"
    and "MemoryManager_init e sz path m tr = (r, m', tr')"
  shows "holds_memory F m' tr'"
proof -
  have "live_blocks tr = fp_blocks F"
    using assms(2,3) by (simp add: holds_memory_def mm_gain_def)
  moreover have "mm_data (m\<lparr>mm_path := ''/mnt/pmem/'' @ path, mm_size := sz\<rparr>) = None"
    using assms(2) by simp
  ultimately show ?thesis
    using acquire_outcome [OF assms(1) _ assms(4) [unfolded MemoryManager_init_def]]
    by (auto simp: holds_memory_def split: sum.splits)
qed

lemma holds_memory_close:
  assumes "holds_memory F m tr" and "MemoryManager_close_and_remove e m tr = (ret, m', tr')"
  shows "holds_memory F m' tr' \<and> mm_data m' = None \<and> live_mrs tr' = live_mrs tr \<and> live_conns tr' = live_conns tr"
  using assms
  by (auto simp: holds_memory_def MemoryManager_close_and_remove_def mm_release_def mm_gain_def env_simps
      fun_upd_idem split: option.splits)

lemma holds_memory_destroy:
  assumes "holds_memory F m tr" and "MemoryManager_destroy m tr = (m', tr')"
  shows "live_blocks tr' = fp_blocks F \<and> live_mrs tr' = live_mrs tr \<and> live_conns tr' = live_conns tr"
  using assms
  by (auto simp: holds_memory_def MemoryManager_destroy_def mm_release_def mm_gain_def env_simps
      fun_upd_idem split: option.splits)

subsection \<open>The invariant of a server connection\<close>

definition session_inv :: "footprint \<Rightarrow> RPMAHandler \<Rightarrow> trace \<Rightarrow> bool" where
  "session_inv F h tr \<longleftrightarrow>
     holds_memory F (data_manager h) tr \<and>
     holds_mrs F (opt_list (data_mr h) @ buffer_mrs h) tr \<and>
     holds_conn F (rc_conn (ch_conn h)) tr"

definition same_resources :: "RPMAHandler \<Rightarrow> RPMAHandler \<Rightarrow> bool" where
  "same_resources h h' \<longleftrightarrow>
     data_manager h' = data_manager h \<and> data_mr h' = data_mr h \<and> recv_mr h' = recv_mr h \<and>
     send_mr h' = send_mr h \<and> rc_conn (ch_conn h') = rc_conn (ch_conn h)"

lemma session_inv_quiet:
  assumes "session_inv F h tr" and "same_resources h h'" and "quiet tr tr'"
  shows "session_inv F h' tr'"
  using assms holds_quiet [OF assms(3)] by (simp add: session_inv_def same_resources_def buffer_mrs_def)

lemma same_send: "ConnectionHandler_send e cb h tr = (ret, h', tr') \<Longrightarrow> same_resources h h'"
  by (auto simp: same_resources_def ConnectionHandler_send_def new_op_def settle_op_def delete_op_def Let_def
      split: prod.splits)

lemma same_recv: "ConnectionHandler_recv e cb h tr = (ret, h', tr') \<Longrightarrow> same_resources h h'"
  by (auto simp: same_resources_def ConnectionHandler_recv_def new_op_def settle_op_def delete_op_def Let_def
      split: prod.splits)

lemma same_put_message: "put_message bl h = (r, h') \<Longrightarrow> same_resources h h'"
  by (auto simp: same_resources_def put_message_def split: if_splits)

lemma session_send:
  "session_inv F h tr \<Longrightarrow> ConnectionHandler_send e cb h tr = (ret, h', tr') \<Longrightarrow> session_inv F h' tr'"
  using session_inv_quiet same_send quiet_send by blast

lemma session_recv:
  "session_inv F h tr \<Longrightarrow> ConnectionHandler_recv e cb h tr = (ret, h', tr') \<Longrightarrow> session_inv F h' tr'"
  using session_inv_quiet same_recv quiet_recv by blast

lemma session_put_message:
  "session_inv F h tr \<Longrightarrow> put_message bl h = (r, h') \<Longrightarrow> session_inv F h' tr"
  using session_inv_quiet same_put_message quiet_refl by blast

lemma session_close:
  assumes inv: "session_inv F h tr" and run: "RPMAHandler_close e c h tr = (r, h', tr')"
  shows "session_inv F h' tr'"
proof -
  let ?tr1 = "unique_delete RpmaMRDeleter (data_mr h) tr"
  obtain ret m tr2 where cl: "MemoryManager_close_and_remove e (data_manager h) ?tr1 = (ret, m, tr2)"
    by (metis prod_cases3)
  let ?h2 = "h\<lparr>data_mr := None, data_manager := m\<rparr>"
  have "holds_memory F (data_manager h) ?tr1"
    using inv by (simp add: session_inv_def holds_memory_def)
  note m = holds_memory_close [OF this cl]
  have "holds_mrs F (buffer_mrs h) ?tr1"
    using inv by (auto simp: session_inv_def intro: holds_mrs_dereg)
  then have "session_inv F ?h2 tr2"
    using m inv by (simp add: session_inv_def buffer_mrs_def holds_mrs_def holds_conn_def)
  then show ?thesis
    using run cl
    by (auto simp: RPMAHandler_close_def Let_def split: prod.splits sum.splits
        intro: session_send session_put_message)
qed

lemma session_register:
  assumes fresh: "objects_fresh e" and inv: "session_inv F h tr"
    and run: "RPMAHandler_register_mr_to_descriptor e c junk opk h tr = (r, h', tr')"
  shows "session_inv F h' tr'"
proof -
  let ?m = "data_manager h"
  let ?u = "mr_usage opk (mm_is_pmem ?m)"
  obtain ret mr where reg: "e_mr_reg (mr_of e) tr (ch_peer h) (mm_data ?m) (mm_size ?m) ?u = (ret, mr)"
    by (metis prod.exhaust)
  let ?tr1 = "tr @ [Mr (Ev_mr_reg (ch_peer h) (mm_data ?m) (mm_size ?m) ?u (ret, mr))]"
  have mrs: "holds_mrs F (opt_list mr @ opt_list (data_mr h) @ buffer_mrs h) ?tr1"
    using holds_mrs_reg [OF fresh _ reg] inv by (simp add: session_inv_def)
  have rest: "holds_memory F ?m ?tr1" "holds_conn F (rc_conn (ch_conn h)) ?tr1"
    using inv by (cases mr; simp add: session_inv_def holds_memory_def holds_conn_def)+
  show ?thesis
  proof (cases "ret = 0")
    case False
    then have "mr = None" using objects_freshD(1) [OF fresh reg] by simp
    then show ?thesis
      using False run reg mrs rest
      by (auto simp: RPMAHandler_register_mr_to_descriptor_def MemoryManager_get_pointer_def env_simps
          session_inv_def Let_def)
  next
    case True
    let ?tr2 = "unique_delete RpmaMRDeleter (data_mr h) ?tr1"
    obtain d tr3 where b: "build_descriptor e junk opk (mm_is_pmem ?m) mr ?tr2 = (d, tr3)"
      by (metis prod.exhaust)
    have "holds_mrs F (opt_list (data_mr h) @ opt_list mr @ buffer_mrs h) ?tr1"
      using mrs by (rule holds_mrs_perm [THEN iffD1, rotated 2]) auto
    then have "holds_mrs F (opt_list mr @ buffer_mrs h) ?tr2"
      by (rule holds_mrs_dereg)
    then have "session_inv F (h\<lparr>data_mr := mr\<rparr>) ?tr2"
      using rest by (simp add: session_inv_def buffer_mrs_def holds_memory_def holds_conn_def)
    then have "session_inv F (h\<lparr>data_mr := mr\<rparr>) tr3"
      using session_inv_quiet quiet_build_descriptor [OF b] by (simp add: same_resources_def)
    then show ?thesis
      using True run reg b
      by (auto simp: RPMAHandler_register_mr_to_descriptor_def MemoryManager_get_pointer_def env_simps Let_def
          split: prod.splits sum.splits intro: session_put_message)
  qed
qed

lemma session_init:
  assumes "alloc_fresh e" and "session_inv F h tr" and "mm_data (data_manager h) = None"
    and "MemoryManager_init e sz path (data_manager h) tr = (r, m, tr')"
  shows "session_inv F (h\<lparr>data_manager := m\<rparr>) tr'"
  using assms(2) holds_memory_init [OF assms(1,3) _ assms(4)] acquire_other [OF assms(4)]
  by (simp add: session_inv_def buffer_mrs_def holds_mrs_def holds_conn_def)

lemma session_write_request:
  assumes "alloc_fresh e" and "objects_fresh e" and "session_inv F h tr"
    and "RPMAHandler_get_descriptor_for_write e c junk h tr = (r, h', tr')"
  shows "session_inv F h' tr'"
  using assms(3,4)
  by (auto simp: RPMAHandler_get_descriptor_for_write_def MemoryManager_get_pointer_def Let_def
      split: option.splits prod.splits if_splits sum.splits
      intro: session_init [OF assms(1)] session_register [OF assms(2)])

lemma session_get_descriptor:
  assumes "alloc_fresh e" and "objects_fresh e" and "session_inv F h tr"
    and "RPMAHandler_get_descriptor e c junk h tr = (r, h', tr')"
  shows "session_inv F h' tr'"
  using assms(3,4)
  by (auto simp: RPMAHandler_get_descriptor_def split: option.splits if_splits
      intro: session_close session_write_request [OF assms(1,2)])

lemma session_deal_require:
  assumes "alloc_fresh e" and "objects_fresh e" and "session_inv F h tr"
    and "RPMAHandler_deal_require e c junk h tr = (r, h', tr')"
  shows "session_inv F h' tr'"
proof -
  obtain r1 h1 tr1 where g: "RPMAHandler_get_descriptor e c junk h tr = (r1, h1, tr1)"
    by (metis prod_cases3)
  note i1 = session_get_descriptor [OF assms(1-3) g]
  obtain r2 h2 tr2 where rc: "ConnectionHandler_recv e Deal_require h1 tr1 = (r2, h2, tr2)"
    by (metis prod_cases3)
  have "session_inv F h2 (tr2 @ [Post ev])" for ev
    using session_inv_quiet [OF session_recv [OF i1 rc]] by (simp add: same_resources_def)
  then show ?thesis
    using assms(4) g i1 rc by (auto simp: RPMAHandler_deal_require_def env_simps split: sum.splits)
qed

text \<open>
  What dealing with a request guarantees, the handling of any event guarantees: a relation of
  the states before and after that contains the steps without effect on the resources and that
  can be chained.
\<close>

locale event_relation =
  fixes e :: env and c :: ceph_codec and R :: "RPMAHandler \<Rightarrow> trace \<Rightarrow> RPMAHandler \<Rightarrow> trace \<Rightarrow> bool"
  assumes still: "same_resources h h' \<Longrightarrow> quiet tr tr' \<Longrightarrow> R h tr h' tr'"
    and chain: "R h1 tr1 h2 tr2 \<Longrightarrow> R h2 tr2 h3 tr3 \<Longrightarrow> R h1 tr1 h3 tr3"
    and request: "RPMAHandler_deal_require e c junk h tr = (r, h', tr') \<Longrightarrow> R h tr h' tr'"
begin

lemma callback_step:
  assumes "RpmaOp_do_callback (RPMAHandler_run e c junk) x h tr = (r, h', tr')"
  shows "R h tr (delete_op p h') tr'"
proof -
  have "R h tr h' tr'"
    using assms request still [of h h tr tr]
    by (auto simp: RpmaOp_do_callback_def RPMAHandler_run_def same_resources_def split: if_splits)
  then show ?thesis
    by (rule chain) (rule still, simp_all add: same_resources_def delete_op_def)
qed

lemma completion_step:
  assumes run: "ConnectionHandler_handle_completion e (RPMAHandler_run e c junk) h tr = (r, h', tr')"
  shows "R h tr h' tr'"
proof -
  let ?c = "rc_conn (ch_conn h)"
  obtain ret cmpl where g: "e_conn_completion_get (conn_of e) (tr @ [Conn (Ev_conn_completion_wait ?c 0)]) ?c = (ret, cmpl)"
    by (metis prod.exhaust)
  show ?thesis
  proof (cases "e_conn_completion_wait (conn_of e) tr ?c = 0 \<and> ret = 0 \<and> op_status cmpl = IBV_WC_SUCCESS \<and>
      (\<exists>p x. op_context cmpl = Some p \<and> op_heap h p = Some x)")
    case False
    then have "same_resources h h'" and "quiet tr tr'"
      using run g
      by (auto simp: ConnectionHandler_handle_completion_def env_simps obj_defs same_resources_def
          split: if_splits option.splits)
    then show ?thesis by (rule still)
  next
    case True
    then obtain p x where p: "op_context cmpl = Some p" "op_heap h p = Some x" by blast
    let ?h1 = "h\<lparr>callback_table := callback_table h - {p}\<rparr>"
    let ?tr2 = "tr @ [Conn (Ev_conn_completion_wait ?c 0), Conn (Ev_conn_completion_get ?c (0, cmpl))]"
    obtain r2 h2 tr3 where d: "RpmaOp_do_callback (RPMAHandler_run e c junk) x ?h1 ?tr2 = (r2, h2, tr3)"
      by (metis prod_cases3)
    have "R h tr ?h1 ?tr2" by (rule still) (simp_all add: same_resources_def)
    moreover have "h' = delete_op p h2" "tr' = tr3"
      using True g p d run by (auto simp: ConnectionHandler_handle_completion_def env_simps obj_defs)
    ultimately show ?thesis using callback_step [OF d] chain by blast
  qed
qed

lemma handle_step:
  assumes run: "RPMAHandler_handle e c junk i et h ro tr = (r, h', ro', tr')"
  shows "R h tr h' tr'"
proof (cases "et = COMPLETION_EVENT")
  case True
  then show ?thesis
    using run completion_step by (auto simp: RPMAHandler_handle_def ConnectionHandler_handle_def split: prod.splits)
next
  case False
  then have "same_resources h h'" and "quiet tr tr'"
    using run
    by (auto simp: RPMAHandler_handle_def ConnectionHandler_handle_def same_resources_def
        ConnectionHandler_handle_connection_event_def RPMAHandler_remove_self_def env_simps obj_defs Let_def
        split: prod.splits if_splits dest!: quiet_remove_pair intro: quiet_trans [rotated])
  then show ?thesis by (rule still)
qed

end

interpretation held: event_relation e c
  "\<lambda>h tr h' tr'. alloc_fresh e \<and> objects_fresh e \<and> session_inv F h tr \<longrightarrow> session_inv F h' tr'" for e c F
  by unfold_locales (blast intro: session_inv_quiet session_deal_require)+

lemma session_handle:
  "\<lbrakk>alloc_fresh e; objects_fresh e; session_inv F h tr; RPMAHandler_handle e c junk i et h ro tr = (r, h', ro', tr')\<rbrakk>
     \<Longrightarrow> session_inv F h' tr'"
  using held.handle_step by blast

subsection \<open>Construction and destruction\<close>

definition all_released :: "footprint \<Rightarrow> trace \<Rightarrow> bool" where
  "all_released F tr \<longleftrightarrow>
     live_blocks tr = fp_blocks F \<and> live_mrs tr = fp_mrs F \<and> live_conns tr = fp_conns F"

lemma RpmaConn_destroy_holds:
  assumes "holds_conn F (rc_conn x) tr" and "RpmaConn_destroy e x tr = (x', tr')"
  shows "live_conns tr' = fp_conns F \<and> live_mrs tr' = live_mrs tr \<and> live_blocks tr' = live_blocks tr"
  using assms by (auto simp: holds_conn_def RpmaConn_destroy_def env_simps split: option.splits if_splits)

lemma base_destroy_releases:
  assumes "ops_inv {} h" and "holds_mrs F (buffer_mrs h) tr" and "holds_conn F (rc_conn (ch_conn h)) tr"
    and "live_blocks tr = fp_blocks F" and "ConnectionHandler_destroy e h tr = (r, h', tr')"
  shows "all_released F tr'"
proof -
  let ?tr2 = "unique_delete RpmaMRDeleter (send_mr h) (unique_delete RpmaMRDeleter (recv_mr h) tr)"
  obtain x tr3 where d: "RpmaConn_destroy e (ch_conn h) ?tr2 = (x, tr3)"
    by (metis prod.exhaust)
  have ops: "\<not> (\<exists>p \<in> callback_table h. op_heap h p = None)"
    using assms(1) by (auto simp: ops_inv_def)
  have "holds_mrs F [] ?tr2"
    using assms(2) by (auto simp: buffer_mrs_def intro!: holds_mrs_dereg)
  moreover have "holds_conn F (rc_conn (ch_conn h)) ?tr2"
    using assms(3) by (simp add: holds_conn_def)
  moreover have "tr' = tr3"
    using assms(5) d ops by (auto simp: ConnectionHandler_destroy_def split: if_splits prod.splits)
  ultimately show ?thesis
    using RpmaConn_destroy_holds [OF _ d] assms(4) by (auto simp: all_released_def holds_mrs_def)
qed

lemma session_destroy:
  assumes "ops_inv {} h" and inv: "session_inv F h tr" and run: "RPMAHandler_destroy e h tr = (r, h', tr')"
  shows "all_released F tr'"
proof -
  let ?tr1 = "unique_delete RpmaMRDeleter (data_mr h) tr"
  obtain m tr2 where d: "MemoryManager_destroy (data_manager h) ?tr1 = (m, tr2)"
    by (metis prod.exhaust)
  have "holds_memory F (data_manager h) ?tr1"
    using inv by (simp add: session_inv_def holds_memory_def)
  note m = holds_memory_destroy [OF this d]
  let ?h1 = "h\<lparr>data_mr := None, data_manager := m\<rparr>"
  have "holds_mrs F (buffer_mrs h) ?tr1"
    using inv by (auto simp: session_inv_def intro: holds_mrs_dereg)
  then have "holds_mrs F (buffer_mrs ?h1) tr2"
    using m by (simp add: buffer_mrs_def holds_mrs_def)
  moreover have "holds_conn F (rc_conn (ch_conn ?h1)) tr2"
    using inv m by (simp add: session_inv_def holds_conn_def)
  ultimately show ?thesis
    using base_destroy_releases [of ?h1 F tr2 e r h' tr'] assms(1) m run d
    by (simp add: RPMAHandler_destroy_def)
qed

lemma holds_buffer:
  assumes "objects_fresh e" and "holds_mrs F ms tr"
    and "bufferptr_create e n tr = ((a, bl), tr1)" and "rpma_mr_reg e p (Some a) l u tr1 = ((ret, mr), tr2)"
  shows "holds_mrs F (opt_list mr @ ms) tr2 \<and> live_blocks tr2 = live_blocks tr \<and>
         live_conns tr2 = live_conns tr \<and> (ret \<noteq> 0 \<longrightarrow> mr = None)"
proof -
  have tr1: "tr1 = tr @ [Mem (Ev_bufferptr n (a, bl))]"
    using assms(3) by (auto simp: env_simps)
  have r: "e_mr_reg (mr_of e) tr1 p (Some a) l u = (ret, mr)" "tr2 = tr1 @ [Mr (Ev_mr_reg p (Some a) l u (ret, mr))]"
    using assms(4) by (auto simp: env_simps)
  have "holds_mrs F ms tr1" using assms(2) by (simp add: tr1 holds_mrs_def)
  from holds_mrs_reg [OF assms(1) this r(1)] objects_freshD(1) [OF assms(1) r(1)] show ?thesis
    by (cases mr) (auto simp: r(2) tr1 split: if_splits)
qed

lemma buffers_held:
  assumes "objects_fresh e" and "holds_mrs F ms tr" and "recv_mr h = None" "send_mr h = None"
    and run: "ConnectionHandler_init_send_recv_buffer e h tr = (r, h', tr')"
  shows "holds_mrs F (ms @ buffer_mrs h') tr' \<and> live_blocks tr' = live_blocks tr \<and> live_conns tr' = live_conns tr"
proof -
  obtain a bl tr1 where b: "bufferptr_create e MSG_SIZE tr = ((a, bl), tr1)" by (metis prod.exhaust)
  obtain ret mr tr2 where g: "rpma_mr_reg e (ch_peer h) (Some a) msg_len RPMA_MR_USAGE_RECV tr1 = ((ret, mr), tr2)"
    by (metis prod.exhaust)
  obtain a2 bl2 tr3 where b2: "bufferptr_create e MSG_SIZE tr2 = ((a2, bl2), tr3)" by (metis prod.exhaust)
  obtain ret2 mr2 tr4 where g2: "rpma_mr_reg e (ch_peer h) (Some a2) msg_len RPMA_MR_USAGE_SEND tr3 = ((ret2, mr2), tr4)"
    by (metis prod.exhaust)
  note s1 = holds_buffer [OF assms(1,2) b g]
  note s2 = holds_buffer [OF assms(1) conjunct1 [OF s1] b2 g2]
  have p1: "holds_mrs F (ms @ opt_list mr) tr2"
    using conjunct1 [OF s1] by (rule holds_mrs_perm [THEN iffD1, rotated 2]) auto
  have p2: "holds_mrs F (ms @ opt_list mr @ opt_list mr2) tr4"
    using conjunct1 [OF s2] by (rule holds_mrs_perm [THEN iffD1, rotated 2]) auto
  show ?thesis
    using run b g b2 g2 assms(3,4) p1 p2 s1 s2
    by (auto simp: ConnectionHandler_init_send_recv_buffer_def Let_def buffer_mrs_def split: if_splits)
qed

lemma buffers_frame:
  assumes "ConnectionHandler_init_send_recv_buffer e h tr = (r, h', tr')"
  shows "data_mr h' = data_mr h \<and> data_manager h' = data_manager h \<and> ch_conn h' = ch_conn h"
  using assms by (auto simp: ConnectionHandler_init_send_recv_buffer_def Let_def split: prod.splits if_splits)

text \<open>A constructor that throws has released everything it acquired.\<close>

lemma ctor_throw_releases:
  assumes "ops_inv {} h" and "session_inv F h tr" and "ctor_throw e f h tr = (r, tr')"
  shows "all_released F tr'"
  using assms(3) session_destroy [OF assms(1,2)] by (auto simp: ctor_throw_def split: prod.splits)

text \<open>The outcome of a constructor: what the new object holds, or nothing.\<close>

definition ctor_outcome :: "footprint \<Rightarrow> RPMAHandler result \<times> trace \<Rightarrow> bool" where
  "ctor_outcome F x = (case x of (Inr h, tr) \<Rightarrow> session_inv F h tr | (Inl f, tr) \<Rightarrow> all_released F tr)"

lemma ctor_outcome_throw:
  "ops_inv {} h \<Longrightarrow> session_inv F h tr \<Longrightarrow> ctor_outcome F (ctor_throw e f h tr)"
  using ctor_throw_releases [of h F tr e f]
  by (auto simp: ctor_outcome_def ctor_throw_def split: prod.splits)

lemma ctor_outcome_ok: "session_inv F h tr \<Longrightarrow> ctor_outcome F (Inr h, tr)"
  by (simp add: ctor_outcome_def)

lemma session_connect:
  assumes "objects_fresh e" and "session_inv F h tr" and "rc_conn (ch_conn h) = None"
    and "rpma_conn_req_connect e q tr = ((ret, q', conn), tr')"
  shows "if ret = 0 then session_inv F (h\<lparr>ch_conn := RpmaConn_reset conn (ch_conn h)\<rparr>) tr'
         else session_inv F h tr'"
proof -
  have r: "e_conn_req_connect (setup_of e) tr q = (ret, q', conn)"
      "tr' = tr @ [Setup (Ev_conn_req_connect q (ret, q', conn))]"
    using assms(4) by (auto simp: env_simps)
  have "live_conns tr = fp_conns F"
    using assms(2,3) by (simp add: session_inv_def holds_conn_def)
  with assms(2,3) objects_freshD(2) [OF assms(1) r(1)] show ?thesis
    by (cases conn) (auto simp: r(2) session_inv_def holds_conn_def holds_mrs_def holds_memory_def
        buffer_mrs_def RpmaConn_reset_def)
qed

lemma session_conn_fd:
  assumes "session_inv F h tr" and "ConnectionHandler_init_conn_fd e h tr = (r, h', tr')"
  shows "session_inv F h' tr'"
proof -
  have "same_resources h h' \<and> quiet tr tr'"
    using assms(2)
    by (auto simp: ConnectionHandler_init_conn_fd_def env_simps same_resources_def Let_def
        split: if_splits option.splits prod.splits)
  then show ?thesis using session_inv_quiet [OF assms(1)] by blast
qed

lemma session_initial_recv:
  assumes "session_inv F h tr" and "new_op k cb h = (p, h2)"
  shows "session_inv F (settle_op p ret h2) tr" and "rc_conn (ch_conn (settle_op p ret h2)) = rc_conn (ch_conn h)"
  using assms(2) session_inv_quiet [OF assms(1) _ quiet_refl]
  by (auto simp: new_op_def settle_op_def delete_op_def same_resources_def)

lemma session_quiet_event: "session_inv F h tr \<Longrightarrow> quiet_event ev \<Longrightarrow> session_inv F h (tr @ [ev])"
  by (rule session_inv_quiet [of _ h tr]) (simp_all add: same_resources_def)

lemma new_handler_resources:
  assumes fresh: "objects_fresh e"
  shows "ctor_outcome (footprint tr0) (RPMAHandler_new e j1 j2 jsz peer ep tr0)"
proof -
  let ?h0 = "(RPMAHandler_default j1 j2 jsz)\<lparr>ch_peer := peer\<rparr>"
  have h0: "data_mr ?h0 = None" "mm_data (data_manager ?h0) = None" "rc_conn (ch_conn ?h0) = None"
      "recv_mr ?h0 = None" "send_mr ?h0 = None" "ops_inv {} ?h0"
    by (simp_all add: RPMAHandler_default_def ConnectionHandler.extend_def ConnectionHandler_new_def
        MemoryManager_default_def RpmaConn_default_def ops_inv_def)
  obtain r1 h1 tr1 where b: "ConnectionHandler_init_send_recv_buffer e ?h0 tr0 = (r1, h1, tr1)"
    by (metis prod_cases3)
  have i1: "session_inv (footprint tr0) h1 tr1" and o1: "ops_inv {} h1" and c1: "rc_conn (ch_conn h1) = None"
    using buffers_held [OF fresh holds_start(1) h0(4,5) b] buffers_frame [OF b] h0 init_buffer_ops [OF b]
    by (simp_all add: session_inv_def holds_memory_def mm_gain_def holds_conn_def)
  obtain ret req tr2 where q: "rpma_ep_next_conn_req e ep tr1 = ((ret, req), tr2)" by (metis prod.exhaust)
  obtain p h2 where n: "new_op RpmaReqRecv Deal_require h1 = (p, h2)" by (metis prod.exhaust)
  obtain ret2 tr3 where v: "RpmaReqRecv_call e req (recv_mr h2) 0 msg_len (Some p) tr2 = (ret2, tr3)"
    by (metis prod.exhaust)
  obtain ret3 req2 conn tr4 where k: "rpma_conn_req_connect e req tr3 = ((ret3, req2, conn), tr4)"
    by (metis prod.exhaust)
  let ?h3 = "settle_op p ret2 h2"
  have i2: "session_inv (footprint tr0) h1 tr2"
    using session_quiet_event [OF i1] q by (auto simp: env_simps)
  then have i3: "session_inv (footprint tr0) ?h3 tr3"
    using session_quiet_event [OF session_initial_recv(1) [OF i2 n]] v by (auto simp: env_simps)
  have o3: "ops_inv {} ?h3" by (rule ops_inv_post [OF o1 n])
  have c3: "rc_conn (ch_conn ?h3) = None" using session_initial_recv(2) [OF i2 n] c1 by simp
  note i4 = session_connect [OF fresh i3 c3 k]
  let ?h4 = "?h3\<lparr>ch_conn := RpmaConn_reset conn (ch_conn ?h3)\<rparr>"
  obtain r5 h5 tr5 where f: "ConnectionHandler_init_conn_fd e ?h4 tr4 = (r5, h5, tr5)"
    by (metis prod_cases3)
  have i5: "session_inv (footprint tr0) h5 tr5" if "ret3 = 0"
    using i4 that session_conn_fd [OF _ f] by simp
  have o5: "ops_inv {} h5"
    using init_conn_fd_ops [OF f] o3 by simp
  have c5: "ctor_outcome (footprint tr0) (case r5 of Inl f \<Rightarrow> ctor_throw e f h5 tr5 | Inr _ \<Rightarrow> (Inr h5, tr5))" if "ret3 = 0"
    using i5 [OF that] o5 by (cases r5) (simp_all add: ctor_outcome_throw ctor_outcome_ok)
  show ?thesis
    using i1 o1 i2 i3 i4 o3 c5 v k f
    by (cases r1; cases "ret2 = 0"; cases "ret3 = 0")
      (simp_all add: RPMAHandler_new_def b q n Let_def ctor_outcome_throw log_event_def session_quiet_event)
qed

subsection \<open>The life of a connection\<close>

text \<open>
  A connection from construction on, with the trace of everything it calls: the network fills
  the receive buffer, the reactor calls \<open>handle\<close>, also with exceptions as the outcome.
\<close>

inductive server_session :: "env \<Rightarrow> ceph_codec \<Rightarrow> trace \<Rightarrow> RPMAHandler \<Rightarrow> trace \<Rightarrow> bool" for e c tr0 where
  start: "RPMAHandler_new e j1 j2 jsz peer ep tr0 = (Inr h, tr) \<Longrightarrow> server_session e c tr0 h tr"
| deliver: "server_session e c tr0 h tr \<Longrightarrow> server_session e c tr0 (h\<lparr>recv_bl := msg\<rparr>) tr"
| step: "\<lbrakk>server_session e c tr0 h tr; completion_ok e h tr;
     RPMAHandler_handle e c junk i et h ro tr = (r, h', ro', tr')\<rbrakk> \<Longrightarrow> server_session e c tr0 h' tr'"

inductive_cases server_sessionE: "server_session e c tr0 h tr"

lemma server_session_ops: "server_session e c tr0 h tr \<Longrightarrow> ops_inv {} h"
proof (induction rule: server_session.induct)
  case (start j1 j2 jsz peer ep h tr)
  then show ?case by (rule new_handler_ops)
next
  case (deliver h tr msg)
  then show ?case by simp
next
  case (step h tr junk i et ro r h' ro' tr')
  then show ?case using server_handle_ops by blast
qed

lemma server_session_inv:
  assumes "alloc_fresh e" and "objects_fresh e" and "server_session e c tr0 h tr"
  shows "session_inv (footprint tr0) h tr"
  using assms(3)
proof (induction rule: server_session.induct)
  case (start j1 j2 jsz peer ep h tr)
  then show ?case
    using new_handler_resources [OF assms(2), of tr0 j1 j2 jsz peer ep] by (simp add: ctor_outcome_def)
next
  case (deliver h tr msg)
  then show ?case
    using session_inv_quiet [of "footprint tr0" h tr "h\<lparr>recv_bl := msg\<rparr>" tr] by (simp add: same_resources_def)
next
  case (step h tr junk i et ro r h' ro' tr')
  then show ?case using session_handle [OF assms(1,2)] by blast
qed

subsection \<open>A library that keeps its promise\<close>

fun event_obj :: "event \<Rightarrow> ptr" where
  "event_obj (Mr (Ev_mr_reg p a n u (ret, Some m))) = m"
| "event_obj (Setup (Ev_conn_req_connect q (ret, q', Some c))) = c"
| "event_obj ev = 0"

definition fresh_obj :: "trace \<Rightarrow> ptr" where
  "fresh_obj tr = Suc (Max (insert 0 (event_obj ` set tr)))"

lemma live_objs_dom: "live_mrs tr \<union> live_conns tr \<subseteq> event_obj ` set tr"
proof (induction tr rule: rev_induct)
  case Nil
  then show ?case by (simp add: live_mrs_def live_conns_def)
next
  case (snoc ev tr)
  have "mr_apply M ev \<subseteq> insert (event_obj ev) M" and "conn_apply C ev \<subseteq> insert (event_obj ev) C" for M C
    by (cases "(M, ev)" rule: mr_apply.cases; auto) (cases "(C, ev)" rule: conn_apply.cases; auto)
  from this(1) [of "live_mrs tr"] this(2) [of "live_conns tr"] snoc show ?case by auto
qed

lemma fresh_obj_not_live: "fresh_obj tr \<notin> live_mrs tr" "fresh_obj tr \<notin> live_conns tr"
proof -
  have "fresh_obj tr \<notin> event_obj ` set tr"
  proof
    assume "fresh_obj tr \<in> event_obj ` set tr"
    then have "fresh_obj tr \<le> Max (insert 0 (event_obj ` set tr))"
      by (intro Max_ge) simp_all
    then show False by (simp add: fresh_obj_def)
  qed
  then show "fresh_obj tr \<notin> live_mrs tr" "fresh_obj tr \<notin> live_conns tr"
    using live_objs_dom [of tr] by blast+
qed

definition tracked_env :: "bool \<Rightarrow> env" where
  "tracked_env accepts = kernel_env\<lparr>
     mr_of := demo_mr\<lparr>e_mr_reg := (\<lambda>tr p a n u. (0, Some (fresh_obj tr)))\<rparr>,
     setup_of := demo_setup\<lparr>e_conn_req_connect :=
       (\<lambda>tr q. if accepts then (0, None, Some (fresh_obj tr)) else (RPMA_E_PROVIDER, q, None))\<rparr>\<rparr>"

lemma tracked_env_fresh: "objects_fresh (tracked_env b)" "alloc_fresh (tracked_env b)"
  by (auto simp: objects_fresh_def tracked_env_def fresh_obj_not_live kernel_env_def demo_env_def
      demo_alloc_fresh split: if_splits)

lemmas tracked_defs = tracked_env_def kernel_env_def demo_env_def demo_mem_def demo_defs

lemma tracked_new:
  "\<exists>h tr. RPMAHandler_new (tracked_env True) 0 0 0 (Some 1) (Some 2) [] = (Inr h, tr)"
  by (simp add: RPMAHandler_new_def ConnectionHandler_init_send_recv_buffer_def
      ConnectionHandler_init_conn_fd_def new_op_def settle_op_def tracked_defs env_simps Let_def)

lemma tracked_new_throws:
  "\<exists>f tr. RPMAHandler_new (tracked_env False) 0 0 0 (Some 1) (Some 2) [] = (Inl f, tr)"
  by (simp add: RPMAHandler_new_def ConnectionHandler_init_send_recv_buffer_def ctor_throw_def
      ConnectionHandler_init_conn_fd_def new_op_def settle_op_def tracked_defs env_simps Let_def
      split: prod.splits)

subsection \<open>Properties\<close>




text \<open>A connection whose first completion is a message that is too short to be a request.\<close>

definition garbled_env :: env where
  "garbled_env = (tracked_env True)\<lparr>conn_of := demo_conn\<lparr>e_conn_completion_get :=
     (\<lambda>tr c. (0, \<lparr>op_context = Some 0, op = RPMA_OP_RECV, byte_len = 3, op_status = 0\<rparr>))\<rparr>\<rparr>"

lemma garbled_new:
  "\<exists>h tr. RPMAHandler_new garbled_env 0 0 0 (Some 1) (Some 2) [] = (Inr h, tr) \<and> callback_table h = {0} \<and>
     op_heap h 0 = Some \<lparr>op_class = RpmaReqRecv, func = Deal_require\<rparr>"
  by (simp add: RPMAHandler_new_def ConnectionHandler_init_send_recv_buffer_def RPMAHandler_default_def
      ConnectionHandler.extend_def ConnectionHandler_new_def
      ConnectionHandler_init_conn_fd_def new_op_def settle_op_def garbled_env_def tracked_defs env_simps Let_def)


text \<open>
  A constructor that throws, at whichever of its calls, has released what it had acquired:
  blocks, regions and connections are as before.
\<close>

theorem server_constructor_exception_safe:
  assumes "objects_fresh e" and "RPMAHandler_new e j1 j2 jsz peer ep tr0 = (Inl f, tr')"
  shows "live_blocks tr' = live_blocks tr0 \<and> live_mrs tr' = live_mrs tr0 \<and> live_conns tr' = live_conns tr0"
  using new_handler_resources [OF assms(1), of tr0 j1 j2 jsz peer ep] assms(2)
  by (simp add: ctor_outcome_def all_released_def)

theorem server_constructor_exception_safe_witness:
  "\<exists>f tr'. RPMAHandler_new (tracked_env False) 0 0 0 (Some 1) (Some 2) [] = (Inl f, tr') \<and>
     live_mrs tr' = live_mrs [] \<and> live_conns tr' = live_conns []"
proof -
  obtain f tr' where n: "RPMAHandler_new (tracked_env False) 0 0 0 (Some 1) (Some 2) [] = (Inl f, tr')"
    using tracked_new_throws by blast
  from server_constructor_exception_safe [OF tracked_env_fresh(1) n] n show ?thesis by blast
qed

end
