(* ===== verification/Server_Session.thy ===== *)
theory Server_Session
  imports Rpma_Handler
begin

text \<open>
  What the server's end of a connection does with each request: the replies it puts into the
  send buffer, the resources it acquires and gives up, the name of the file behind a region,
  and the ownership of its operation objects over the life of a connection.
\<close>

subsection \<open>Serving an init request\<close>

definition success_reply :: "(ptr \<Rightarrow> bytes) \<Rightarrow> (bool \<Rightarrow> bytes) \<Rightarrow> ptr \<Rightarrow> bool \<Rightarrow> RwlReplicaInitRequestReply" where
  "success_reply mdesc pdesc mr pm =
     \<lparr>type_of = RWL_REPLICA_INIT_SUCCESSED,
      desc = \<lparr>mr_desc_size = of_nat (length (mdesc mr)), pcfg_desc_size = of_nat (length (pdesc pm)),
              descriptors = mdesc mr @ pdesc pm\<rparr>\<rparr>"

lemma success_reply_descriptors [simp]:
  "descriptors (desc (success_reply mdesc pdesc mr pm)) = mdesc mr @ pdesc pm"
  by (simp add: success_reply_def)

lemma register_mr_ok:
  assumes c: "ceph_encoding c" and d: "server_descriptors e mdesc pdesc"
    and reg: "e_mr_reg (mr_of e) tr (ch_peer h) (mm_data (data_manager h)) (mm_size (data_manager h))
                (mr_usage RPMA_OP_FLUSH (mm_is_pmem (data_manager h))) = (0, Some mr)"
    and fits: "28 + length (mdesc mr) + length (pdesc (mm_is_pmem (data_manager h))) < MSG_SIZE"
  shows "\<exists>tr'. RPMAHandler_register_mr_to_descriptor e c junk RPMA_OP_FLUSH h tr
    = (Inr 0, h\<lparr>data_mr := Some mr,
         send_bl := memcpy (send_bl h) (RwlReplicaInitRequestReply_encode c (success_reply mdesc pdesc mr (mm_is_pmem (data_manager h))))
           (length (RwlReplicaInitRequestReply_encode c (success_reply mdesc pdesc mr (mm_is_pmem (data_manager h)))))\<rparr>, tr')"
proof -
  let ?pm = "mm_is_pmem (data_manager h)"
  let ?reply = "success_reply mdesc pdesc mr ?pm"
  obtain tr2 where tr2: "unique_delete RpmaMRDeleter (data_mr h)
      (tr @ [Mr (Ev_mr_reg (ch_peer h) (mm_data (data_manager h)) (mm_size (data_manager h))
        (mr_usage RPMA_OP_FLUSH ?pm) (0, Some mr))]) = tr2" by blast
  obtain tr' where b: "build_descriptor e junk RPMA_OP_FLUSH ?pm (Some mr) tr2
      = (Inr (Inr (desc ?reply)), tr')"
    using build_descriptor_ok [OF d, of junk ?pm mr tr2] by (auto simp: success_reply_def)
  have len: "length (RwlReplicaInitRequestReply_encode c ?reply) < MSG_SIZE"
    using fits by (simp add: ceph_encoding.init_reply_length [OF c])
  have "\<lparr>type_of = RWL_REPLICA_INIT_SUCCESSED, desc = desc ?reply\<rparr> = ?reply"
    by (simp add: success_reply_def)
  then show ?thesis
    using reg tr2 b len
    by (simp add: RPMAHandler_register_mr_to_descriptor_def MemoryManager_get_pointer_def env_simps
        put_message_def Let_def)
qed

text \<open>What the handler reads out of a receive buffer that starts with a request.\<close>

lemma get_descriptor_init:
  assumes c: "ceph_encoding c"
    and rq: "recv_bl h = RwlReplicaInitRequest_encode c \<lparr>type_of = RWL_REPLICA_INIT_REQUEST, info = i\<rparr> @ rest"
    and small: "36 + length (pool_name i) + length (image_name i) < 2 ^ 32"
    and none: "mm_data (data_manager h) = None"
    and init: "MemoryManager_init e (cache_size i) (replica_path i) (data_manager h) tr = (r, m, tr1)"
  shows "RPMAHandler_get_descriptor e c junk h tr
    = (case r of Inl f \<Rightarrow> (Inl f, h\<lparr>data_manager := m\<rparr>, tr1)
       | Inr _ \<Rightarrow> RPMAHandler_register_mr_to_descriptor e c junk RPMA_OP_FLUSH (h\<lparr>data_manager := m\<rparr>) tr1)"
proof -
  let ?rq = "\<lparr>type_of = RWL_REPLICA_INIT_REQUEST, info = i\<rparr>"
  have len: "length (RwlReplicaInitRequest_encode c ?rq) < 2 ^ 32"
    using small by (simp add: ceph_encoding.init_request_length [OF c])
  have "RwlReplicaRequest_decode c (recv_bl h) = Some (\<lparr>type_of = RWL_REPLICA_INIT_REQUEST\<rparr>, rest)"
    and "RwlReplicaInitRequest_decode c (recv_bl h) = Some (?rq, rest)"
    using ceph_encoding.peek_init_request [OF c len] ceph_encoding.init_request_roundtrip [OF c len] rq
    by simp_all
  then show ?thesis
    using none init
    by (simp add: RPMAHandler_get_descriptor_def RPMAHandler_get_descriptor_for_write_def
        MemoryManager_get_pointer_def Let_def)
qed

lemma recv_frame:
  assumes "ConnectionHandler_recv e cb h tr = (ret, h', tr')"
  shows "send_bl h' = send_bl h \<and> send_mr h' = send_mr h \<and> ch_conn h' = ch_conn h \<and>
         RPMAHandler.more h' = RPMAHandler.more h \<and> data_mr h' = data_mr h \<and> data_manager h' = data_manager h"
  using assms
  by (auto simp: ConnectionHandler_recv_def new_op_def settle_op_def delete_op_def Let_def split: prod.splits)

lemma send_frame:
  assumes "ConnectionHandler_send e cb h tr = (ret, h', tr')"
  shows "send_bl h' = send_bl h \<and> send_mr h' = send_mr h \<and> ch_conn h' = ch_conn h \<and>
         data_mr h' = data_mr h \<and> data_manager h' = data_manager h"
  using assms
  by (auto simp: ConnectionHandler_send_def new_op_def settle_op_def delete_op_def Let_def split: prod.splits)

text \<open>The end of \<open>deal_require\<close>, after a request that raised nothing.\<close>

lemma send_trace:
  "\<exists>ret. snd (snd (ConnectionHandler_send e cb h tr))
     = tr @ [Post (Ev_send (rc_conn (ch_conn h)) (send_mr h) 0 msg_len RPMA_F_COMPLETION_ALWAYS (Some (op_next h)) ret)]"
  by (simp add: ConnectionHandler_send_def new_op_def env_simps obj_defs)

lemma recv_trace:
  "\<exists>ret. snd (snd (ConnectionHandler_recv e cb h tr))
     = tr @ [Post (Ev_recv (rc_conn (ch_conn h)) (recv_mr h) 0 msg_len (Some (op_next h)) ret)]"
  by (simp add: ConnectionHandler_recv_def new_op_def env_simps obj_defs)

lemma deal_require_tail:
  assumes "RPMAHandler_get_descriptor e c junk h tr = (Inr v, h1, tr1)"
  shows "\<exists>h' r1 r2. RPMAHandler_deal_require e c junk h tr
           = (Inr (), h', (tr1 @ [Post (Ev_recv (rc_conn (ch_conn h1)) (recv_mr h1) 0 msg_len (Some (op_next h1)) r1)])
               @ [Post (Ev_send (rc_conn (ch_conn h1)) (send_mr h1) 0 msg_len RPMA_F_COMPLETION_ALWAYS None r2)]) \<and>
           send_bl h' = send_bl h1 \<and> data_mr h' = data_mr h1 \<and> data_manager h' = data_manager h1"
proof -
  obtain ret2 h2 tr2 where r: "ConnectionHandler_recv e Deal_require h1 tr1 = (ret2, h2, tr2)"
    by (metis prod_cases3)
  obtain r1 where "tr2 = tr1 @ [Post (Ev_recv (rc_conn (ch_conn h1)) (recv_mr h1) 0 msg_len (Some (op_next h1)) r1)]"
    using recv_trace [of e Deal_require h1 tr1] r by auto
  with assms r recv_frame [OF r] show ?thesis
    by (simp add: RPMAHandler_deal_require_def env_simps obj_defs)
qed

text \<open>What the handler and its send buffer are after an init request that could be served.\<close>

lemma init_answer:
  assumes c: "ceph_encoding c" and d: "server_descriptors e mdesc pdesc"
    and rq: "recv_bl h = RwlReplicaInitRequest_encode c \<lparr>type_of = RWL_REPLICA_INIT_REQUEST, info = i\<rparr> @ rest"
    and small: "36 + length (pool_name i) + length (image_name i) < 2 ^ 32"
    and none: "mm_data (data_manager h) = None"
    and init: "MemoryManager_init e (cache_size i) (replica_path i) (data_manager h) tr = (Inr (), m, tr1)"
    and reg: "e_mr_reg (mr_of e) tr1 (ch_peer h) (mm_data m) (mm_size m) (mr_usage RPMA_OP_FLUSH (mm_is_pmem m))
                = (0, Some mr)"
    and fits: "28 + length (mdesc mr) + length (pdesc (mm_is_pmem m)) < MSG_SIZE"
  shows "\<exists>h' tr2 ret tl. RPMAHandler_deal_require e c junk h tr
           = (Inr (), h', tr2 @ [Post (Ev_send (rc_conn (ch_conn h)) (send_mr h) 0 msg_len RPMA_F_COMPLETION_ALWAYS None ret)]) \<and>
           data_manager h' = m \<and> data_mr h' = Some mr \<and>
           send_bl h' = RwlReplicaInitRequestReply_encode c (success_reply mdesc pdesc mr (mm_is_pmem m)) @ tl"
proof -
  let ?h1 = "h\<lparr>data_manager := m\<rparr>"
  let ?reply = "success_reply mdesc pdesc mr (mm_is_pmem m)"
  obtain tr2 where g: "RPMAHandler_get_descriptor e c junk h tr
      = (Inr 0, ?h1\<lparr>data_mr := Some mr,
           send_bl := memcpy (send_bl h) (RwlReplicaInitRequestReply_encode c ?reply)
             (length (RwlReplicaInitRequestReply_encode c ?reply))\<rparr>, tr2)"
    using get_descriptor_init [OF c rq small none init, of junk]
      register_mr_ok [OF c d, of tr1 ?h1 mr junk] reg fits by auto
  then show ?thesis
    using deal_require_tail [OF g] by (auto simp: memcpy_all)
qed

text \<open>
  C14: An init request is answered. When memory could be acquired and registered, and the
  reply fits into a message, the handler afterwards owns that memory and that registration,
  the send buffer starts with a reply of type \<open>RWL_REPLICA_INIT_SUCCESSED\<close> whose
  descriptors are the region's followed by the peer configuration's, and the last call is the
  post of that buffer.
\<close>

theorem server_answers_init:
  assumes c: "ceph_encoding c" and d: "server_descriptors e mdesc pdesc"
    and rq: "recv_bl h = RwlReplicaInitRequest_encode c \<lparr>type_of = RWL_REPLICA_INIT_REQUEST, info = i\<rparr> @ rest"
    and small: "36 + length (pool_name i) + length (image_name i) < 2 ^ 32"
    and none: "mm_data (data_manager h) = None"
    and init: "MemoryManager_init e (cache_size i) (replica_path i) (data_manager h) tr = (Inr (), m, tr1)"
    and reg: "e_mr_reg (mr_of e) tr1 (ch_peer h) (mm_data m) (mm_size m) (mr_usage RPMA_OP_FLUSH (mm_is_pmem m))
                = (0, Some mr)"
    and fits: "28 + length (mdesc mr) + length (pdesc (mm_is_pmem m)) < MSG_SIZE"
  shows "\<exists>h' tr2 ret tl. RPMAHandler_deal_require e c junk h tr
           = (Inr (), h', tr2 @ [Post (Ev_send (rc_conn (ch_conn h)) (send_mr h) 0 msg_len RPMA_F_COMPLETION_ALWAYS None ret)]) \<and>
           data_manager h' = m \<and> data_mr h' = Some mr \<and>
           RwlReplicaInitRequestReply_decode c (send_bl h') = Some (success_reply mdesc pdesc mr (mm_is_pmem m), tl)"
proof -
  obtain h' tr2 ret tl where a: "RPMAHandler_deal_require e c junk h tr
           = (Inr (), h', tr2 @ [Post (Ev_send (rc_conn (ch_conn h)) (send_mr h) 0 msg_len RPMA_F_COMPLETION_ALWAYS None ret)])"
      "data_manager h' = m" "data_mr h' = Some mr"
      "send_bl h' = RwlReplicaInitRequestReply_encode c (success_reply mdesc pdesc mr (mm_is_pmem m)) @ tl"
    using init_answer [OF assms, of junk] by blast
  have "length (RwlReplicaInitRequestReply_encode c (success_reply mdesc pdesc mr (mm_is_pmem m))) < 2 ^ 32"
    using fits by (simp add: ceph_encoding.init_reply_length [OF c] MSG_SIZE_def)
  with a show ?thesis by (simp add: ceph_encoding.init_reply_roundtrip [OF c])
qed

text \<open>The server's side of the demonstration environment, and a handler that received a request.\<close>

definition demo_pdesc :: "bool \<Rightarrow> bytes" where
  "demo_pdesc b = (if b then ''P'' else ''V'')"

definition server_env :: env where
  "server_env = kernel_env\<lparr>mr_of := demo_mr\<lparr>
     e_peer_cfg_get_descriptor := (\<lambda>tr p. (0, Some (demo_pdesc (case p of None \<Rightarrow> False | Some q \<Rightarrow> direct_write tr q))))\<rparr>\<rparr>"

lemma server_env_descriptors: "server_descriptors server_env (\<lambda>_. ''MR'') demo_pdesc"
  by (auto simp: server_descriptors_def server_env_def kernel_env_def demo_env_def demo_defs demo_pdesc_def)

definition demo_info :: RwlCacheInfo where
  "demo_info = \<lparr>cache_id = 1, cache_size = 4096, pool_name = ''RBD'', image_name = ''test''\<rparr>"

definition waiting_server :: "bytes \<Rightarrow> RPMAHandler" where
  "waiting_server msg =
     (RPMAHandler_default 11 12 0)\<lparr>ch_conn := RpmaConn_new (Some 9), send_bl := replicate MSG_SIZE (CHR 0x00),
        send_mr := Some 5, recv_bl := msg, recv_mr := Some 6, ch_peer := Some 1\<rparr>"

lemma waiting_server_simps [simp]:
  "recv_bl (waiting_server msg) = msg"
  "send_bl (waiting_server msg) = replicate MSG_SIZE (CHR 0x00)"
  "mm_data (data_manager (waiting_server msg)) = None"
  "data_mr (waiting_server msg) = None"
  "send_mr (waiting_server msg) = Some 5"
  "ch_conn (waiting_server msg) = RpmaConn_new (Some 9)"
  "ch_peer (waiting_server msg) = Some 1"
  by (simp_all add: waiting_server_def RPMAHandler_default_def ConnectionHandler.extend_def
      ConnectionHandler_new_def MemoryManager_default_def)

abbreviation demo_init_msg :: bytes where
  "demo_init_msg \<equiv> RwlReplicaInitRequest_encode ceph_le \<lparr>type_of = RWL_REPLICA_INIT_REQUEST, info = demo_info\<rparr>"

abbreviation demo_finish_msg :: bytes where
  "demo_finish_msg \<equiv> RwlReplicaRequest_encode ceph_le \<lparr>type_of = RWL_REPLICA_FINISHED_REQUEST\<rparr>"

theorem server_answers_init_witness:
  "\<exists>h' tr' mr tl. RPMAHandler_deal_require server_env ceph_le 0 (waiting_server demo_init_msg) [] = (Inr (), h', tr') \<and>
     mm_is_pmem (data_manager h') \<and> data_mr h' = Some mr \<and>
     RwlReplicaInitRequestReply_decode ceph_le (send_bl h') = Some (success_reply (\<lambda>_. ''MR'') demo_pdesc mr True, tl)"
proof -
  let ?h = "waiting_server demo_init_msg"
  obtain r m tr1 where i: "MemoryManager_init server_env (cache_size demo_info) (replica_path demo_info)
      (data_manager ?h) [] = (r, m, tr1)"
    by (metis prod_cases3)
  then have m: "r = Inr ()" "mm_is_pmem m"
    by (auto simp: mm_defs server_env_def kernel_env_def demo_env_def demo_mem_def env_simps split: if_splits)
  have reg: "e_mr_reg (mr_of server_env) tr1 (ch_peer ?h) (mm_data m) (mm_size m)
      (mr_usage RPMA_OP_FLUSH (mm_is_pmem m)) = (0, Some (length tr1))"
    by (simp add: server_env_def kernel_env_def demo_env_def demo_defs)
  show ?thesis
    using server_answers_init [OF ceph_le.ceph_encoding_axioms server_env_descriptors, of ?h demo_info "[]" "[]" m tr1 "length tr1" 0]
      i m reg
    by (auto simp: demo_info_def demo_pdesc_def MSG_SIZE_def)
qed

subsection \<open>Serving a finish request\<close>

definition is_send :: "event \<Rightarrow> bool" where
  "is_send ev = (case ev of Post (Ev_send _ _ _ _ _ _ _) \<Rightarrow> True | _ \<Rightarrow> False)"

definition finish_reply :: "int \<Rightarrow> RwlReplicaFinishedRequestReply" where
  "finish_reply ret = \<lparr>type_of = (if ret \<noteq> 0 then RWL_REPLICA_FINISHED_FAILED else RWL_REPLICA_FINISHED_SUCCCESSED)\<rparr>"

lemma close_and_remove_clears:
  "MemoryManager_close_and_remove e m tr = (ret, m', tr') \<Longrightarrow>
     mm_data m' = None \<and> (\<forall>a. mm_data m = Some a \<longrightarrow> live_blocks tr' a = None)"
  by (auto simp: MemoryManager_close_and_remove_def mm_release_def env_simps split: option.splits)

lemma get_descriptor_finish:
  assumes c: "ceph_encoding c"
    and rq: "recv_bl h = RwlReplicaRequest_encode c \<lparr>type_of = RWL_REPLICA_FINISHED_REQUEST\<rparr> @ rest"
    and cl: "MemoryManager_close_and_remove e (data_manager h) (unique_delete RpmaMRDeleter (data_mr h) tr) = (ret, m, tr1)"
  shows "\<exists>h1 r p. RPMAHandler_get_descriptor e c junk h tr
      = (Inr 0, h1, tr1 @ [Post (Ev_send (rc_conn (ch_conn h)) (send_mr h) 0 msg_len RPMA_F_COMPLETION_ALWAYS (Some p) r)]) \<and>
      data_mr h1 = None \<and> data_manager h1 = m \<and> ch_conn h1 = ch_conn h \<and> send_mr h1 = send_mr h \<and>
      send_bl h1 = memcpy (send_bl h) (RwlReplicaRequest_encode c (finish_reply ret)) (length (RwlReplicaRequest_encode c (finish_reply ret)))"
proof -
  let ?reply = "RwlReplicaRequest_encode c (finish_reply ret)"
  let ?h3 = "h\<lparr>data_mr := None, data_manager := m, send_bl := memcpy (send_bl h) ?reply (length ?reply)\<rparr>"
  have req: "RwlReplicaRequest_decode c (recv_bl h) = Some (\<lparr>type_of = RWL_REPLICA_FINISHED_REQUEST\<rparr>, rest)"
    using ceph_encoding.request_roundtrip [OF c] rq by simp
  have len: "length ?reply < MSG_SIZE"
    by (simp add: ceph_encoding.request_length [OF c] MSG_SIZE_def)
  obtain r4 h4 tr3 where s: "ConnectionHandler_send e No_callback ?h3 tr1 = (r4, h4, tr3)"
    by (metis prod_cases3)
  obtain r where "tr3 = tr1 @ [Post (Ev_send (rc_conn (ch_conn ?h3)) (send_mr ?h3) 0 msg_len RPMA_F_COMPLETION_ALWAYS (Some (op_next ?h3)) r)]"
    using send_trace [of e No_callback ?h3 tr1] s by auto
  moreover have "RPMAHandler_get_descriptor e c junk h tr = (Inr 0, h4, tr3)"
    using req len s cl
    by (simp add: RPMAHandler_get_descriptor_def RPMAHandler_close_def finish_reply_def put_message_def
        Let_def rwl_types)
  ultimately show ?thesis
    using send_frame [OF s] by simp
qed

text \<open>What the handler and its send buffer are after a finish request.\<close>

lemma finish_answer:
  assumes c: "ceph_encoding c"
    and rq: "recv_bl h = RwlReplicaRequest_encode c \<lparr>type_of = RWL_REPLICA_FINISHED_REQUEST\<rparr> @ rest"
    and cl: "MemoryManager_close_and_remove e (data_manager h) (unique_delete RpmaMRDeleter (data_mr h) tr) = (ret, m, tr1)"
  shows "\<exists>h' evs. RPMAHandler_deal_require e c junk h tr = (Inr (), h', tr1 @ evs) \<and>
           data_mr h' = None \<and> mm_data (data_manager h') = None \<and>
           (\<forall>a. mm_data (data_manager h) = Some a \<longrightarrow> live_blocks (tr1 @ evs) a = None) \<and>
           send_bl h' = RwlReplicaRequest_encode c (finish_reply ret) @ drop 10 (send_bl h)"
proof -
  obtain h1 r p where g: "RPMAHandler_get_descriptor e c junk h tr
      = (Inr 0, h1, tr1 @ [Post (Ev_send (rc_conn (ch_conn h)) (send_mr h) 0 msg_len RPMA_F_COMPLETION_ALWAYS (Some p) r)])"
    and h1: "data_mr h1 = None" "data_manager h1 = m"
      "send_bl h1 = memcpy (send_bl h) (RwlReplicaRequest_encode c (finish_reply ret)) (length (RwlReplicaRequest_encode c (finish_reply ret)))"
    using get_descriptor_finish [OF c rq cl] by blast
  have "send_bl h1 = RwlReplicaRequest_encode c (finish_reply ret) @ drop 10 (send_bl h)"
    unfolding h1 memcpy_all by (simp add: ceph_encoding.request_length [OF c])
  then show ?thesis
    using deal_require_tail [OF g] h1 close_and_remove_clears [OF cl] by fastforce
qed

text \<open>
  C23: A finish request gives everything up: the registration is dropped before the memory is
  released, the memory is released whatever becomes of the file, and the send buffer starts with
  a reply that reports whether the file could be removed. A region that fell back to heap memory
  has no file, so its client is told \<open>RWL_REPLICA_FINISHED_FAILED\<close> although the release
  succeeded.
\<close>

theorem server_answers_finish:
  assumes c: "ceph_encoding c"
    and rq: "recv_bl h = RwlReplicaRequest_encode c \<lparr>type_of = RWL_REPLICA_FINISHED_REQUEST\<rparr> @ rest"
    and cl: "MemoryManager_close_and_remove e (data_manager h) (unique_delete RpmaMRDeleter (data_mr h) tr) = (ret, m, tr1)"
  shows "\<exists>h' evs. RPMAHandler_deal_require e c junk h tr = (Inr (), h', tr1 @ evs) \<and>
           data_mr h' = None \<and> mm_data (data_manager h') = None \<and>
           (\<forall>a. mm_data (data_manager h) = Some a \<longrightarrow> live_blocks (tr1 @ evs) a = None) \<and>
           RwlReplicaRequest_decode c (send_bl h') = Some (finish_reply ret, drop 10 (send_bl h))"
  using finish_answer [OF c rq cl, of junk] by (auto simp: ceph_encoding.request_roundtrip [OF c])

text \<open>The demonstration environment without persistent memory, where removing a file fails.\<close>

definition no_pmem_env :: env where
  "no_pmem_env = server_env\<lparr>mem_of := (mem_of dram_env)\<lparr>e_remove := (\<lambda>tr p. -1)\<rparr>\<rparr>"

theorem server_answers_finish_witness:
  "\<exists>h' tr' tl. RPMAHandler_deal_require no_pmem_env ceph_le 0
       ((waiting_server demo_finish_msg)\<lparr>data_mr := Some 7,
          data_manager := \<lparr>mm_data = Some 42, mm_size = 64, mm_is_pmem = False, mm_path = ''/mnt/pmem/f''\<rparr>\<rparr>) []
       = (Inr (), h', tr') \<and> data_mr h' = None \<and> live_blocks tr' 42 = None \<and>
     RwlReplicaRequest_decode ceph_le (send_bl h') = Some (\<lparr>type_of = RWL_REPLICA_FINISHED_FAILED\<rparr>, tl)"
proof -
  let ?h = "(waiting_server demo_finish_msg)\<lparr>data_mr := Some 7,
          data_manager := \<lparr>mm_data = Some 42, mm_size = 64, mm_is_pmem = False, mm_path = ''/mnt/pmem/f''\<rparr>\<rparr>"
  obtain ret m tr1 where cl: "MemoryManager_close_and_remove no_pmem_env (data_manager ?h)
      (unique_delete RpmaMRDeleter (data_mr ?h) []) = (ret, m, tr1)"
    by (metis prod_cases3)
  then have "ret = -1"
    by (auto simp: MemoryManager_close_and_remove_def no_pmem_env_def env_simps)
  then show ?thesis
    using server_answers_finish [OF ceph_le.ceph_encoding_axioms _ cl, of "[]" 0]
    by (auto simp: finish_reply_def)
qed

text \<open>
  The reply to a finish request is posted twice: once by \<open>close\<close> with an operation
  object of its own and once more by \<open>deal_require\<close>, both from the whole send buffer.
\<close>

theorem server_finish_replies_twice:
  assumes c: "ceph_encoding c"
    and rq: "recv_bl h = RwlReplicaRequest_encode c \<lparr>type_of = RWL_REPLICA_FINISHED_REQUEST\<rparr> @ rest"
    and run: "RPMAHandler_deal_require e c junk h tr = (r, h', tr')"
    and old: "\<not> (\<exists>ev \<in> set tr. is_send ev)"
  shows "\<exists>p r1 r2. filter is_send tr'
    = [Post (Ev_send (rc_conn (ch_conn h)) (send_mr h) 0 msg_len RPMA_F_COMPLETION_ALWAYS (Some p) r1),
       Post (Ev_send (rc_conn (ch_conn h)) (send_mr h) 0 msg_len RPMA_F_COMPLETION_ALWAYS None r2)]"
proof -
  obtain ret m tr1 where cl: "MemoryManager_close_and_remove e (data_manager h)
      (unique_delete RpmaMRDeleter (data_mr h) tr) = (ret, m, tr1)"
    by (metis prod_cases3)
  have "filter is_send tr1 = []"
    using cl old
    by (auto simp: MemoryManager_close_and_remove_def mm_release_def RpmaMRDeleter_def unique_delete_def
        is_send_def env_simps filter_empty_conv split: option.splits)
  moreover obtain h1 r0 p where g: "RPMAHandler_get_descriptor e c junk h tr
      = (Inr 0, h1, tr1 @ [Post (Ev_send (rc_conn (ch_conn h)) (send_mr h) 0 msg_len RPMA_F_COMPLETION_ALWAYS (Some p) r0)])"
    and h1: "ch_conn h1 = ch_conn h" "send_mr h1 = send_mr h"
    using get_descriptor_finish [OF c rq cl] by blast
  ultimately show ?thesis
    using deal_require_tail [OF g] run h1 by (auto simp: is_send_def)
qed

theorem server_finish_replies_twice_witness:
  "\<exists>r h' tr'. RPMAHandler_deal_require server_env ceph_le 0 (waiting_server demo_finish_msg) [] = (r, h', tr') \<and>
     length (filter is_send tr') = 2"
proof -
  obtain r h' tr' where run: "RPMAHandler_deal_require server_env ceph_le 0 (waiting_server demo_finish_msg) [] = (r, h', tr')"
    by (metis prod_cases3)
  then show ?thesis
    using server_finish_replies_twice [OF ceph_le.ceph_encoding_axioms _ run, of "[]"] by auto
qed

subsection \<open>Requests that cannot be served\<close>

lemma register_mr_reply:
  assumes "RPMAHandler_register_mr_to_descriptor e c junk opk h tr = (Inr v, h', tr')"
  shows "if v = 0 then \<exists>rep. type_of rep = RWL_REPLICA_INIT_SUCCESSED \<and>
           send_bl h' = memcpy (send_bl h) (RwlReplicaInitRequestReply_encode c rep) (length (RwlReplicaInitRequestReply_encode c rep))
         else send_bl h' = send_bl h"
  using assms
  by (auto simp: RPMAHandler_register_mr_to_descriptor_def put_message_def append_pcfg_def build_descriptor_def
      put_descriptor_def Let_def map_sum_def split: prod.splits if_splits sum.splits option.splits intro!: exI)

definition served_reply :: "ceph_codec \<Rightarrow> bytes \<Rightarrow> bool" where
  "served_reply c bl \<longleftrightarrow>
     (\<exists>rep. type_of rep = RWL_REPLICA_INIT_SUCCESSED \<and> bl = RwlReplicaInitRequestReply_encode c rep) \<or>
     (\<exists>ret. bl = RwlReplicaRequest_encode c (finish_reply ret))"

lemma served_replyI:
  "type_of rep = RWL_REPLICA_INIT_SUCCESSED \<Longrightarrow> served_reply c (RwlReplicaInitRequestReply_encode c rep)"
  "served_reply c (RwlReplicaRequest_encode c (finish_reply ret))"
  by (auto simp: served_reply_def)

lemma close_reply:
  assumes "RPMAHandler_close e c h tr = (Inr v, h', tr')"
  shows "v = 0 \<and> (\<exists>ret. send_bl h' = memcpy (send_bl h) (RwlReplicaRequest_encode c (finish_reply ret))
           (length (RwlReplicaRequest_encode c (finish_reply ret))))"
proof -
  obtain ret m tr2 where cl: "MemoryManager_close_and_remove e (data_manager h)
      (unique_delete RpmaMRDeleter (data_mr h) tr) = (ret, m, tr2)"
    by (metis prod_cases3)
  obtain r3 h3 where pm: "put_message (RwlReplicaRequest_encode c (finish_reply ret))
      (h\<lparr>data_mr := None, data_manager := m\<rparr>) = (r3, h3)"
    by (metis prod.exhaust)
  obtain r4 h4 tr3 where s: "ConnectionHandler_send e No_callback h3 tr2 = (r4, h4, tr3)"
    by (metis prod_cases3)
  have "r3 = Inr ()" and "v = 0" and "h' = h4"
    using assms cl pm s by (auto simp: RPMAHandler_close_def Let_def finish_reply_def split: sum.splits)
  with pm send_frame [OF s] show ?thesis
    by (auto simp: put_message_def split: if_splits)
qed

lemma get_descriptor_reply:
  assumes "RPMAHandler_get_descriptor e c junk h tr = (Inr v, h', tr')"
  shows "if v = 0 then \<exists>bl. served_reply c bl \<and> send_bl h' = memcpy (send_bl h) bl (length bl)
         else send_bl h' = send_bl h"
  using assms
  by (auto simp: RPMAHandler_get_descriptor_def RPMAHandler_get_descriptor_for_write_def Let_def
      split: option.splits prod.splits if_splits sum.splits
      dest!: register_mr_reply close_reply intro: served_replyI)
    (metis served_replyI(1))+



text \<open>
  A request for memory that neither the file nor the heap can provide is not answered at
  all: the exception of \<open>MemoryManager::init\<close> leaves \<open>deal_require\<close> before anything
  is posted, so the connection has neither a reply nor a receive for its next request.
\<close>

theorem server_out_of_memory_throws:
  assumes c: "ceph_encoding c"
    and rq: "recv_bl h = RwlReplicaInitRequest_encode c \<lparr>type_of = RWL_REPLICA_INIT_REQUEST, info = i\<rparr> @ rest"
    and small: "36 + length (pool_name i) + length (image_name i) < 2 ^ 32"
    and none: "mm_data (data_manager h) = None"
    and init: "MemoryManager_init e (cache_size i) (replica_path i) (data_manager h) tr = (Inl f, m, tr1)"
  shows "RPMAHandler_deal_require e c junk h tr
           = (Inl (Runtime_error ''memory malloc failed''), h\<lparr>data_manager := m\<rparr>, tr1) \<and>
         filter is_send tr1 = filter is_send tr"
proof -
  have f: "f = Runtime_error ''memory malloc failed''" by (rule init_failure [OF init])
  have "filter is_send tr1 = filter is_send tr"
    using init by (auto simp: mm_defs env_simps is_send_def Let_def split: prod.splits if_splits option.splits)
  then show ?thesis
    using get_descriptor_init [OF c rq small none init, of junk] f
    by (simp add: RPMAHandler_deal_require_def)
qed

definition full_env :: env where
  "full_env = server_env\<lparr>mem_of := (mem_of dram_env)\<lparr>e_malloc := (\<lambda>tr n. None)\<rparr>\<rparr>"

theorem server_out_of_memory_throws_witness:
  "\<exists>h' tr'. RPMAHandler_deal_require full_env ceph_le 0 (waiting_server demo_init_msg) []
     = (Inl (Runtime_error ''memory malloc failed''), h', tr') \<and> filter is_send tr' = []"
proof -
  let ?h = "waiting_server demo_init_msg"
  obtain r m tr1 where i: "MemoryManager_init full_env (cache_size demo_info) (replica_path demo_info)
      (data_manager ?h) [] = (r, m, tr1)"
    by (metis prod_cases3)
  obtain f where "r = Inl f"
    using i by (auto simp: mm_defs full_env_def dram_env_def demo_env_def demo_mem_def env_simps Let_def
        split: if_splits prod.splits)
  then show ?thesis
    using server_out_of_memory_throws [OF ceph_le.ceph_encoding_axioms, of ?h demo_info "[]" full_env "[]" f m tr1 0] i
    by (simp add: demo_info_def)
qed

subsection \<open>The file behind a region\<close>

fun dec_value :: "string \<Rightarrow> nat" where
  "dec_value s = foldl (\<lambda>v ch. 10 * v + (of_char ch - 48)) 0 s"

lemma dec_value_digits: "dec_value (dec_digits n) = n"
proof (induction n rule: dec_digits.induct)
  case (1 n)
  then show ?case
    by (subst dec_digits.simps) auto
qed

lemma dec_digits_inj: "dec_digits m = dec_digits n \<Longrightarrow> m = n"
  by (metis dec_value_digits)

lemma split_at_char:
  assumes "xs @ ch # us = ys @ ch # vs" and "ch \<notin> set xs" and "ch \<notin> set ys"
  shows "xs = ys \<and> us = vs"
proof -
  have "takeWhile (\<lambda>x. x \<noteq> ch) (xs @ ch # us) = xs" and "takeWhile (\<lambda>x. x \<noteq> ch) (ys @ ch # vs) = ys"
    using assms(2,3) by (auto simp: takeWhile_append2 takeWhile_tail)
  with assms(1) show ?thesis by simp
qed



end
