(* ===== verification/Api_Usage.thy ===== *)
theory Api_Usage
  imports Contracts Resources Server_Session
begin

text \<open>
  How the server uses librpma: with a library that answers as its manual pages say, a server
  connection passes no argument that the pages refuse, and a constructed handler holds every
  object its operations need.
\<close>

subsection \<open>Legal runs\<close>

abbreviation legal_run :: "trace \<Rightarrow> trace \<Rightarrow> bool" where
  "legal_run \<equiv> appends legal_call"

lemmas legal_trans = appends_trans [where P = legal_call]
lemmas legal_snoc = appends_snoc [where P = legal_call]

text \<open>The objects a handler needs for its operations exist; a region it holds is not empty.\<close>

definition handler_complete :: "RPMAHandler \<Rightarrow> bool" where
  "handler_complete h \<longleftrightarrow>
     ch_peer h \<noteq> None \<and> rc_conn (ch_conn h) \<noteq> None \<and> send_mr h \<noteq> None \<and> recv_mr h \<noteq> None \<and>
     (mm_data (data_manager h) \<noteq> None \<longrightarrow> mm_size (data_manager h) \<noteq> 0)"

lemma legal_unique [simp]:
  "legal_run tr (unique_delete RpmaMRDeleter x tr)" "legal_run tr (unique_delete RpmaPeerDeleter x tr)"
  by (cases x; simp add: RpmaMRDeleter_def RpmaPeerDeleter_def env_simps man_defs)+

lemma legal_base_destroy:
  assumes "ConnectionHandler_destroy e h tr = (r, h', tr')"
  shows "legal_run tr tr'"
proof -
  let ?tr1 = "unique_delete RpmaMRDeleter (recv_mr h) tr"
  let ?tr2 = "unique_delete RpmaMRDeleter (send_mr h) ?tr1"
  have "legal_run tr ?tr2" by (rule legal_trans [of _ ?tr1]) simp_all
  moreover have "legal_run t t'" if "RpmaConn_destroy e x t = (x', t')" for x t x' t'
    using that by (auto simp: RpmaConn_destroy_def env_simps man_defs split: option.splits)
  ultimately show ?thesis
    using assms by (auto simp: ConnectionHandler_destroy_def split: if_splits prod.splits intro: legal_trans)
qed

lemma legal_mm:
  "MemoryManager_destroy m tr = (m', tr') \<Longrightarrow> legal_run tr tr'"
  "MemoryManager_close_and_remove e m tr = (ret, m', tr') \<Longrightarrow> legal_run tr tr'"
  "MemoryManager_init e sz path m tr = (r, m', tr') \<Longrightarrow> legal_run tr tr'"
  by (auto simp: MemoryManager_destroy_def MemoryManager_close_and_remove_def mm_defs mm_release_def env_simps
      Let_def split: option.splits prod.splits if_splits)

lemma legal_destroy: "RPMAHandler_destroy e h tr = (r, h', tr') \<Longrightarrow> legal_run tr tr'"
  by (auto simp: RPMAHandler_destroy_def split: prod.splits
      dest!: legal_base_destroy legal_mm(1) intro: legal_trans legal_trans [OF legal_unique(1)])

lemma legal_ctor_throw: "legal_run tr0 tr \<Longrightarrow> legal_run tr0 (snd (ctor_throw e f h tr))"
  by (auto simp: ctor_throw_def split: prod.splits dest: legal_destroy intro: legal_trans)

subsection \<open>Construction\<close>

lemma legal_buffers:
  assumes doc: "documented e" and peer: "ch_peer h \<noteq> None"
    and run: "ConnectionHandler_init_send_recv_buffer e h tr = (r, h', tr')"
  shows "legal_run tr tr' \<and> ch_peer h' = ch_peer h \<and> (r = Inr () \<longrightarrow> send_mr h' \<noteq> None \<and> recv_mr h' \<noteq> None)"
proof -
  have len: "msg_len \<noteq> 0" by (simp add: msg_len_def MSG_SIZE_def)
  obtain a content where b1: "e_bufferptr (mem_of e) tr MSG_SIZE = (a, content)" by (metis prod.exhaust)
  let ?tr1 = "tr @ [Mem (Ev_bufferptr MSG_SIZE (a, content))]"
  obtain ret mr where m1: "e_mr_reg (mr_of e) ?tr1 (ch_peer h) (Some a) msg_len RPMA_MR_USAGE_RECV = (ret, mr)"
    by (metis prod.exhaust)
  let ?tr2 = "?tr1 @ [Mr (Ev_mr_reg (ch_peer h) (Some a) msg_len RPMA_MR_USAGE_RECV (ret, mr))]"
  let ?tr3 = "unique_delete RpmaMRDeleter (recv_mr h) ?tr2"
  obtain b content2 where b2: "e_bufferptr (mem_of e) ?tr3 MSG_SIZE = (b, content2)" by (metis prod.exhaust)
  let ?tr4 = "?tr3 @ [Mem (Ev_bufferptr MSG_SIZE (b, content2))]"
  obtain ret2 mr2 where m2: "e_mr_reg (mr_of e) ?tr4 (ch_peer h) (Some b) msg_len RPMA_MR_USAGE_SEND = (ret2, mr2)"
    by (metis prod.exhaust)
  let ?tr5 = "?tr4 @ [Mr (Ev_mr_reg (ch_peer h) (Some b) msg_len RPMA_MR_USAGE_SEND (ret2, mr2))]"
  have l2: "legal_run tr ?tr2" using peer len by (simp add: man_defs)
  have "legal_run tr ?tr3" by (rule legal_trans [OF l2]) simp
  then have l5: "legal_run tr ?tr5" using peer len by (intro legal_snoc) (simp_all add: man_defs)
  have l6: "legal_run tr (unique_delete RpmaMRDeleter (send_mr h) ?tr5)" by (rule legal_trans [OF l5]) simp
  have mr: "ret = 0 \<Longrightarrow> mr \<noteq> None" "ret2 = 0 \<Longrightarrow> mr2 \<noteq> None"
    using documentedD(1) [OF doc] m1 m2 by blast+
  show ?thesis
    using run b1 m1 b2 m2 l2 l5 l6 mr
    by (auto simp: ConnectionHandler_init_send_recv_buffer_def env_simps Let_def simp del: appends_append split: if_splits)
qed

lemma legal_conn_fd:
  assumes "rc_conn (ch_conn h) \<noteq> None" and "ConnectionHandler_init_conn_fd e h tr = (r, h', tr')"
  shows "legal_run tr tr' \<and> ch_peer h' = ch_peer h \<and> ch_conn h' = ch_conn h \<and> send_mr h' = send_mr h \<and>
         recv_mr h' = recv_mr h \<and> RPMAHandler.more h' = RPMAHandler.more h \<and> data_manager h' = data_manager h"
  using assms
  by (auto simp: ConnectionHandler_init_conn_fd_def env_simps obj_defs man_defs Let_def
      split: if_splits option.splits prod.splits)

lemma settle_same [simp]:
  "ch_peer (settle_op p ret h) = ch_peer h" "ch_conn (settle_op p ret h) = ch_conn h"
  "send_mr (settle_op p ret h) = send_mr h" "recv_mr (settle_op p ret h) = recv_mr h"
  "data_manager (settle_op p ret k) = data_manager k"
  by (simp_all add: settle_op_def delete_op_def)

lemma new_op_same:
  "new_op k cb h = (p, h') \<Longrightarrow> ch_peer h' = ch_peer h \<and> ch_conn h' = ch_conn h \<and> send_mr h' = send_mr h \<and> recv_mr h' = recv_mr h"
  "new_op k cb x = (p, x') \<Longrightarrow> data_manager x' = data_manager x"
  by (auto simp: new_op_def)

lemma buffers_manager:
  "ConnectionHandler_init_send_recv_buffer e h tr = (r, h', tr') \<Longrightarrow> data_manager h' = data_manager h"
  by (auto simp: ConnectionHandler_init_send_recv_buffer_def Let_def split: prod.splits if_splits)

definition new_legal :: "trace \<Rightarrow> RPMAHandler result \<times> trace \<Rightarrow> bool" where
  "new_legal tr x \<longleftrightarrow> legal_run tr (snd x) \<and> (\<forall>h. fst x = Inr h \<longrightarrow> handler_complete h)"

lemma new_legal_throw: "legal_run tr0 tr \<Longrightarrow> new_legal tr0 (ctor_throw e f h tr)"
  using legal_ctor_throw [of tr0 tr e f h] by (auto simp: new_legal_def ctor_throw_def split: prod.splits)

lemma new_legal_reject:
  "legal_run tr0 tr \<Longrightarrow> new_legal tr0 (ctor_throw e f h (tr @ [Setup (Ev_conn_req_delete x)]))"
  by (intro new_legal_throw legal_snoc) (simp_all add: man_defs)

lemma new_legal_done: "legal_run tr0 tr \<Longrightarrow> handler_complete h \<Longrightarrow> new_legal tr0 (Inr h, tr)"
  by (simp add: new_legal_def)

lemma new_handler_legal:
  assumes doc: "documented e" and peer: "peer \<noteq> None" and ep: "ep \<noteq> None"
  shows "new_legal tr0 (RPMAHandler_new e j1 j2 jsz peer ep tr0)"
proof -
  let ?h0 = "(RPMAHandler_default j1 j2 jsz)\<lparr>ch_peer := peer\<rparr>"
  have m0: "mm_data (data_manager ?h0) = None"
    by (simp add: RPMAHandler_default_def MemoryManager_default_def ConnectionHandler.extend_def)
  obtain r1 h1 tr1 where b: "ConnectionHandler_init_send_recv_buffer e ?h0 tr0 = (r1, h1, tr1)" by (metis prod_cases3)
  have "ch_peer ?h0 \<noteq> None" using peer by simp
  note h1 = legal_buffers [OF doc this b] buffers_manager [OF b]
  obtain ret req tr2 where q: "rpma_ep_next_conn_req e ep tr1 = ((ret, req), tr2)" by (metis prod.exhaust)
  obtain p h2 where n: "new_op RpmaReqRecv Deal_require h1 = (p, h2)" by (metis prod.exhaust)
  obtain ret2 tr3 where v: "RpmaReqRecv_call e req (recv_mr h2) 0 msg_len (Some p) tr2 = (ret2, tr3)"
    by (metis prod.exhaust)
  obtain ret3 req2 conn tr4 where k: "rpma_conn_req_connect e req tr3 = ((ret3, req2, conn), tr4)"
    by (metis prod_cases3 prod.exhaust)
  let ?h4 = "(settle_op p ret2 h2)\<lparr>ch_conn := RpmaConn_reset conn (ch_conn (settle_op p ret2 h2))\<rparr>"
  obtain r5 h5 tr5 where f: "ConnectionHandler_init_conn_fd e ?h4 tr4 = (r5, h5, tr5)" by (metis prod_cases3)
  have l1: "legal_run tr0 tr1" using h1 by simp
  have l2: "legal_run tr0 tr2" using legal_snoc [OF l1] q ep by (auto simp: env_simps man_defs)
  have req: "ret = 0 \<Longrightarrow> req \<noteq> None" using q documentedD(3) [OF doc] by (auto simp: env_simps)
  have l3: "legal_run tr0 tr3" if "r1 = Inr ()" "ret = 0"
    using legal_snoc [OF l2] v req that h1 new_op_same(1) [OF n] by (auto simp: env_simps man_defs)
  have l4: "legal_run tr0 tr4" if "r1 = Inr ()" "ret = 0"
    using legal_snoc [OF l3 [OF that]] k req that by (auto simp: env_simps man_defs)
  have conn: "ret3 = 0 \<Longrightarrow> conn \<noteq> None" using k documentedD(4) [OF doc] by (auto simp: env_simps)
  have l5: "legal_run tr0 tr5 \<and> handler_complete h5" if "r1 = Inr ()" "ret = 0" "ret3 = 0"
  proof -
    have "rc_conn (ch_conn ?h4) \<noteq> None" using conn that by (simp add: RpmaConn_reset_def)
    from legal_conn_fd [OF this f] legal_trans [OF l4 [OF that(1,2)]] h1 that new_op_same [OF n] m0 peer conn
    show ?thesis by (auto simp: handler_complete_def RpmaConn_reset_def)
  qed
  show ?thesis
    using l1 l2 l3 l4 l5 v k f
    by (cases r1; cases "ret = 0"; cases "ret2 = 0"; cases "ret3 = 0"; cases r5)
      (simp_all add: RPMAHandler_new_def b q n Let_def new_legal_throw new_legal_reject new_legal_done log_event_def)
qed

subsection \<open>Requests\<close>

lemma legal_post:
  assumes "rc_conn (ch_conn h) \<noteq> None"
  shows "send_mr h \<noteq> None \<Longrightarrow> ConnectionHandler_send e cb h tr = (ret, h', tr') \<Longrightarrow> legal_run tr tr'"
    and "recv_mr h \<noteq> None \<Longrightarrow> ConnectionHandler_recv e cb h tr = (ret, h', tr') \<Longrightarrow> legal_run tr tr'"
  using assms
  by (auto simp: ConnectionHandler_send_def ConnectionHandler_recv_def new_op_def env_simps obj_defs man_defs
      completion_always)

lemma post_complete:
  assumes "handler_complete h"
  shows "ConnectionHandler_send e cb h tr = (ret, h', tr') \<Longrightarrow> handler_complete h'"
    and "ConnectionHandler_recv e cb h tr = (ret, h', tr') \<Longrightarrow> handler_complete h'"
  using assms
  by (auto simp: ConnectionHandler_send_def ConnectionHandler_recv_def new_op_def handler_complete_def split: prod.splits)

text \<open>The program does not look at the return code of \<open>rpma_peer_cfg_new\<close>.\<close>

definition peer_cfg_available :: "env \<Rightarrow> bool" where
  "peer_cfg_available e \<longleftrightarrow> (\<forall>tr. fst (e_peer_cfg_new (mr_of e) tr) = 0)"

lemma legal_pcfg:
  assumes "documented e" and "peer_cfg_available e" and "append_pcfg e pm sz ds tr = (r, tr')"
  shows "legal_run tr tr'"
proof -
  obtain ret pcfg where n: "e_peer_cfg_new (mr_of e) tr = (ret, pcfg)" by (metis prod.exhaust)
  with assms(2) have "ret = 0" unfolding peer_cfg_available_def by (metis fst_conv)
  with n documentedD(2) [OF assms(1)] have "pcfg \<noteq> None" by blast
  with n assms(3) show ?thesis
    by (auto simp: append_pcfg_def env_simps man_defs Let_def split: prod.splits if_splits sum.splits)
qed

lemma legal_build:
  assumes "documented e" and "peer_cfg_available e" and "mr \<noteq> None"
    and "build_descriptor e junk opk pm mr tr = (r, tr')"
  shows "legal_run tr tr'"
  using assms(3,4)
  by (auto simp: build_descriptor_def env_simps man_defs Let_def split: prod.splits if_splits sum.splits
      dest!: legal_pcfg [OF assms(1,2)] intro: legal_trans [rotated])

lemma put_message_complete: "handler_complete h \<Longrightarrow> put_message bl h = (r, h') \<Longrightarrow> handler_complete h'"
  by (auto simp: put_message_def handler_complete_def split: if_splits)

lemma legal_register:
  assumes "documented e" and "peer_cfg_available e" and h: "handler_complete h" and d: "mm_data (data_manager h) \<noteq> None"
    and run: "RPMAHandler_register_mr_to_descriptor e c junk opk h tr = (r, h', tr')"
  shows "legal_run tr tr' \<and> handler_complete h'"
proof -
  let ?m = "data_manager h"
  let ?u = "mr_usage opk (mm_is_pmem ?m)"
  obtain ret mr where reg: "e_mr_reg (mr_of e) tr (ch_peer h) (mm_data ?m) (mm_size ?m) ?u = (ret, mr)" by (metis prod.exhaust)
  let ?tr1 = "tr @ [Mr (Ev_mr_reg (ch_peer h) (mm_data ?m) (mm_size ?m) ?u (ret, mr))]"
  let ?tr2 = "unique_delete RpmaMRDeleter (data_mr h) ?tr1"
  obtain x tr3 where bd: "build_descriptor e junk opk (mm_is_pmem ?m) mr ?tr2 = (x, tr3)" by (metis prod.exhaust)
  have l1: "legal_run tr ?tr1" using h d by (simp add: handler_complete_def man_defs)
  have l2: "legal_run tr ?tr2" by (rule legal_trans [OF l1]) simp
  have l3: "legal_run tr tr3" if "ret = 0"
  proof -
    have "mr \<noteq> None" using documentedD(1) [OF assms(1)] reg that by blast
    from legal_build [OF assms(1,2) this bd] show ?thesis by (rule legal_trans [OF l2])
  qed
  have hc: "handler_complete (h\<lparr>data_mr := mr\<rparr>)" using h by (simp add: handler_complete_def)
  show ?thesis
    using run reg bd l1 l3 h hc put_message_complete [OF hc]
    by (auto simp: RPMAHandler_register_mr_to_descriptor_def MemoryManager_get_pointer_def env_simps Let_def
        simp del: appends_append split: if_splits sum.splits prod.splits)
qed

lemma legal_close:
  assumes h: "handler_complete h" and run: "RPMAHandler_close e c h tr = (r, h', tr')"
  shows "legal_run tr tr' \<and> handler_complete h'"
proof -
  let ?tr1 = "unique_delete RpmaMRDeleter (data_mr h) tr"
  obtain ret m tr2 where cl: "MemoryManager_close_and_remove e (data_manager h) ?tr1 = (ret, m, tr2)" by (metis prod_cases3)
  have "mm_data m = None" using close_and_remove_clears [OF cl] by simp
  then have h2: "handler_complete (h\<lparr>data_mr := None, data_manager := m\<rparr>)" using h by (simp add: handler_complete_def)
  have l2: "legal_run tr tr2" by (rule legal_trans [OF legal_unique(1) legal_mm(2) [OF cl]])
  obtain r3 h3 where pm: "put_message (RwlReplicaRequest_encode c (finish_reply ret)) (h\<lparr>data_mr := None, data_manager := m\<rparr>) = (r3, h3)"
    by (metis prod.exhaust)
  have h3: "handler_complete h3" by (rule put_message_complete [OF h2 pm])
  obtain r4 h4 tr3 where s: "ConnectionHandler_send e No_callback h3 tr2 = (r4, h4, tr3)" by (metis prod_cases3)
  have "legal_run tr tr3" using h3 by (intro legal_trans [OF l2 legal_post(1) [OF _ _ s]]) (auto simp: handler_complete_def)
  with l2 h3 post_complete(1) [OF h3 s] run cl pm s show ?thesis
    by (auto simp: RPMAHandler_close_def finish_reply_def split: sum.splits)
qed

text \<open>The requests that ask for a region of no bytes are the ones that lead to a refused call.\<close>

definition asks_for_bytes :: "ceph_codec \<Rightarrow> bytes \<Rightarrow> bool" where
  "asks_for_bytes c bl \<longleftrightarrow>
     (case RwlReplicaInitRequest_decode c bl of None \<Rightarrow> True | Some (init, _) \<Rightarrow> cache_size (info init) \<noteq> 0)"

lemma init_size: "MemoryManager_init e sz path m tr = (Inr x, m', tr') \<Longrightarrow> mm_size m' = sz \<and> mm_data m' \<noteq> None"
  by (auto simp: mm_defs Let_def split: prod.splits if_splits option.splits)

lemma init_none: "MemoryManager_init e sz path m tr = (Inl f, m', tr') \<Longrightarrow> mm_data m' = None"
  by (auto simp: mm_defs Let_def split: prod.splits if_splits option.splits)

lemma legal_get_descriptor:
  assumes doc: "documented e" "peer_cfg_available e" and h: "handler_complete h" and bytes: "asks_for_bytes c (recv_bl h)"
    and run: "RPMAHandler_get_descriptor e c junk h tr = (r, h', tr')"
  shows "legal_run tr tr' \<and> handler_complete h'"
proof -
  have w: "legal_run tr tr' \<and> handler_complete h'"
    if "RPMAHandler_get_descriptor_for_write e c junk h tr = (r, h', tr')" "RwlReplicaInitRequest_decode c (recv_bl h) = Some (init, rest)" for init rest
  proof -
    obtain q m tr1 where i: "(if mm_data (data_manager h) = None
        then MemoryManager_init e (cache_size (info init)) (replica_path (info init)) (data_manager h) tr
        else (Inr (), data_manager h, tr)) = (q, m, tr1)" by (metis prod_cases3)
    have l1: "legal_run tr tr1" using i legal_mm(3) by (auto split: if_splits)
    have m: "q = Inr () \<Longrightarrow> mm_data m \<noteq> None" "handler_complete (h\<lparr>data_manager := m\<rparr>)"
      using i h bytes that(2) init_size init_none
      by (cases q; auto simp: handler_complete_def asks_for_bytes_def split: if_splits)+
    show ?thesis
      using that i l1 m legal_register [OF doc m(2)]
      by (cases q) (auto simp: RPMAHandler_get_descriptor_for_write_def MemoryManager_get_pointer_def Let_def intro: legal_trans)
  qed
  show ?thesis
    using run h w legal_close [OF h]
    by (auto simp: RPMAHandler_get_descriptor_def RPMAHandler_get_descriptor_for_write_def split: option.splits if_splits)
qed

lemma legal_deal_require:
  assumes doc: "documented e" "peer_cfg_available e" and h: "handler_complete h" and bytes: "asks_for_bytes c (recv_bl h)"
    and run: "RPMAHandler_deal_require e c junk h tr = (r, h', tr')"
  shows "legal_run tr tr' \<and> handler_complete h'"
proof -
  obtain q h1 tr1 where g: "RPMAHandler_get_descriptor e c junk h tr = (q, h1, tr1)" by (metis prod_cases3)
  note l1 = legal_get_descriptor [OF doc h bytes g]
  obtain ret h2 tr2 where v: "ConnectionHandler_recv e Deal_require h1 tr1 = (ret, h2, tr2)" by (metis prod_cases3)
  have l2: "legal_run tr tr2" and h2: "handler_complete h2"
    using l1 legal_post(2) [OF _ _ v] post_complete(2) [OF _ v] by (auto simp: handler_complete_def [of h1] intro: legal_trans)
  have "legal_call (Post (Ev_send (rc_conn (ch_conn h2)) (send_mr h2) 0 msg_len RPMA_F_COMPLETION_ALWAYS None x))" for x
    using h2 by (simp add: man_defs handler_complete_def completion_always)
  from legal_snoc [OF l2 this] l1 h2 run g v show ?thesis
    by (auto simp: RPMAHandler_deal_require_def env_simps obj_defs split: sum.splits)
qed

subsection \<open>Events\<close>

lemma complete_same [simp]:
  "handler_complete (h\<lparr>callback_table := B\<rparr>) = handler_complete h" "handler_complete (h\<lparr>op_heap := H\<rparr>) = handler_complete h"
  "handler_complete (h\<lparr>connected := b\<rparr>) = handler_complete h" "handler_complete (delete_op p h) = handler_complete h"
  "handler_complete (h\<lparr>ch_conn := c\<lparr>rc_disconnected := b\<rparr>\<rparr>) = handler_complete (h\<lparr>ch_conn := c\<rparr>)"
  by (simp_all add: handler_complete_def delete_op_def)

lemma legal_completion:
  assumes doc: "documented e" "peer_cfg_available e" and h: "handler_complete h" and bytes: "asks_for_bytes c (recv_bl h)"
    and run: "ConnectionHandler_handle_completion e (RPMAHandler_run e c junk) h tr = (r, h', tr')"
  shows "legal_run tr tr' \<and> handler_complete h'"
proof -
  have conn: "\<exists>x. rc_conn (ch_conn h) = Some x" using h by (auto simp: handler_complete_def)
  have cb: "legal_run t t' \<and> handler_complete h2"
    if "RpmaOp_do_callback (RPMAHandler_run e c junk) x (h\<lparr>callback_table := B\<rparr>) t = (q, h2, t')" for x B t q h2 t'
    using that h bytes legal_deal_require [OF doc, of "h\<lparr>callback_table := B\<rparr>" c junk t q h2 t']
    by (auto simp: RpmaOp_do_callback_def RPMAHandler_run_def split: if_splits)
  show ?thesis
    using run conn h
    by (auto simp: ConnectionHandler_handle_completion_def env_simps obj_defs man_defs Let_def
        split: if_splits option.splits prod.splits dest!: cb intro: legal_trans [rotated])
qed

lemma legal_remove: "remove_pair e i h ro tr = (ret, ro', tr') \<Longrightarrow> legal_run tr tr'"
  by (auto simp: remove_pair_def Reactor_remove_handler_def env_simps Let_def split: option.splits prod.splits if_splits)

lemma legal_connection_event:
  assumes h: "handler_complete h"
    and run: "ConnectionHandler_handle_connection_event e (RPMAHandler_remove_self e i) h ro tr = (ret, h', ro', tr')"
  shows "legal_run tr tr' \<and> handler_complete h'"
proof -
  have conn: "\<exists>x. rc_conn (ch_conn h) = Some x" using h by (auto simp: handler_complete_def)
  have rm: "legal_run t t'" if "RPMAHandler_remove_self e i h1 ro t = (q, ro1, t')" for h1 t q ro1 t'
    using that legal_remove by (simp add: RPMAHandler_remove_self_def)
  show ?thesis
    using run conn h
    by (auto simp: ConnectionHandler_handle_connection_event_def env_simps obj_defs man_defs Let_def
        split: if_splits prod.splits dest!: rm intro: legal_trans [rotated])
qed

subsection \<open>Properties\<close>

text \<open>The demonstration environment with the answers of the manual pages.\<close>

definition manual_env :: env where
  "manual_env = kernel_env\<lparr>setup_of := manual_setup, conn_of := manual_conn, mr_of := manual_mr, post_of := manual_post\<rparr>"

lemma manual_env_documented: "documented manual_env" "peer_cfg_available manual_env"
  by (rule manual_documented) (simp_all add: manual_env_def peer_cfg_available_def manual_mr_def made_def answer_def man_defs)

text \<open>
  With a library that answers as its manual pages say, the constructor of a server connection,
  given the acceptor's peer and endpoint, passes no argument that a page refuses on any of its
  paths, and when it does not throw, the new handler holds a connection and both registered
  buffers.
\<close>

theorem server_constructor_legal:
  assumes "documented e" and "peer \<noteq> None" and "ep \<noteq> None"
    and "RPMAHandler_new e j1 j2 jsz peer ep tr = (r, tr')"
  shows "(\<exists>evs. tr' = tr @ evs \<and> (\<forall>ev \<in> set evs. legal_call ev)) \<and>
         (case r of Inl f \<Rightarrow> True
          | Inr h \<Rightarrow> rc_conn (ch_conn h) \<noteq> None \<and> send_mr h \<noteq> None \<and> recv_mr h \<noteq> None \<and> ch_peer h \<noteq> None)"
  using new_handler_legal [OF assms(1-3), of tr j1 j2 jsz] assms(4)
  by (auto simp: new_legal_def appends_def handler_complete_def split: sum.splits)

theorem server_constructor_legal_witness:
  "\<exists>r tr'. RPMAHandler_new manual_env 0 0 0 (Some 1) (Some 2) [] = (r, tr') \<and> (\<forall>ev \<in> set tr'. legal_call ev)"
proof -
  obtain r tr' where n: "RPMAHandler_new manual_env 0 0 0 (Some 1) (Some 2) [] = (r, tr')" by (metis prod.exhaust)
  from server_constructor_legal [OF manual_env_documented(1) _ _ n] n show ?thesis by auto
qed

text \<open>
  C13: With a library that answers as its manual pages say and a peer configuration whenever one
  is asked for, a complete handler handles every event, whatever the client sent, without a call
  that its page refuses and stays complete; the only request that leads to a refused call is one
  for a region of no bytes.
\<close>

theorem server_calls_legal:
  assumes "documented e" and "peer_cfg_available e" and "handler_complete h" and "asks_for_bytes c (recv_bl h)"
    and "RPMAHandler_handle e c junk i et h ro tr = (r, h', ro', tr')"
  shows "\<exists>evs. tr' = tr @ evs \<and> (\<forall>ev \<in> set evs. legal_call ev) \<and> handler_complete h'"
proof -
  have "legal_run tr tr' \<and> handler_complete h'"
    using assms(3,5) legal_connection_event [OF assms(3)] legal_completion [OF assms(1-4)]
    by (auto simp: RPMAHandler_handle_def ConnectionHandler_handle_def split: if_splits prod.splits)
  then show ?thesis by (auto simp: appends_def)
qed

theorem server_calls_legal_witness:
  "\<exists>r h' ro' tr'. RPMAHandler_handle manual_env ceph_le 0 1 COMPLETION_EVENT
       ((waiting_server demo_init_msg)\<lparr>op_heap := [0 \<mapsto> \<lparr>op_class = RpmaReqRecv, func = Deal_require\<rparr>], callback_table := {0}\<rparr>) None []
     = (r, h', ro', tr') \<and> (\<forall>ev \<in> set tr'. legal_call ev) \<and> handler_complete h'"
proof -
  let ?h = "(waiting_server demo_init_msg)\<lparr>op_heap := [0 \<mapsto> \<lparr>op_class = RpmaReqRecv, func = Deal_require\<rparr>], callback_table := {0}\<rparr>"
  obtain r h' ro' tr' where run: "RPMAHandler_handle manual_env ceph_le 0 1 COMPLETION_EVENT ?h None [] = (r, h', ro', tr')"
    by (metis prod_cases4)
  have "handler_complete ?h"
    by (simp add: handler_complete_def RpmaConn_new_def) (simp add: waiting_server_def)
  moreover have "RwlReplicaInitRequest_decode ceph_le demo_init_msg
      = Some (\<lparr>type_of = RWL_REPLICA_INIT_REQUEST, info = demo_info\<rparr>, [])"
    using ceph_le.init_request_roundtrip [of "\<lparr>type_of = RWL_REPLICA_INIT_REQUEST, info = demo_info\<rparr>" "[]"]
    by (simp add: ceph_le.init_request_length demo_info_def)
  then have "asks_for_bytes ceph_le (recv_bl ?h)" by (simp add: asks_for_bytes_def demo_info_def)
  ultimately show ?thesis using server_calls_legal [OF manual_env_documented _ _ run] run by auto
qed

text \<open>
  When \<open>rpma_peer_cfg_new\<close> fails for want of memory, the program goes on with the null
  pointer: the next call it makes with the peer configuration is one that its page refuses. A
  region on persistent memory is then answered by nothing, since the refusal is returned; for a
  region in heap memory the refusal is overlooked and a reply is built.
\<close>

theorem server_uses_null_peer_cfg:
  assumes "documented e" and "e_peer_cfg_new (mr_of e) tr = (RPMA_E_NOMEM, None)"
    and "append_pcfg e pm sz ds tr = (r, tr')"
  shows "(\<exists>ev \<in> set tr'. \<not> legal_call ev) \<and> (if pm then r = Inr (Inl RPMA_E_INVAL) else \<forall>ret. r \<noteq> Inr (Inl ret))"
proof -
  have "e_peer_cfg_set_direct_write (mr_of e) t None b = RPMA_E_INVAL" for t b
    using assms(1) by (simp add: documented_def documented_mr_def returns_def rpma_peer_cfg_set_direct_write_to_pmem_man_def)
  with assms(2,3) show ?thesis
    by (auto simp: append_pcfg_def env_simps man_defs Let_def split: prod.splits sum.splits)
qed

definition no_memory_env :: env where
  "no_memory_env = manual_env\<lparr>mr_of := manual_mr\<lparr>e_peer_cfg_new := (\<lambda>tr. (RPMA_E_NOMEM, None))\<rparr>\<rparr>"

theorem server_uses_null_peer_cfg_witness:
  "\<exists>r tr'. append_pcfg no_memory_env True 2 ''MR'' [] = (r, tr') \<and> r = Inr (Inl RPMA_E_INVAL) \<and> (\<exists>ev \<in> set tr'. \<not> legal_call ev)"
proof -
  obtain r tr' where run: "append_pcfg no_memory_env True 2 ''MR'' [] = (r, tr')" by (metis prod.exhaust)
  have "creates rpma_peer_cfg_new_man (RPMA_E_NOMEM, None)"
    by (simp add: creates_def returns_def rpma_peer_cfg_new_man_def)
  then have "documented no_memory_env"
    using manual_env_documented(1) by (simp add: documented_def documented_mr_def no_memory_env_def manual_env_def)
  from server_uses_null_peer_cfg [OF this _ run] run show ?thesis by (simp add: no_memory_env_def)
qed

end
