(* ===== verification/Wire_Protocol.thy ===== *)
theory Wire_Protocol
  imports Wire_Types
begin

text \<open>
  Messages in message buffers: what one side copies to the front of its send buffer is what the
  other side reads out of its receive buffer, whatever the buffer held before; and the program
  \<open>test_demo.cc\<close>, which sends two structures through one buffer.
\<close>

text \<open>
  C29: An init request that fits into a message survives the trip. Copied to the front of a
  buffer of 4096 bytes it leaves the buffer's length alone; reading the buffer gives back the
  request with every field, and reading it first as a plain request, as the server does, gives its
  type.
\<close>

theorem init_request_survives:
  assumes c: "ceph_encoding c" and buf: "length buf = MSG_SIZE"
    and fits: "36 + length (pool_name (info r)) + length (image_name (info r)) < MSG_SIZE"
  shows "let bl = RwlReplicaInitRequest_encode c r; sent = memcpy buf bl (length bl)
         in length sent = MSG_SIZE \<and>
            RwlReplicaInitRequest_decode c sent = Some (r, drop (length bl) buf) \<and>
            RwlReplicaRequest_decode c sent = Some (\<lparr>type_of = type_of r\<rparr>, drop (length bl) buf)"
proof -
  let ?bl = "RwlReplicaInitRequest_encode c r"
  have len: "length ?bl < MSG_SIZE" using fits by (simp add: ceph_encoding.init_request_length [OF c])
  then have "length ?bl < 2 ^ 32" by (simp add: MSG_SIZE_def)
  with len buf show ?thesis
    unfolding memcpy_all Let_def
    by (simp add: ceph_encoding.init_request_roundtrip [OF c] ceph_encoding.peek_init_request [OF c])
qed

theorem init_request_survives_witness:
  "\<exists>tl. RwlReplicaInitRequest_decode ceph_le
     (memcpy (replicate MSG_SIZE (CHR ''x''))
       (RwlReplicaInitRequest_encode ceph_le \<lparr>type_of = 1, info = \<lparr>cache_id = 1, cache_size = 64, pool_name = ''RBD'', image_name = ''test''\<rparr>\<rparr>) 43)
     = Some (\<lparr>type_of = 1, info = \<lparr>cache_id = 1, cache_size = 64, pool_name = ''RBD'', image_name = ''test''\<rparr>\<rparr>, tl)"
  using init_request_survives [OF ceph_le.ceph_encoding_axioms, of "replicate MSG_SIZE (CHR ''x'')"
      "\<lparr>type_of = 1, info = \<lparr>cache_id = 1, cache_size = 64, pool_name = ''RBD'', image_name = ''test''\<rparr>\<rparr>"]
  by (simp add: ceph_le.init_request_length MSG_SIZE_def Let_def)

text \<open>
  C30: A reply with descriptors of arbitrary content that fits into a message survives the trip in
  the same way, and so do the plain messages of 10 bytes: request and finish reply.
\<close>

theorem reply_survives:
  assumes c: "ceph_encoding c" and buf: "length buf = MSG_SIZE"
    and fits: "28 + length (descriptors (desc r)) < MSG_SIZE"
  shows "let bl = RwlReplicaInitRequestReply_encode c r; sent = memcpy buf bl (length bl); pl = RwlReplicaRequest_encode c q
         in length sent = MSG_SIZE \<and>
            RwlReplicaInitRequestReply_decode c sent = Some (r, drop (length bl) buf) \<and>
            RwlReplicaRequest_decode c (memcpy buf pl (length pl)) = Some (q, drop 10 buf)"
proof -
  let ?bl = "RwlReplicaInitRequestReply_encode c r"
  have len: "length ?bl < MSG_SIZE" using fits by (simp add: ceph_encoding.init_reply_length [OF c])
  then have "length ?bl < 2 ^ 32" by (simp add: MSG_SIZE_def)
  with len buf show ?thesis
    unfolding memcpy_all Let_def
    by (simp add: ceph_encoding.init_reply_roundtrip [OF c] ceph_encoding.request_roundtrip [OF c]
        ceph_encoding.request_length [OF c])
qed

theorem reply_survives_witness:
  "\<exists>tl. RwlReplicaInitRequestReply_decode ceph_le
     (memcpy (replicate MSG_SIZE (CHR ''x''))
       (RwlReplicaInitRequestReply_encode ceph_le \<lparr>type_of = 17, desc = \<lparr>mr_desc_size = 2, pcfg_desc_size = 1, descriptors = ''MRP''\<rparr>\<rparr>) 31)
     = Some (\<lparr>type_of = 17, desc = \<lparr>mr_desc_size = 2, pcfg_desc_size = 1, descriptors = ''MRP''\<rparr>\<rparr>, tl)"
  using reply_survives [OF ceph_le.ceph_encoding_axioms, of "replicate MSG_SIZE (CHR ''x'')"
      "\<lparr>type_of = 17, desc = \<lparr>mr_desc_size = 2, pcfg_desc_size = 1, descriptors = ''MRP''\<rparr>\<rparr>"]
  by (simp add: ceph_le.init_reply_length MSG_SIZE_def Let_def)

subsection \<open>The encoding demo\<close>

definition demo_cache_info :: RwlCacheInfo where
  "demo_cache_info = \<lparr>cache_id = 123, cache_size = 1024 * 1024, pool_name = ''rbd'', image_name = ''test''\<rparr>"

definition demo_descriptor :: RpmaConfigDescriptor where
  "demo_descriptor = \<lparr>mr_desc_size = 10, pcfg_desc_size = 1, descriptors = ''abcdef''\<rparr>"

text \<open>
  \<open>main\<close> of \<open>test_demo.cc\<close>: both structures are encoded one after the other, copied to the
  front of a buffer of 4096 bytes with content \<open>buf\<close>, and decoded with one iterator. Its
  result are the two structures read back.
\<close>

definition test_demo_main :: "ceph_codec \<Rightarrow> bytes \<Rightarrow> (RwlCacheInfo \<times> RpmaConfigDescriptor) result" where
  "test_demo_main c buf =
     (let bl1 = RwlCacheInfo_encode c demo_cache_info @ RpmaConfigDescriptor_encode c demo_descriptor
      in if length buf < length bl1 then Inl Out_of_range
         else
           let bl = memcpy buf bl1 (length bl1)
           in case RwlCacheInfo_decode c bl of
                None \<Rightarrow> Inl Buffer_error
              | Some (info2, it) \<Rightarrow>
                  (case RpmaConfigDescriptor_decode c it of
                     None \<Rightarrow> Inl Buffer_error
                   | Some (desc2, _) \<Rightarrow> Inr (info2, desc2)))"



end
