(* ===== verification/Acceptor.thy ===== *)
theory Acceptor
  imports Resources
begin

text \<open>
  \<open>AcceptorHandler\<close> of \<open>EventOp.h\<close> and \<open>EventOp.cc\<close> and the server program
  \<open>server.cc\<close>: the listening endpoint, the creation of a connection handler per incoming
  request, the state of the whole server and its main loop.

  A handler object lives as long as an entry of the reactor's table holds its \<open>shared_ptr\<close>
  (the acceptor: as long as \<open>main\<close> runs). The acceptor has number 0. What the network put into
  a connection's receive buffer by the time an event is handled is a parameter.
\<close>

record AcceptorHandler =
  ac_fd :: fd
  ac_address :: string
  ac_port :: string
  ac_peer :: "ptr option"
  ac_ep :: "ptr option"

definition AcceptorHandler_destroy :: "AcceptorHandler \<Rightarrow> trace \<Rightarrow> trace" where
  "AcceptorHandler_destroy a tr =
     unique_delete RpmaPeerDeleter (ac_peer a) (unique_delete RpmaEpDeleter (ac_ep a) tr)"

definition AcceptorHandler_new ::
    "env \<Rightarrow> fd \<Rightarrow> string \<Rightarrow> string \<Rightarrow> trace \<Rightarrow> AcceptorHandler result \<times> trace" where
  "AcceptorHandler_new e junk addr port tr =
     (let a0 = \<lparr>ac_fd = junk, ac_address = addr, ac_port = port, ac_peer = None, ac_ep = None\<rparr>;
          ((ret, peer), tr1) = common_peer_via_address e addr RPMA_UTIL_IBV_CONTEXT_LOCAL tr
      in if ret \<noteq> 0
         then (Inl (Runtime_error ''lookup an ibv_context via the address and create a new peer using it failed''),
               AcceptorHandler_destroy a0 tr1)
         else
           let a1 = a0\<lparr>ac_peer := peer\<rparr>;
               ((ret2, ep), tr2) = rpma_ep_listen e peer addr port tr1
           in if ret2 \<noteq> 0
              then (Inl (Runtime_error ''listening endpoint at addr:port failed''), AcceptorHandler_destroy a1 tr2)
              else
                let a2 = a1\<lparr>ac_ep := ep\<rparr>;
                    ((ret3, f), tr3) = rpma_ep_get_fd e ep tr2;
                    a3 = (case f of None \<Rightarrow> a2 | Some x \<Rightarrow> a2\<lparr>ac_fd := x\<rparr>)
                in if ret3 \<noteq> 0
                   then (Inl (Runtime_error ''get the endpoint's event file descriptor failed''),
                         AcceptorHandler_destroy a3 tr3)
                   else (Inr a3, tr3))"

definition AcceptorHandler_get_handle :: "AcceptorHandler \<Rightarrow> EventType \<Rightarrow> fd" where
  "AcceptorHandler_get_handle a et = ac_fd a"

definition AcceptorHandler_register_self ::
    "env \<Rightarrow> hid \<Rightarrow> AcceptorHandler \<Rightarrow> Reactor option \<Rightarrow> trace \<Rightarrow> int \<times> Reactor option \<times> trace" where
  "AcceptorHandler_register_self e i a ro tr =
     (case ro of
        None \<Rightarrow> (-1, None, tr)
      | Some r \<Rightarrow>
          let (ret, r1, tr1) = Reactor_register_handler e (AcceptorHandler_get_handle a) i ACCEPT_EVENT r tr
          in (ret, Some r1, tr1))"

definition AcceptorHandler_remove_self ::
    "env \<Rightarrow> hid \<Rightarrow> AcceptorHandler \<Rightarrow> Reactor option \<Rightarrow> trace \<Rightarrow> int \<times> Reactor option \<times> trace" where
  "AcceptorHandler_remove_self e i a ro tr =
     (case ro of
        None \<Rightarrow> (-1, None, tr)
      | Some r \<Rightarrow>
          let (ret, r1, tr1) = Reactor_remove_handler e (AcceptorHandler_get_handle a) i ACCEPT_EVENT r tr
          in (ret, Some r1, tr1))"

subsection \<open>The state of the server\<close>

record server =
  sv_reactor :: Reactor
  sv_acceptor :: AcceptorHandler
  sv_handlers :: "hid \<rightharpoonup> RPMAHandler"
  sv_next :: hid

text \<open>The values of uninitialised members and locals, and the bytes that arrived.\<close>

record server_junk =
  sj_conn_fd :: fd
  sj_comp_fd :: fd
  sj_size :: u64
  sj_pcfg :: u32

record world =
  w_junk :: "trace \<Rightarrow> server_junk"
  w_recv :: "trace \<Rightarrow> hid \<Rightarrow> bytes option"

text \<open>When no entry of the table holds a handler any more, its last \<open>shared_ptr\<close> is gone.\<close>

definition referenced :: "hid \<Rightarrow> Reactor \<Rightarrow> bool" where
  "referenced i r = (i \<in> eh_handler ` snd ` set (event_table r))"

definition release_handler :: "env \<Rightarrow> hid \<Rightarrow> server \<Rightarrow> trace \<Rightarrow> server \<times> trace" where
  "release_handler e i s tr =
     (if referenced i (sv_reactor s) then (s, tr)
      else case sv_handlers s i of
             None \<Rightarrow> (s, tr)
           | Some h \<Rightarrow>
               let (_, _, tr1) = RPMAHandler_destroy e h tr
               in (s\<lparr>sv_handlers := (sv_handlers s)(i := None)\<rparr>, tr1))"

text \<open>
  \<open>AcceptorHandler::handle\<close>: a new handler, registered; a \<open>std::runtime_error\<close> of its
  constructor is caught, the return code of the registration is ignored.
\<close>

definition AcceptorHandler_handle ::
    "env \<Rightarrow> world \<Rightarrow> EventType \<Rightarrow> server \<Rightarrow> trace \<Rightarrow> int result \<times> server \<times> trace" where
  "AcceptorHandler_handle e w et s tr =
     (if et \<noteq> ACCEPT_EVENT then (Inl Assertion_failed, s, tr)
      else
        let j = w_junk w tr;
            a = sv_acceptor s;
            (x, tr1) = RPMAHandler_new e (sj_conn_fd j) (sj_comp_fd j) (sj_size j) (ac_peer a) (ac_ep a) tr
        in case x of
             Inl (Runtime_error m) \<Rightarrow> (Inr (-1), s, tr1)
           | Inl f \<Rightarrow> (Inl f, s, tr1)
           | Inr h \<Rightarrow>
               let i = sv_next s;
                   (_, ro, tr2) = RPMAHandler_register_self e i h (Some (sv_reactor s)) tr1;
                   r = (case ro of None \<Rightarrow> sv_reactor s | Some r \<Rightarrow> r);
                   (s2, tr3) = release_handler e i
                     (s\<lparr>sv_reactor := r, sv_handlers := (sv_handlers s)(i \<mapsto> h), sv_next := Suc i\<rparr>) tr2
               in (Inr 0, s2, tr3))"

text \<open>The virtual call \<open>handler->handle(type)\<close> of the event loop.\<close>

definition server_dispatch :: "env \<Rightarrow> ceph_codec \<Rightarrow> world \<Rightarrow> server dispatcher" where
  "server_dispatch e c w i et s tr =
     (if i = 0 then AcceptorHandler_handle e w et s tr
      else
        (case sv_handlers s i of
           None \<Rightarrow> (Inl Use_after_free, s, tr)
         | Some h \<Rightarrow>
             let h0 = (case w_recv w tr i of None \<Rightarrow> h | Some msg \<Rightarrow> h\<lparr>recv_bl := msg\<rparr>);
                 (r, h1, ro, tr1) = RPMAHandler_handle e c (sj_pcfg (w_junk w tr)) i et h0 (Some (sv_reactor s)) tr;
                 r1 = (case ro of None \<Rightarrow> sv_reactor s | Some x \<Rightarrow> x);
                 (s2, tr2) = release_handler e i
                   (s\<lparr>sv_reactor := r1, sv_handlers := (sv_handlers s)(i \<mapsto> h1)\<rparr>) tr1
             in (r, s2, tr2)))"

subsection \<open>The program\<close>

text \<open>
  \<open>while (true) reactor->handle_events()\<close>: only an exception leaves it. \<open>m\<close> bounds the
  events of one call, \<open>n\<close> the calls.
\<close>

fun server_loop :: "env \<Rightarrow> ceph_codec \<Rightarrow> world \<Rightarrow> nat \<Rightarrow> nat \<Rightarrow> server \<Rightarrow> trace \<Rightarrow> (failure \<times> server \<times> trace) option" where
  "server_loop e c w m 0 s tr = None"
| "server_loop e c w m (Suc n) s tr =
     (case Reactor_handle_events e sv_reactor (server_dispatch e c w) m s tr of
        None \<Rightarrow> None
      | Some (Inl f, s1, tr1) \<Rightarrow> Some (f, s1, tr1)
      | Some (Inr _, s1, tr1) \<Rightarrow> server_loop e c w m n s1 tr1)"

text \<open>
  Leaving the scope of the \<open>try\<close> block destroys the reactor: it closes epoll and drops the
  entries of its table (here in the order of the list; an \<open>unordered_map\<close> promises none), and
  with them the handlers; the peer, shared by all of them, goes last.
\<close>

definition server_teardown :: "env \<Rightarrow> server \<Rightarrow> trace \<Rightarrow> trace" where
  "server_teardown e s tr =
     (let tr1 = Reactor_destroy (sv_reactor s) tr;
          ids = remdups (map (eh_handler \<circ> snd) (event_table (sv_reactor s)));
          tr2 = foldl (\<lambda>t i. if i = 0 then unique_delete RpmaEpDeleter (ac_ep (sv_acceptor s)) t
                            else case sv_handlers s i of
                                   None \<Rightarrow> t
                                 | Some h \<Rightarrow> snd (snd (RPMAHandler_destroy e h t))) tr1 ids
      in unique_delete RpmaPeerDeleter (ac_peer (sv_acceptor s)) tr2)"

text \<open>
  \<open>main\<close> catches a \<open>std::runtime_error\<close> and returns 0; any other failure ends the
  process. Which class the decoder's exception belongs to is decided in Ceph, so it stays a
  failure of its own here.
\<close>

definition main_catch :: "failure \<Rightarrow> int result" where
  "main_catch f = (case f of Runtime_error m \<Rightarrow> Inr 0 | _ \<Rightarrow> Inl f)"

definition server_main ::
    "env \<Rightarrow> ceph_codec \<Rightarrow> world \<Rightarrow> nat \<Rightarrow> nat \<Rightarrow> fd \<Rightarrow> string \<Rightarrow> string \<Rightarrow> trace \<Rightarrow> (int result \<times> trace) option" where
  "server_main e c w m n junk addr port tr =
     (case Reactor_new e (set_log_thresholds tr) of
        (Inl f, tr1) \<Rightarrow> Some (main_catch f, tr1)
      | (Inr r, tr1) \<Rightarrow>
          (case AcceptorHandler_new e junk addr port tr1 of
             (Inl f, tr2) \<Rightarrow> Some (main_catch f, Reactor_destroy r tr2)
           | (Inr a, tr2) \<Rightarrow>
               let (ret, ro, tr3) = AcceptorHandler_register_self e 0 a (Some r) tr2;
                   r1 = (case ro of None \<Rightarrow> r | Some x \<Rightarrow> x)
               in if ret \<noteq> 0 then Some (Inr ret, Reactor_destroy r1 (AcceptorHandler_destroy a tr3))
                  else
                    (case server_loop e c w m n
                            \<lparr>sv_reactor = r1, sv_acceptor = a, sv_handlers = Map.empty, sv_next = 1\<rparr> tr3 of
                       None \<Rightarrow> None
                     | Some (f, s, tr4) \<Rightarrow>
                         (case main_catch f of
                            Inr v \<Rightarrow> Some (Inr v, server_teardown e s tr4)
                          | Inl g \<Rightarrow> Some (Inl g, tr4)))))"

end
