(* ===== verification/Connection_Frame.thy ===== *)
theory Connection_Frame
  imports Connection_Handler
begin

text \<open>
  What operations of a connection leave alone, for the event loops of both programs: calls that
  do not touch epoll keep the interest list, new connections come with fresh descriptors, and
  a completion of an operation that is not outstanding changes nothing but is a use after free.
\<close>

subsection \<open>Calls that do not touch epoll\<close>

fun is_poll :: "event \<Rightarrow> bool" where
  "is_poll (Poll x) = True"
| "is_poll ev = False"

abbreviation no_poll :: "trace \<Rightarrow> trace \<Rightarrow> bool" where
  "no_poll \<equiv> appends (\<lambda>ev. \<not> is_poll ev)"

lemmas no_poll_trans = appends_trans [where P = "\<lambda>ev. \<not> is_poll ev"]
lemmas no_poll_snoc = appends_snoc [where P = "\<lambda>ev. \<not> is_poll ev"]

lemma no_poll_interest: "no_poll tr tr' \<Longrightarrow> interest tr' = interest tr"
proof -
  have "foldl poll_apply I evs = I" if "\<forall>ev \<in> set evs. \<not> is_poll ev" for I evs
    using that
  proof (induction evs arbitrary: I)
    case (Cons ev evs)
    moreover have "poll_apply I ev = I" using Cons.prems by (cases "(I, ev)" rule: poll_apply.cases) auto
    ultimately show ?case by simp
  qed simp
  then show "no_poll tr tr' \<Longrightarrow> interest tr' = interest tr" by (auto simp: appends_def)
qed

lemma no_poll_unique [simp]:
  "no_poll tr (unique_delete RpmaMRDeleter x tr)" "no_poll tr (unique_delete RpmaPeerDeleter x tr)"
  by (cases x; simp add: RpmaMRDeleter_def RpmaPeerDeleter_def env_simps)+

lemma no_poll_base_destroy:
  assumes "ConnectionHandler_destroy e h tr = (r, h', tr')"
  shows "no_poll tr tr'"
proof -
  let ?tr1 = "unique_delete RpmaMRDeleter (recv_mr h) tr"
  let ?tr2 = "unique_delete RpmaMRDeleter (send_mr h) ?tr1"
  have "no_poll tr ?tr2" by (rule no_poll_trans [of _ ?tr1]) simp_all
  moreover have "no_poll t t'" if "RpmaConn_destroy e x t = (x', t')" for x t x' t'
    using that by (auto simp: RpmaConn_destroy_def env_simps split: option.splits)
  ultimately show ?thesis
    using assms by (auto simp: ConnectionHandler_destroy_def split: if_splits prod.splits intro: no_poll_trans)
qed

subsection \<open>Constructing and posting\<close>

lemma no_poll_buffers: "ConnectionHandler_init_send_recv_buffer e h tr = (r, h', tr') \<Longrightarrow> no_poll tr tr'"
  by (cases "recv_mr h"; cases "send_mr h")
    (auto simp: ConnectionHandler_init_send_recv_buffer_def RpmaMRDeleter_def env_simps Let_def
      split: if_splits prod.splits)

lemma no_poll_post:
  "ConnectionHandler_send e cb h tr = (ret, h', tr') \<Longrightarrow> no_poll tr tr'"
  "ConnectionHandler_recv e cb h tr = (ret, h', tr') \<Longrightarrow> no_poll tr tr'"
  by (auto simp: ConnectionHandler_send_def ConnectionHandler_recv_def new_op_def env_simps)

text \<open>
  What the system promises of a new connection's descriptors: they are two different open
  descriptors, so not -1, and nobody watches them yet.
\<close>

definition conn_fds_fresh :: "env \<Rightarrow> bool" where
  "conn_fds_fresh e \<longleftrightarrow>
     (\<forall>tr q ret r. e_conn_get_event_fd (conn_of e) tr q = (ret, r) \<longrightarrow> ret = 0 \<longrightarrow>
        (\<exists>f. r = Some f \<and> f \<noteq> -1 \<and> interest tr f = None \<and>
           (\<forall>ret2 r2. e_conn_get_completion_fd (conn_of e) (tr @ [Conn (Ev_conn_get_event_fd q (0, Some f))]) q = (ret2, r2) \<longrightarrow>
              ret2 = 0 \<longrightarrow> (\<exists>g. r2 = Some g \<and> g \<noteq> -1 \<and> g \<noteq> f \<and> interest tr g = None))))"

definition fds_free :: "'z ConnectionHandler_scheme \<Rightarrow> trace \<Rightarrow> bool" where
  "fds_free h tr \<longleftrightarrow>
     conn_fd h \<noteq> -1 \<and> comp_fd h \<noteq> -1 \<and> conn_fd h \<noteq> comp_fd h \<and>
     interest tr (conn_fd h) = None \<and> interest tr (comp_fd h) = None"

lemma conn_fd_result:
  assumes fresh: "conn_fds_fresh e" and run: "ConnectionHandler_init_conn_fd e h tr = (Inr x, h', tr')"
  shows "fds_free h' tr' \<and> no_poll tr tr'"
proof -
  let ?q = "rc_conn (ch_conn h)"
  obtain ret r where a: "e_conn_get_event_fd (conn_of e) tr ?q = (ret, r)" by (metis prod.exhaust)
  have 0: "ret = 0" using run a by (auto simp: ConnectionHandler_init_conn_fd_def env_simps obj_defs Let_def split: if_splits)
  then obtain f where f: "r = Some f" "f \<noteq> -1" "interest tr f = None"
    and g: "\<And>ret2 r2. e_conn_get_completion_fd (conn_of e) (tr @ [Conn (Ev_conn_get_event_fd ?q (0, Some f))]) ?q = (ret2, r2) \<Longrightarrow>
              ret2 = 0 \<Longrightarrow> \<exists>g. r2 = Some g \<and> g \<noteq> -1 \<and> g \<noteq> f \<and> interest tr g = None"
    using fresh a unfolding conn_fds_fresh_def by blast
  obtain ret2 r2 where b: "e_conn_get_completion_fd (conn_of e) (tr @ [Conn (Ev_conn_get_event_fd ?q (0, Some f))]) ?q = (ret2, r2)"
    by (metis prod.exhaust)
  show ?thesis
    using run a 0 f b g [OF b]
    by (auto simp: ConnectionHandler_init_conn_fd_def env_simps obj_defs fds_free_def Let_def split: if_splits)
qed

lemma no_poll_conn_fd: "ConnectionHandler_init_conn_fd e h tr = (r, h', tr') \<Longrightarrow> no_poll tr tr'"
  by (auto simp: ConnectionHandler_init_conn_fd_def env_simps Let_def split: if_splits option.splits prod.splits)

subsection \<open>Completions\<close>

lemma completion_ok_deliver: "completion_ok e (h\<lparr>recv_bl := msg\<rparr>) tr = completion_ok e h tr"
  by (simp add: completion_ok_def Let_def split: prod.splits option.splits)

text \<open>A completion the library should not have delivered.\<close>

lemma stray_completion:
  assumes ops: "ops_inv {} h" and stray: "\<not> completion_ok e h tr"
    and run: "ConnectionHandler_handle_completion e run h tr = (r, h', tr')"
  shows "r = Inl Use_after_free \<or> (\<exists>v q. r = Inr v \<and> h' = h\<lparr>ch_conn := q\<rparr>)"
proof -
  let ?c = "rc_conn (ch_conn h)"
  obtain p cmpl where g: "e_conn_completion_get (conn_of e) (tr @ [Conn (Ev_conn_completion_wait ?c 0)]) ?c = (0, cmpl)"
      "op_status cmpl = IBV_WC_SUCCESS" "op_context cmpl = Some p" "p \<notin> callback_table h"
    using stray by (auto simp: completion_ok_def Let_def split: prod.splits option.splits)
  moreover from this ops have "op_heap h p = None" by (auto simp: ops_inv_def)
  moreover have "\<exists>q. x = x\<lparr>ch_conn := q\<rparr>" for x :: "'a ConnectionHandler_scheme"
    by (rule exI [of _ "ch_conn x"]) simp
  ultimately show ?thesis
    using run
    by (auto simp: ConnectionHandler_handle_completion_def env_simps obj_defs split: if_splits)
qed

subsection \<open>Connection events\<close>

text \<open>
  C28: An event of the connection has the effect its kind asks for. An established connection is
  marked as connected and stays registered; a closed, lost or unknown one is marked as not connected and
  leaves the reactor with both its descriptors, and nothing else leaves; without an event nothing happens; when
  the event cannot be read the connection is given up but stays registered. Table and kernel agree afterwards.
\<close>

theorem connection_event_outcome:
  assumes "epoll_ok e" and "reactor_inv r tr" and "conn_fd h \<noteq> -1" and "comp_fd h \<noteq> -1"
    and "e_conn_next_event (conn_of e) tr (rc_conn (ch_conn h)) = (q, ev)"
    and "ConnectionHandler_handle_connection_event e (remove_pair e i) h (Some r) tr = (ret, h', ro', tr')"
  shows "\<exists>r'. ro' = Some r' \<and> reactor_inv r' tr' \<and>
    (if q = RPMA_E_NO_EVENT then ret = 0 \<and> h' = h \<and> r' = r
     else if q \<noteq> 0 then ret = q \<and> rc_disconnected (ch_conn h') \<and> r' = r
     else if ev = RPMA_CONN_ESTABLISHED then ret = 0 \<and> h' = h\<lparr>connected := True\<rparr> \<and> r' = r
     else ret = 0 \<and> h' = h\<lparr>connected := False\<rparr> \<and>
          reactor_view r' = (reactor_view r)(conn_fd h := None, comp_fd h := None))"
proof -
  have inv1: "reactor_inv r (tr @ [Conn x])" for x
    using reactor_inv_cong [of "tr @ [Conn x]" tr r] assms(2) by simp
  have inv2: "reactor_inv r (tr @ [Conn x, Conn y])" for x y
    using reactor_inv_cong [of "tr @ [Conn x, Conn y]" tr r] assms(2) by simp
  show ?thesis
  proof (cases "q = 0 \<and> ev \<noteq> RPMA_CONN_ESTABLISHED")
    case False
    with assms(5,6) inv1 inv2 show ?thesis
      by (auto simp: ConnectionHandler_handle_connection_event_def RPMA_E_NO_EVENT_def env_simps obj_defs split: if_splits)
  next
    case True
    let ?h = "h\<lparr>connected := False\<rparr>"
    obtain x ro tr2 where rm: "remove_pair e i ?h (Some r) (tr @ [Conn (Ev_conn_next_event (rc_conn (ch_conn h)) (q, ev))]) = (x, ro, tr2)"
      by (metis prod_cases3)
    have "\<exists>r'. ro = Some r' \<and> reactor_inv r' tr2 \<and> x = 0 \<and> reactor_view r' = (reactor_view r)(conn_fd h := None, comp_fd h := None)"
      using remove_pair_outcome [OF assms(1) inv1 _ _ rm] assms(3,4) by simp
    with True assms(5,6) rm show ?thesis
      by (auto simp: ConnectionHandler_handle_connection_event_def RPMA_E_NO_EVENT_def env_simps obj_defs)
  qed
qed

theorem connection_event_outcome_witness:
  "\<exists>h' r' tr'. ConnectionHandler_handle_connection_event (kernel_env\<lparr>conn_of := demo_conn\<lparr>e_conn_next_event := (\<lambda>tr q. (0, RPMA_CONN_LOST))\<rparr>\<rparr>)
       (remove_pair (kernel_env\<lparr>conn_of := demo_conn\<lparr>e_conn_next_event := (\<lambda>tr q. (0, RPMA_CONN_LOST))\<rparr>\<rparr>) 1)
       (ConnectionHandler_new 7 8) (Some \<lparr>epoll = 3, event_table = [], next_node = 0\<rparr>) [] = (0, h', Some r', tr') \<and>
     \<not> connected h' \<and> reactor_view r' 7 = None"
proof -
  let ?e = "kernel_env\<lparr>conn_of := demo_conn\<lparr>e_conn_next_event := (\<lambda>tr q. (0, RPMA_CONN_LOST))\<rparr>\<rparr>"
  let ?h = "ConnectionHandler_new 7 8"
  let ?r = "\<lparr>epoll = 3, event_table = [], next_node = 0\<rparr>"
  have ok: "epoll_ok ?e" using kernel.kernel by (simp add: epoll_ok_def)
  have inv: "reactor_inv ?r []" by (simp add: reactor_inv_def interest_def)
  have ev: "e_conn_next_event (conn_of ?e) [] (rc_conn (ch_conn ?h)) = (0, RPMA_CONN_LOST)" by simp
  obtain ret h' ro' tr' where run: "ConnectionHandler_handle_connection_event ?e (remove_pair ?e 1) ?h (Some ?r) [] = (ret, h', ro', tr')"
    by (metis prod_cases4)
  have fds: "conn_fd ?h \<noteq> -1" "comp_fd ?h \<noteq> -1" "conn_fd ?h = 7" by (simp_all add: ConnectionHandler_new_def)
  from connection_event_outcome [OF ok inv fds(1,2) ev run] run fds(3) show ?thesis
    by (auto simp: RPMA_E_NO_EVENT_def)
qed

end
