(* ===== verification/Server_Program.thy ===== *)
theory Server_Program
  imports Acceptor Server_Session Connection_Frame
begin

text \<open>
  The server as a whole: its invariant, kept by every dispatched event, the safety of its event
  loop, and what ends it.
\<close>

subsection \<open>Handling a request does not touch epoll\<close>

lemma no_poll_mm:
  "MemoryManager_destroy m tr = (m', tr') \<Longrightarrow> no_poll tr tr'"
  "MemoryManager_close_and_remove e m tr = (ret, m', tr') \<Longrightarrow> no_poll tr tr'"
  "MemoryManager_init e sz path m tr = (r, m', tr') \<Longrightarrow> no_poll tr tr'"
  by (auto simp: MemoryManager_destroy_def MemoryManager_close_and_remove_def mm_defs mm_release_def env_simps
      Let_def split: option.splits prod.splits if_splits)

lemma no_poll_destroy: "RPMAHandler_destroy e h tr = (r, h', tr') \<Longrightarrow> no_poll tr tr'"
  by (auto simp: RPMAHandler_destroy_def split: prod.splits
      dest!: no_poll_base_destroy no_poll_mm(1) intro: no_poll_trans no_poll_trans [OF no_poll_unique(1)])

lemma no_poll_pcfg: "append_pcfg e pm sz ds tr = (r, tr') \<Longrightarrow> no_poll tr tr'"
  by (auto simp: append_pcfg_def env_simps Let_def split: prod.splits if_splits sum.splits)

lemma no_poll_build: "build_descriptor e junk opk pm mr tr = (r, tr') \<Longrightarrow> no_poll tr tr'"
  by (auto simp: build_descriptor_def env_simps Let_def split: prod.splits if_splits sum.splits
      dest!: no_poll_pcfg intro: no_poll_trans [rotated])

lemma no_poll_register:
  assumes "RPMAHandler_register_mr_to_descriptor e c junk opk h tr = (r, h', tr')"
  shows "no_poll tr tr'"
  using assms
  by (cases "data_mr h")
    (auto simp: RPMAHandler_register_mr_to_descriptor_def env_simps RpmaMRDeleter_def Let_def
      split: prod.splits if_splits sum.splits dest!: no_poll_build intro: no_poll_trans [rotated])

lemma no_poll_close: "RPMAHandler_close e c h tr = (r, h', tr') \<Longrightarrow> no_poll tr tr'"
  by (cases "data_mr h")
    (auto simp: RPMAHandler_close_def env_simps RpmaMRDeleter_def Let_def
      split: prod.splits sum.splits dest!: no_poll_mm(2) no_poll_post(1) intro: no_poll_trans [rotated] no_poll_trans)

lemma no_poll_get_descriptor: "RPMAHandler_get_descriptor e c junk h tr = (r, h', tr') \<Longrightarrow> no_poll tr tr'"
  by (auto simp: RPMAHandler_get_descriptor_def RPMAHandler_get_descriptor_for_write_def Let_def
      split: option.splits prod.splits if_splits sum.splits
      dest!: no_poll_mm(3) no_poll_register no_poll_close intro: no_poll_trans)

lemma no_poll_deal_require:
  assumes "RPMAHandler_deal_require e c junk h tr = (r, h', tr')"
  shows "no_poll tr tr'"
  using assms
  by (auto simp: RPMAHandler_deal_require_def env_simps Let_def split: prod.splits sum.splits
      dest!: no_poll_get_descriptor no_poll_post(2) intro: no_poll_trans no_poll_snoc)

lemma no_poll_completion:
  assumes "ConnectionHandler_handle_completion e (RPMAHandler_run e c junk) h tr = (r, h', tr')"
  shows "no_poll tr tr'"
proof -
  have cb: "no_poll t t'" if "RpmaOp_do_callback (RPMAHandler_run e c junk) x h1 t = (q, h2, t')" for x h1 t q h2 t'
    using that no_poll_deal_require by (auto simp: RpmaOp_do_callback_def RPMAHandler_run_def split: if_splits)
  show ?thesis
    using assms
    by (auto simp: ConnectionHandler_handle_completion_def env_simps obj_defs Let_def
        split: if_splits option.splits prod.splits dest!: cb intro: no_poll_trans [rotated])
qed

subsection \<open>New connections\<close>

lemma no_poll_ctor_throw: "ctor_throw e f h tr = (r, tr') \<Longrightarrow> (\<exists>g. r = Inl g) \<and> no_poll tr tr'"
  by (auto simp: ctor_throw_def split: prod.splits dest: no_poll_destroy)

definition new_ok :: "trace \<Rightarrow> RPMAHandler result \<times> trace \<Rightarrow> bool" where
  "new_ok tr x \<longleftrightarrow> no_poll tr (snd x) \<and>
     (case fst x of Inr h \<Rightarrow> fds_free h (snd x) | Inl f \<Rightarrow> \<exists>m. f = Runtime_error m)"

lemma new_ok_throw: "no_poll tr0 tr \<Longrightarrow> new_ok tr0 (ctor_throw e (Runtime_error m) h tr)"
  using no_poll_destroy no_poll_trans by (auto simp: new_ok_def ctor_throw_def split: prod.splits)

lemma new_handler_fds:
  assumes fresh: "conn_fds_fresh e"
  shows "new_ok tr0 (RPMAHandler_new e j1 j2 jsz peer ep tr0)"
proof -
  let ?h0 = "(RPMAHandler_default j1 j2 jsz)\<lparr>ch_peer := peer\<rparr>"
  obtain r1 h1 tr1 where b: "ConnectionHandler_init_send_recv_buffer e ?h0 tr0 = (r1, h1, tr1)"
    by (metis prod_cases3)
  have r1: "r1 = Inr () \<or> (\<exists>m. r1 = Inl (Runtime_error m))"
    using b by (auto simp: ConnectionHandler_init_send_recv_buffer_def Let_def split: prod.splits if_splits)
  obtain ret req tr2 where q: "rpma_ep_next_conn_req e ep tr1 = ((ret, req), tr2)" by (metis prod.exhaust)
  obtain p h2 where n: "new_op RpmaReqRecv Deal_require h1 = (p, h2)" by (metis prod.exhaust)
  obtain ret2 tr3 where v: "RpmaReqRecv_call e req (recv_mr h2) 0 msg_len (Some p) tr2 = (ret2, tr3)"
    by (metis prod.exhaust)
  obtain ret3 req2 conn tr4 where k: "rpma_conn_req_connect e req tr3 = ((ret3, req2, conn), tr4)"
    by (metis prod.exhaust)
  have np1: "no_poll tr0 tr1" by (rule no_poll_buffers [OF b])
  have np2: "no_poll tr0 tr2" using no_poll_snoc [OF np1] q by (auto simp: env_simps)
  have np3: "no_poll tr0 tr3" using no_poll_snoc [OF np2] v by (auto simp: env_simps)
  have np4: "no_poll tr0 tr4" using no_poll_snoc [OF np3] k by (auto simp: env_simps)
  let ?h4 = "(settle_op p ret2 h2)\<lparr>ch_conn := RpmaConn_reset conn (ch_conn (settle_op p ret2 h2))\<rparr>"
  obtain r5 h5 tr5 where f: "ConnectionHandler_init_conn_fd e ?h4 tr4 = (r5, h5, tr5)"
    by (metis prod_cases3)
  have np5: "no_poll tr0 tr5" using no_poll_trans [OF np4 no_poll_conn_fd [OF f]] .
  have r5: "r5 = Inr () \<or> (\<exists>m. r5 = Inl (Runtime_error m))"
    using f by (auto simp: ConnectionHandler_init_conn_fd_def Let_def split: prod.splits if_splits option.splits)
  have end_ok: "new_ok tr0 (case r5 of Inl f \<Rightarrow> ctor_throw e f h5 tr5 | Inr _ \<Rightarrow> (Inr h5, tr5))"
  proof (cases r5)
    case (Inl g)
    with r5 show ?thesis using new_ok_throw [OF np5] by auto
  next
    case (Inr x)
    with f np5 show ?thesis using conn_fd_result [OF fresh] by (auto simp: new_ok_def)
  qed
  show ?thesis
    using r1 np1 np2 np3 np4 end_ok v k f
    by (cases "ret2 = 0"; cases "ret3 = 0")
      (auto simp: RPMAHandler_new_def b q n Let_def new_ok_throw log_event_def no_poll_snoc)
qed

subsection \<open>The server's invariant\<close>

text \<open>
  The table and the kernel agree, every entry belongs to the acceptor or to a live handler, and
  every live handler is in the table with both its descriptors and owns its operations.
\<close>

definition handler_ok :: "hid \<Rightarrow> RPMAHandler \<Rightarrow> Reactor \<Rightarrow> bool" where
  "handler_ok i h r \<longleftrightarrow>
     conn_fd h \<noteq> -1 \<and> comp_fd h \<noteq> -1 \<and> conn_fd h \<noteq> comp_fd h \<and> ops_inv {} h \<and>
     reactor_view r (conn_fd h) = Some (CONNECTION_EVENT, i) \<and>
     reactor_view r (comp_fd h) = Some (COMPLETION_EVENT, i)"

definition entry_ok :: "(hid \<rightharpoonup> RPMAHandler) \<Rightarrow> fd \<Rightarrow> EventType \<Rightarrow> hid \<Rightarrow> bool" where
  "entry_ok H fd et i \<longleftrightarrow>
     (if i = 0 then et = ACCEPT_EVENT else \<exists>h. H i = Some h \<and> fd \<in> {conn_fd h, comp_fd h})"

definition server_ok :: "server \<Rightarrow> trace \<Rightarrow> bool" where
  "server_ok s tr \<longleftrightarrow>
     reactor_inv (sv_reactor s) tr \<and>
     (\<forall>fd et i. reactor_view (sv_reactor s) fd = Some (et, i) \<longrightarrow> entry_ok (sv_handlers s) fd et i) \<and>
     (\<forall>i h. sv_handlers s i = Some h \<longrightarrow> i \<noteq> 0 \<and> i < sv_next s \<and> handler_ok i h (sv_reactor s)) \<and>
     0 < sv_next s"

lemma server_okD:
  assumes "server_ok s tr"
  shows "reactor_inv (sv_reactor s) tr"
    and "reactor_view (sv_reactor s) fd = Some (et, 0) \<Longrightarrow> et = ACCEPT_EVENT"
    and "reactor_view (sv_reactor s) fd = Some (et, i) \<Longrightarrow> i \<noteq> 0 \<Longrightarrow>
           \<exists>h. sv_handlers s i = Some h \<and> fd \<in> {conn_fd h, comp_fd h}"
    and "sv_handlers s i = Some h \<Longrightarrow> i \<noteq> 0 \<and> i < sv_next s \<and> handler_ok i h (sv_reactor s)"
    and "0 < sv_next s"
  using assms unfolding server_ok_def entry_ok_def by (blast, metis, metis, blast, blast)

lemma server_okI:
  assumes "reactor_inv (sv_reactor s) tr" and "0 < sv_next s"
    and "\<And>fd et i. reactor_view (sv_reactor s) fd = Some (et, i) \<Longrightarrow> entry_ok (sv_handlers s) fd et i"
    and "\<And>i h. sv_handlers s i = Some h \<Longrightarrow> i \<noteq> 0 \<and> i < sv_next s \<and> handler_ok i h (sv_reactor s)"
  shows "server_ok s tr"
  using assms unfolding server_ok_def by blast

lemma server_ok_trace:
  assumes "server_ok s tr" and "interest tr' = interest tr"
  shows "server_ok s tr'"
  using assms(1) reactor_inv_cong [OF assms(2)] unfolding server_ok_def by blast

lemma referenced_view:
  assumes "reactor_inv r tr"
  shows "referenced i r \<longleftrightarrow> (\<exists>fd et. reactor_view r fd = Some (et, i))"
proof -
  have d: "distinct (map fst (event_table r))" by (rule reactor_invD(1) [OF assms])
  show ?thesis
  proof
    assume "referenced i r"
    then obtain fd eh where "(fd, eh) \<in> set (event_table r)" "eh_handler eh = i"
      by (auto simp: referenced_def)
    with d show "\<exists>fd et. reactor_view r fd = Some (et, i)"
      by (auto simp: reactor_view_def intro!: exI [of _ fd])
  next
    assume "\<exists>fd et. reactor_view r fd = Some (et, i)"
    then obtain fd eh where "map_of (event_table r) fd = Some eh" "eh_handler eh = i"
      by (auto simp: reactor_view_def)
    then show "referenced i r"
      by (force simp: referenced_def dest: map_of_SomeD)
  qed
qed

subsection \<open>Every dispatched event keeps the invariant\<close>

definition same_fds :: "RPMAHandler \<Rightarrow> RPMAHandler \<Rightarrow> bool" where
  "same_fds h h' \<longleftrightarrow> conn_fd h' = conn_fd h \<and> comp_fd h' = comp_fd h"

lemma same_fds_trans: "same_fds h1 h2 \<Longrightarrow> same_fds h2 h3 \<Longrightarrow> same_fds h1 h3"
  by (simp add: same_fds_def)

lemma same_fds_post:
  "ConnectionHandler_send e cb h tr = (ret, h', tr') \<Longrightarrow> same_fds h h'"
  "ConnectionHandler_recv e cb h tr = (ret, h', tr') \<Longrightarrow> same_fds h h'"
  by (auto simp: ConnectionHandler_send_def ConnectionHandler_recv_def new_op_def settle_op_def delete_op_def
      same_fds_def Let_def split: prod.splits)

lemma same_fds_message: "put_message bl h = (r, h') \<Longrightarrow> same_fds h h'"
  by (auto simp: put_message_def same_fds_def split: if_splits)

lemma same_fds_register:
  assumes "RPMAHandler_register_mr_to_descriptor e c junk opk h tr = (r, h', tr')"
  shows "same_fds h h'"
  using assms
  by (auto simp: RPMAHandler_register_mr_to_descriptor_def same_fds_def Let_def
      split: prod.splits if_splits sum.splits dest: same_fds_message [unfolded same_fds_def])

lemma same_fds_close:
  assumes "RPMAHandler_close e c h tr = (r, h', tr')"
  shows "same_fds h h'"
  using assms
  by (auto simp: RPMAHandler_close_def same_fds_def Let_def split: prod.splits sum.splits
      dest!: same_fds_message [unfolded same_fds_def] same_fds_post(1) [unfolded same_fds_def])

lemma same_fds_get_descriptor:
  assumes "RPMAHandler_get_descriptor e c junk h tr = (r, h', tr')"
  shows "same_fds h h'"
  using assms
  by (auto simp: RPMAHandler_get_descriptor_def RPMAHandler_get_descriptor_for_write_def Let_def
      split: option.splits prod.splits if_splits sum.splits
      dest!: same_fds_register same_fds_close simp: same_fds_def)

lemma same_fds_deal_require:
  assumes "RPMAHandler_deal_require e c junk h tr = (r, h', tr')"
  shows "same_fds h h'"
  using assms
  by (auto simp: RPMAHandler_deal_require_def Let_def split: prod.splits sum.splits
      dest!: same_fds_get_descriptor same_fds_post(2) simp: same_fds_def)

lemma completion_outcome:
  assumes ops: "ops_inv {} h"
    and run: "ConnectionHandler_handle_completion e (RPMAHandler_run e c junk) h tr = (Inr v, h', tr')"
  shows "ops_inv {} h' \<and> same_fds h h'"
proof -
  have cb: "same_fds h1 (delete_op p h2)" if "RpmaOp_do_callback (RPMAHandler_run e c junk) x h1 t = (q, h2, t')"
    for x h1 t q h2 t' p
    using that same_fds_deal_require
    by (auto simp: RpmaOp_do_callback_def RPMAHandler_run_def same_fds_def delete_op_def split: if_splits)
  have "same_fds h h'"
    using run
    by (auto simp: ConnectionHandler_handle_completion_def env_simps obj_defs Let_def
        split: if_splits option.splits prod.splits dest!: cb simp: same_fds_def)
  moreover have "ops_inv {} h'"
  proof (cases "completion_ok e h tr")
    case True
    then show ?thesis using server_callbacks.completion_ops [OF ops _ run] by blast
  next
    case False
    from stray_completion [OF ops False run] ops show ?thesis by auto
  qed
  ultimately show ?thesis by blast
qed

text \<open>
  What an event does to a handler and to the reactor: nothing to the reactor, or the removal
  of both registrations.
\<close>

lemma handle_outcome:
  assumes ops: "ops_inv {} h" and run: "RPMAHandler_handle e c junk i et h (Some r) tr = (Inr v, h', ro', tr')"
  shows "ops_inv {} h' \<and> same_fds h h' \<and>
         (ro' = Some r \<and> no_poll tr tr' \<or>
          (\<exists>tr1 ret. no_poll tr tr1 \<and> remove_pair e i h' (Some r) tr1 = (ret, ro', tr')))"
proof (cases "et = COMPLETION_EVENT")
  case True
  then have q: "ConnectionHandler_handle_completion e (RPMAHandler_run e c junk) h tr = (Inr v, h', tr')" and "ro' = Some r"
    using run by (auto simp: RPMAHandler_handle_def ConnectionHandler_handle_def split: prod.splits)
  with completion_outcome [OF ops q] no_poll_completion [OF q] show ?thesis by blast
next
  case False
  have "no_poll tr (tr @ [Conn x])" for x by simp
  then show ?thesis
    using False ops run
    by (auto simp: RPMAHandler_handle_def ConnectionHandler_handle_def same_fds_def
        ConnectionHandler_handle_connection_event_def RPMAHandler_remove_self_def env_simps obj_defs Let_def
        split: prod.splits if_splits)
qed

text \<open>A handler whose descriptors are in the table is replaced, or leaves with them.\<close>

lemma server_ok_update:
  assumes ok: "server_ok s tr" and old: "sv_handlers s i = Some h" and same: "same_fds h h'" and "ops_inv {} h'"
  shows "server_ok (s\<lparr>sv_handlers := (sv_handlers s)(i \<mapsto> h')\<rparr>) tr"
proof -
  have h': "i \<noteq> 0 \<and> i < sv_next s \<and> handler_ok i h' (sv_reactor s)"
    using server_okD(4) [OF ok old] same assms(4) by (simp add: handler_ok_def same_fds_def)
  have "\<exists>x. ((sv_handlers s)(i \<mapsto> h')) j = Some x \<and> fd \<in> {conn_fd x, comp_fd x}"
    if "reactor_view (sv_reactor s) fd = Some (et, j)" "j \<noteq> 0" for fd et j
    using server_okD(3) [OF ok that] old same by (auto simp: same_fds_def)
  then show ?thesis
    using server_okD [OF ok] h' by (intro server_okI) (auto simp: entry_ok_def split: if_splits)
qed

lemma server_ok_remove:
  assumes ok: "server_ok s tr" and old: "sv_handlers s i = Some h" and same: "same_fds h h'"
    and inv: "reactor_inv r' tr'"
    and view: "reactor_view r' = (reactor_view (sv_reactor s))(conn_fd h' := None, comp_fd h' := None)"
  shows "server_ok (s\<lparr>sv_reactor := r', sv_handlers := (sv_handlers s)(i := None)\<rparr>) tr' \<and> \<not> referenced i r'"
proof -
  let ?r = "sv_reactor s"
  have h: "i \<noteq> 0" "handler_ok i h ?r" using server_okD(4) [OF ok old] by simp_all
  have fds: "conn_fd h' = conn_fd h" "comp_fd h' = comp_fd h" using same by (simp_all add: same_fds_def)
  have sub: "reactor_view ?r fd = Some (et, j) \<and> fd \<noteq> conn_fd h \<and> fd \<noteq> comp_fd h \<and> j \<noteq> i"
    if "reactor_view r' fd = Some (et, j)" for fd et j
  proof -
    have v: "reactor_view ?r fd = Some (et, j)" "fd \<noteq> conn_fd h" "fd \<noteq> comp_fd h"
      using that view fds by (auto split: if_splits)
    then have "j \<noteq> i" using server_okD(3) [OF ok v(1)] h(1) old by auto
    with v show ?thesis by simp
  qed
  have "handler_ok j x r'" if "sv_handlers s j = Some x" "j \<noteq> i" for j x
  proof -
    have x: "handler_ok j x ?r" using server_okD(4) [OF ok that(1)] by simp
    then have "conn_fd x \<notin> {conn_fd h, comp_fd h}" "comp_fd x \<notin> {conn_fd h, comp_fd h}"
      using h(2) that(2) by (auto simp: handler_ok_def)
    with x show ?thesis by (simp add: handler_ok_def view fds)
  qed
  moreover have "entry_ok ((sv_handlers s)(i := None)) fd et j" if "reactor_view r' fd = Some (et, j)" for fd et j
    using sub [OF that] server_okD(2,3) [OF ok] by (cases "j = 0") (auto simp: entry_ok_def)
  moreover have "\<not> referenced i r'"
    using sub by (auto simp: referenced_view [OF inv])
  ultimately show ?thesis
    using inv server_okD(4,5) [OF ok] by (intro conjI server_okI) (simp_all split: if_splits)
qed

lemma server_ok_add:
  assumes ok: "server_ok s tr" and free: "fds_free h tr1" and np: "no_poll tr tr1" and ops: "ops_inv {} h"
    and inv: "reactor_inv r' tr'" and view: "reactor_view r' = pair_view (sv_next s) h (reactor_view (sv_reactor s))"
  shows "server_ok (s\<lparr>sv_reactor := r', sv_handlers := (sv_handlers s)(sv_next s \<mapsto> h), sv_next := Suc (sv_next s)\<rparr>) tr' \<and>
         referenced (sv_next s) r'"
proof -
  let ?i = "sv_next s"
  let ?r = "sv_reactor s"
  have fds: "conn_fd h \<noteq> -1" "comp_fd h \<noteq> -1" "conn_fd h \<noteq> comp_fd h" using free by (simp_all add: fds_free_def)
  have none: "reactor_view ?r (conn_fd h) = None" "reactor_view ?r (comp_fd h) = None"
    using free reactor_invD(4) [OF server_okD(1) [OF ok]] no_poll_interest [OF np]
    by (simp_all add: fds_free_def reactor_view_def)
  have new: "handler_ok ?i h r'" using fds ops by (simp add: handler_ok_def view pair_view_def)
  have "handler_ok j x r'" if "sv_handlers s j = Some x" for j x
  proof -
    have x: "handler_ok j x ?r" using server_okD(4) [OF ok that] by simp
    then have "conn_fd x \<notin> {conn_fd h, comp_fd h}" "comp_fd x \<notin> {conn_fd h, comp_fd h}"
      using none by (auto simp: handler_ok_def)
    with x show ?thesis by (auto simp: handler_ok_def view pair_view_def)
  qed
  moreover have "entry_ok ((sv_handlers s)(?i \<mapsto> h)) fd et j"
    if v: "reactor_view r' fd = Some (et, j)" for fd et j
  proof (cases "fd \<in> {conn_fd h, comp_fd h}")
    case True
    then show ?thesis
      using v server_okD(5) [OF ok] fds by (auto simp: entry_ok_def view pair_view_def split: if_splits)
  next
    case False
    then have o: "reactor_view ?r fd = Some (et, j)" using v by (auto simp: view pair_view_def)
    show ?thesis
    proof (cases "j = 0")
      case True
      with o server_okD(2) [OF ok] show ?thesis by (simp add: entry_ok_def)
    next
      case jn: False
      with server_okD(3) [OF ok o] obtain x where "sv_handlers s j = Some x" "fd \<in> {conn_fd x, comp_fd x}" by blast
      moreover from this server_okD(4) [OF ok] have "j \<noteq> ?i" by blast
      ultimately show ?thesis using jn by (simp add: entry_ok_def)
    qed
  qed
  moreover have "referenced ?i r'"
    using new referenced_view [OF inv] by (auto simp: handler_ok_def)
  ultimately show ?thesis
    using inv new server_okD(4,5) [OF ok]
    by (intro conjI server_okI) (simp_all add: less_SucI split: if_splits)
qed

lemma release_outcome:
  assumes "release_handler e i s tr = (s', tr')"
  shows "no_poll tr tr' \<and> s' = (if referenced i (sv_reactor s) then s else s\<lparr>sv_handlers := (sv_handlers s)(i := None)\<rparr>)"
  using assms
  by (auto simp: release_handler_def fun_upd_idem split: if_splits option.splits prod.splits dest: no_poll_destroy)

text \<open>A connection that could not be registered is gone again.\<close>

lemma server_ok_skip:
  assumes ok: "server_ok s tr" and inv: "reactor_inv r' tr'" and view: "reactor_view r' = reactor_view (sv_reactor s)"
  shows "server_ok (s\<lparr>sv_reactor := r', sv_next := Suc (sv_next s)\<rparr>) tr'" and "sv_handlers s (sv_next s) = None"
    and "\<not> referenced (sv_next s) r'"
proof -
  show "server_ok (s\<lparr>sv_reactor := r', sv_next := Suc (sv_next s)\<rparr>) tr'"
    using server_okD [OF ok] inv view by (intro server_okI) (auto simp: handler_ok_def entry_ok_def less_SucI split: if_splits)
  show none: "sv_handlers s (sv_next s) = None"
    using server_okD(4) [OF ok, of "sv_next s"] by (cases "sv_handlers s (sv_next s)") auto
  then show "\<not> referenced (sv_next s) r'"
    using server_okD(3,5) [OF ok] view referenced_view [OF inv] by fastforce
qed

lemma accept_ok:
  assumes kernel: "epoll_ok e" and fresh: "conn_fds_fresh e" and ok: "server_ok s tr"
    and run: "AcceptorHandler_handle e w et s tr = (Inr v, s', tr')"
  shows "server_ok s' tr'"
proof -
  let ?j = "w_junk w tr" and ?a = "sv_acceptor s" and ?i = "sv_next s"
  obtain x tr1 where n: "RPMAHandler_new e (sj_conn_fd ?j) (sj_comp_fd ?j) (sj_size ?j) (ac_peer ?a) (ac_ep ?a) tr = (x, tr1)"
    by (metis prod.exhaust)
  have new: "new_ok tr (x, tr1)" using new_handler_fds [OF fresh] n by metis
  have ok1: "server_ok s tr1" by (rule server_ok_trace [OF ok no_poll_interest]) (use new in \<open>simp add: new_ok_def\<close>)
  show ?thesis
  proof (cases x)
    case (Inl f)
    with new run n ok1 show ?thesis
      by (auto simp: AcceptorHandler_handle_def new_ok_def split: if_splits)
  next
    case (Inr h)
    then have free: "fds_free h tr1" and ops: "ops_inv {} h"
      using new new_handler_ops n by (auto simp: new_ok_def)
    have none: "reactor_view (sv_reactor s) (conn_fd h) = None" "reactor_view (sv_reactor s) (comp_fd h) = None"
      using free reactor_invD(4) [OF server_okD(1) [OF ok1]] by (simp_all add: fds_free_def reactor_view_def)
    obtain ret ro tr2 where g: "register_pair e ?i h (Some (sv_reactor s)) tr1 = (ret, ro, tr2)" by (metis prod_cases3)
    then obtain r' where r': "ro = Some r'" "reactor_inv r' tr2"
      and v: "reactor_view r' = (if ret = 0 then pair_view ?i h (reactor_view (sv_reactor s)) else reactor_view (sv_reactor s))"
      using register_pair_outcome [OF kernel server_okD(1) [OF ok1] none _ g] free by (auto simp: fds_free_def)
    let ?s = "s\<lparr>sv_reactor := r', sv_handlers := (sv_handlers s)(?i \<mapsto> h), sv_next := Suc ?i\<rparr>"
    obtain s3 tr3 where rel: "release_handler e ?i ?s tr2 = (s3, tr3)" by (metis prod.exhaust)
    have s': "s' = s3" "tr' = tr3"
      using run n Inr g r' rel
      by (auto simp: AcceptorHandler_handle_def RPMAHandler_register_self_def Let_def split: if_splits)
    note out = release_outcome [OF rel]
    have "server_ok s3 tr2"
    proof (cases "ret = 0")
      case True
      with server_ok_add [OF ok1 free appends_refl ops r'(2)] v out show ?thesis by simp
    next
      case False
      then have same: "reactor_view r' = reactor_view (sv_reactor s)" using v by simp
      note skip = server_ok_skip [OF ok1 r'(2) same]
      then have "s3 = s\<lparr>sv_reactor := r', sv_next := Suc ?i\<rparr>" using out by (simp add: fun_upd_idem)
      with skip(1) show ?thesis by simp
    qed
    with out s' show ?thesis using server_ok_trace no_poll_interest by auto
  qed
qed

lemma event_ok:
  assumes kernel: "epoll_ok e" and ok: "server_ok s tr" and h: "sv_handlers s i = Some h"
    and run: "server_dispatch e c w i et s tr = (Inr v, s', tr')"
  shows "server_ok s' tr'"
proof -
  let ?h0 = "case w_recv w tr i of None \<Rightarrow> h | Some msg \<Rightarrow> h\<lparr>recv_bl := msg\<rparr>"
  have i: "i \<noteq> 0" "handler_ok i h (sv_reactor s)" using server_okD(4) [OF ok h] by simp_all
  then have h0: "ops_inv {} ?h0" "same_fds h ?h0"
    by (auto simp: handler_ok_def same_fds_def split: option.splits)
  obtain x h1 ro tr1 where g: "RPMAHandler_handle e c (sj_pcfg (w_junk w tr)) i et ?h0 (Some (sv_reactor s)) tr = (x, h1, ro, tr1)"
    by (metis prod.exhaust)
  let ?r = "case ro of None \<Rightarrow> sv_reactor s | Some r \<Rightarrow> r"
  let ?s = "s\<lparr>sv_reactor := ?r, sv_handlers := (sv_handlers s)(i \<mapsto> h1)\<rparr>"
  obtain s2 tr2 where rel: "release_handler e i ?s tr1 = (s2, tr2)" by (metis prod.exhaust)
  have s': "x = Inr v" "s' = s2" "tr' = tr2"
    using run i(1) h g rel by (simp_all add: server_dispatch_def Let_def)
  note out = handle_outcome [OF h0(1) g [unfolded s'(1)]] and rout = release_outcome [OF rel]
  have same: "same_fds h h1" using out same_fds_trans [OF h0(2)] by blast
  consider "ro = Some (sv_reactor s)" "no_poll tr tr1"
    | t ret where "no_poll tr t" "remove_pair e i h1 (Some (sv_reactor s)) t = (ret, ro, tr1)"
    using out by blast
  then show ?thesis
  proof cases
    case 1
    have "referenced i (sv_reactor s)"
      using i(2) referenced_view [OF server_okD(1) [OF ok]] by (auto simp: handler_ok_def)
    then have "s2 = s\<lparr>sv_handlers := (sv_handlers s)(i \<mapsto> h1)\<rparr>" using rout 1 by simp
    moreover have "no_poll tr tr2" using no_poll_trans 1(2) rout by blast
    moreover have "server_ok (s\<lparr>sv_handlers := (sv_handlers s)(i \<mapsto> h1)\<rparr>) tr"
      using server_ok_update [OF ok h same] out by blast
    ultimately show ?thesis using s' server_ok_trace no_poll_interest by simp
  next
    case 2
    have inv: "reactor_inv (sv_reactor s) t"
      using reactor_inv_cong [OF no_poll_interest [OF 2(1)] server_okD(1) [OF ok]] .
    have "conn_fd h1 \<noteq> -1" "comp_fd h1 \<noteq> -1" using i(2) same by (auto simp: handler_ok_def same_fds_def)
    then obtain r' where r': "ro = Some r'" "reactor_inv r' tr1"
        "reactor_view r' = (reactor_view (sv_reactor s))(conn_fd h1 := None, comp_fd h1 := None)"
      using remove_pair_outcome [OF kernel inv _ _ 2(2)] by blast
    note rm = server_ok_remove [OF ok h same r'(2,3)]
    then have "s2 = s\<lparr>sv_reactor := r', sv_handlers := (sv_handlers s)(i := None)\<rparr>"
      using rout r'(1) by simp
    then show ?thesis using rm rout s' server_ok_trace no_poll_interest by auto
  qed
qed

lemma dispatch_ok:
  assumes "epoll_ok e" and "conn_fds_fresh e" and ok: "server_ok s tr"
    and view: "reactor_view (sv_reactor s) fd = Some (et, i)"
    and run: "server_dispatch e c w i et s tr = (Inr v, s', tr')"
  shows "server_ok s' tr'"
proof (cases "i = 0")
  case True
  then show ?thesis using run accept_ok [OF assms(1-3)] by (simp add: server_dispatch_def)
next
  case False
  then obtain h where "sv_handlers s i = Some h" using server_okD(3) [OF ok view] by blast
  then show ?thesis using event_ok [OF assms(1,3) _ run] by blast
qed

subsection \<open>The event loop of the server\<close>

text \<open>The environment a server needs: an epoll that works and fresh descriptors.\<close>

locale server_environment =
  fixes e :: env
  assumes polls: "epoll_ok e" and descriptors: "conn_fds_fresh e"

sublocale server_environment \<subseteq> loop: event_loop e sv_reactor "server_dispatch e c w" server_ok for c w
proof unfold_locales
  show "epoll_ok e" by (rule polls)
  show "server_ok s tr \<Longrightarrow> reactor_inv (sv_reactor s) tr" for s tr by (rule server_okD(1))
  show "server_ok s tr \<Longrightarrow> server_ok s (tr @ [Poll (Ev_epoll_wait x)])" for s tr x
    by (rule server_ok_trace) simp_all
  show "\<lbrakk>server_ok s tr; reactor_view (sv_reactor s) fd = Some (et, i); server_dispatch e c w i et s tr = (Inr v, s', tr')\<rbrakk>
      \<Longrightarrow> server_ok s' tr'" for s tr fd et i v s' tr'
    by (rule dispatch_ok [OF polls descriptors])
qed

context server_environment
begin

lemma handle_events_outcome:
  assumes "server_ok s tr" and "Reactor_handle_events e sv_reactor (server_dispatch e c w) n s tr = Some (res, s', tr')"
  shows "case res of
      Inr ret \<Rightarrow> server_ok s' tr' \<and> (ret = 1 \<longrightarrow> Reactor_empty (sv_reactor s'))
    | Inl f \<Rightarrow> (\<exists>i et fd s0 t. server_ok s0 t \<and> reactor_view (sv_reactor s0) fd = Some (et, i) \<and>
                 server_dispatch e c w i et s0 t = (Inl f, s', tr'))"
  by (rule loop.loop_safe [OF assms])

end

lemma handle_failure:
  assumes ops: "ops_inv {} h" and run: "RPMAHandler_handle e c junk i et h ro tr = (Inl f, h', ro', tr')"
  shows "f \<in> request_failures \<or> f = Use_after_free \<and> \<not> completion_ok e h tr"
proof (cases "completion_ok e h tr")
  case True
  then show ?thesis using server_handle_ops [OF ops True run] by blast
next
  case False
  from run stray_completion [OF ops False] False show ?thesis
    by (auto simp: RPMAHandler_handle_def ConnectionHandler_handle_def split: if_splits prod.splits)
qed

text \<open>The constructor of a connection throws only what the acceptor catches.\<close>

lemma accept_no_failure:
  assumes "conn_fds_fresh e"
  shows "\<exists>v. fst (AcceptorHandler_handle e w ACCEPT_EVENT s tr) = Inr v"
proof -
  let ?j = "w_junk w tr"
  let ?a = "sv_acceptor s"
  obtain x tr1 where n: "RPMAHandler_new e (sj_conn_fd ?j) (sj_comp_fd ?j) (sj_size ?j) (ac_peer ?a) (ac_ep ?a) tr = (x, tr1)"
    by (metis prod.exhaust)
  have "new_ok tr (x, tr1)" using new_handler_fds [OF assms] n by metis
  with n show ?thesis
    by (cases x) (auto simp: AcceptorHandler_handle_def new_ok_def Let_def split: prod.splits)
qed

lemma dispatch_failure:
  assumes "conn_fds_fresh e" and ok: "server_ok s tr"
    and view: "reactor_view (sv_reactor s) fd = Some (et, i)"
    and run: "server_dispatch e c w i et s tr = (Inl f, s', tr')"
  shows "f \<in> request_failures \<or>
         f = Use_after_free \<and> (\<exists>h. sv_handlers s i = Some h \<and> \<not> completion_ok e h tr)"
proof (cases "i = 0")
  case True
  have "et = ACCEPT_EVENT" using view ok True server_okD(2) by blast
  then show ?thesis
    using run True accept_no_failure [OF assms(1), of w s tr] by (auto simp: server_dispatch_def)
next
  case False
  then obtain h where h: "sv_handlers s i = Some h" using server_okD(3) [OF ok view] by blast
  then have ops: "ops_inv {} h" using server_okD(4) [OF ok h] by (simp add: handler_ok_def)
  let ?h0 = "case w_recv w tr i of None \<Rightarrow> h | Some msg \<Rightarrow> h\<lparr>recv_bl := msg\<rparr>"
  have h0: "ops_inv {} ?h0" "completion_ok e ?h0 tr = completion_ok e h tr"
    using ops by (simp_all add: completion_ok_deliver split: option.splits)
  obtain x h1 ro tr1 where g: "RPMAHandler_handle e c (sj_pcfg (w_junk w tr)) i et ?h0 (Some (sv_reactor s)) tr = (x, h1, ro, tr1)"
    by (metis prod.exhaust)
  have "x = Inl f"
    using run False h g by (auto simp: server_dispatch_def Let_def split: prod.splits)
  with handle_failure [OF h0(1)] g h h0(2) show ?thesis by blast
qed

subsection \<open>A machine on which the server runs\<close>

text \<open>
  New descriptors lie above all that were ever watched; epoll reports one event, for the entry
  with address 0 and only while it is watched.
\<close>

fun event_fd :: "event \<Rightarrow> fd" where
  "event_fd (Poll (Ev_epoll_add fd p r)) = fd"
| "event_fd ev = 0"

definition fresh_fd :: "trace \<Rightarrow> fd" where
  "fresh_fd tr = Max (insert 0 (event_fd ` set tr)) + 1"

lemma interest_dom: "dom (interest tr) \<subseteq> event_fd ` set tr"
proof (induction tr rule: rev_induct)
  case Nil
  then show ?case by (simp add: interest_def)
next
  case (snoc ev tr)
  have "dom (poll_apply I ev) \<subseteq> insert (event_fd ev) (dom I)" for I
    by (cases "(I, ev)" rule: poll_apply.cases) (auto split: if_splits)
  from this [of "interest tr"] snoc show ?case by auto
qed

lemma fresh_fd_pos: "0 < fresh_fd tr"
proof -
  have "0 \<le> Max (insert 0 (event_fd ` set tr))" by (intro Max_ge) simp_all
  then show ?thesis by (simp add: fresh_fd_def)
qed

lemma fresh_fd_unwatched: "fresh_fd tr \<le> f \<Longrightarrow> interest tr f = None \<and> f \<noteq> -1"
proof -
  assume f: "fresh_fd tr \<le> f"
  have le: "x \<le> Max (insert 0 (event_fd ` set tr))" if "x \<in> insert 0 (event_fd ` set tr)" for x
    using that by (intro Max_ge) simp_all
  have "f \<notin> event_fd ` set tr"
  proof
    assume "f \<in> event_fd ` set tr"
    then have "f \<le> Max (insert 0 (event_fd ` set tr))" using le [of f] by blast
    with f show False unfolding fresh_fd_def by linarith
  qed
  moreover have "f > 0" using fresh_fd_pos [of tr] f by linarith
  ultimately show ?thesis using interest_dom [of tr] by (auto simp: domIff)
qed

definition has_waited :: "trace \<Rightarrow> bool" where
  "has_waited tr = (\<exists>ev \<in> set tr. case ev of Poll (Ev_epoll_wait r) \<Rightarrow> True | _ \<Rightarrow> False)"

definition accept_env :: env where
  "accept_env = server_env\<lparr>
     poll_of := kernel_poll\<lparr>e_epoll_wait :=
       (\<lambda>tr. if \<not> has_waited tr \<and> interest tr 10 = Some 0 then (1, Some 0) else (0, None))\<rparr>,
     conn_of := demo_conn\<lparr>e_conn_get_event_fd := (\<lambda>tr q. (0, Some (fresh_fd tr))),
       e_conn_get_completion_fd := (\<lambda>tr q. (0, Some (fresh_fd tr + 1)))\<rparr>\<rparr>"

lemma fresh_fd_conn: "fresh_fd (tr @ [Conn x]) = fresh_fd tr"
proof -
  have "insert 0 (event_fd ` set (tr @ [Conn x])) = insert 0 (event_fd ` set tr)" by auto
  then show ?thesis by (simp only: fresh_fd_def)
qed

lemma accept_env_kernel: "epoll_ok accept_env"
  by (auto simp: epoll_ok_def accept_env_def kernel_poll_def demo_poll_def ran_def split: if_splits)

lemma accept_env_fds: "conn_fds_fresh accept_env"
proof -
  have "fresh_fd tr + 1 \<noteq> -1" for tr using fresh_fd_pos [of tr] by simp
  with fresh_fd_unwatched show ?thesis
    by (auto simp: conn_fds_fresh_def accept_env_def fresh_fd_conn)
qed

interpretation accept_server: server_environment accept_env
  by unfold_locales (rule accept_env_kernel, rule accept_env_fds)

subsection \<open>Properties\<close>


text \<open>Accepting a connection only appends to the trace.\<close>

abbreviation extends :: "trace \<Rightarrow> trace \<Rightarrow> bool" where
  "extends \<equiv> appends (\<lambda>ev. True)"

lemmas extends_trans = appends_trans [where P = "\<lambda>ev. True"]
lemmas extends_def = appends_def [where P = "\<lambda>ev. True", simplified]

lemma no_poll_extends: "no_poll tr tr' \<Longrightarrow> extends tr tr'"
  by (rule appends_mono) simp_all

lemma reactor_extends:
  "Reactor_register_handler e gh i et r tr = (ret, r', tr') \<Longrightarrow> extends tr tr'"
  "Reactor_remove_handler e gh i et r tr = (ret, r', tr') \<Longrightarrow> extends tr tr'"
  by (auto simp: reactor_defs extends_def env_simps Let_def split: if_splits prod.splits option.splits)

lemma pair_extends: "register_pair e i h ro tr = (ret, ro', tr') \<Longrightarrow> extends tr tr'"
  by (auto simp: register_pair_def Let_def split: if_splits prod.splits option.splits
      dest!: reactor_extends intro: extends_trans)

lemma accept_extends:
  assumes "conn_fds_fresh e" and "AcceptorHandler_handle e w et s tr = (r, s', tr')"
  shows "extends tr tr'"
proof -
  let ?j = "w_junk w tr"
  let ?a = "sv_acceptor s"
  obtain x tr1 where n: "RPMAHandler_new e (sj_conn_fd ?j) (sj_comp_fd ?j) (sj_size ?j) (ac_peer ?a) (ac_ep ?a) tr = (x, tr1)"
    by (metis prod.exhaust)
  have "new_ok tr (x, tr1)" using new_handler_fds [OF assms(1)] n by metis
  then have e1: "extends tr tr1" by (simp add: new_ok_def no_poll_extends)
  have "extends tr1 t3"
    if "register_pair e i h ro tr1 = (v, ro', t2)" and "release_handler e i s2 t2 = (s3, t3)" for i h ro v ro' t2 s2 s3 t3
    using extends_trans [OF pair_extends [OF that(1)]] release_outcome [OF that(2)] no_poll_extends by blast
  with e1 n assms(2) show ?thesis
    by (auto simp: AcceptorHandler_handle_def RPMAHandler_register_self_def Let_def extends_def
        split: if_splits prod.splits sum.splits failure.splits) blast+
qed

text \<open>A server that listens on descriptor 10 with the acceptor registered under address 0.\<close>

definition listening :: "fd \<Rightarrow> server" where
  "listening f = \<lparr>sv_reactor = \<lparr>epoll = 3, event_table = [(f, \<lparr>eh_node = 0, eh_type = ACCEPT_EVENT, eh_handler = 0\<rparr>)],
       next_node = 1\<rparr>,
     sv_acceptor = \<lparr>ac_fd = f, ac_address = ''a'', ac_port = ''p'', ac_peer = Some 1, ac_ep = Some 2\<rparr>,
     sv_handlers = Map.empty, sv_next = 1\<rparr>"

definition demo_world :: world where
  "demo_world = \<lparr>w_junk = (\<lambda>tr. \<lparr>sj_conn_fd = 0, sj_comp_fd = 0, sj_size = 0, sj_pcfg = 0\<rparr>), w_recv = (\<lambda>tr i. None)\<rparr>"

lemma listening_ok: "server_ok (listening 10) [Poll (Ev_epoll_add 10 0 (0, 0))]"
  by (intro server_okI) (auto simp: listening_def reactor_inv_def reactor_view_def interest_def entry_ok_def split: if_splits)


lemma pmem_exhausted:
  assumes "\<forall>t p n k. fst (e_pmem_map_file (mem_of e) t p n k) = None"
    and "MemoryManager_get_memory_from_pmem e path m tr = (d, m', tr')"
  shows "d = None"
proof -
  have no: "e_pmem_map_file (mem_of e) t p n k \<noteq> (Some a, l, b)" for t p n k a l b
    using assms(1) by (metis fst_conv option.distinct(1))
  show ?thesis
    using assms(2)
    by (auto simp: MemoryManager_get_memory_from_pmem_def env_simps Let_def no
        split: if_splits prod.splits option.splits)
qed

lemma init_exhausted:
  assumes "\<forall>t n. e_malloc (mem_of e) t n = None" and "\<forall>t p n k. fst (e_pmem_map_file (mem_of e) t p n k) = None"
  shows "\<exists>m' tr'. MemoryManager_init e sz path m tr = (Inl (Runtime_error ''memory malloc failed''), m', tr')"
proof -
  let ?p = "''/mnt/pmem/'' @ path"
  let ?m = "m\<lparr>mm_path := ?p, mm_size := sz\<rparr>"
  obtain d m1 tr1 where g: "MemoryManager_get_memory_from_pmem e ?p ?m tr = (d, m1, tr1)" by (metis prod_cases3)
  with pmem_exhausted [OF assms(2) g] assms(1) show ?thesis
    by (simp add: MemoryManager_init_def mm_acquire_def MemoryManager_get_memory_from_dram_def env_simps)
qed

text \<open>The dispatch of a completed receive that holds an init request, with exhausted memory.\<close>

lemma request_exhausts:
  assumes c: "ceph_encoding c"
    and exhausted: "\<forall>t n. e_malloc (mem_of e) t n = None" "\<forall>t p n k. fst (e_pmem_map_file (mem_of e) t p n k) = None"
    and hid: "j0 \<noteq> 0" "sv_handlers s j0 = Some h"
    and cmpl: "\<forall>t q. e_conn_completion_wait (conn_of e) t q = 0" "\<forall>t q. e_conn_completion_get (conn_of e) t q = (0, x)"
      "op_status x = IBV_WC_SUCCESS" "op_context x = Some a" "op_heap h a = Some \<lparr>op_class = k, func = Deal_require\<rparr>"
    and msg: "\<forall>t j. w_recv w t j = Some (RwlReplicaInitRequest_encode c \<lparr>type_of = RWL_REPLICA_INIT_REQUEST, info = i\<rparr> @ rest)"
    and small: "36 + length (pool_name i) + length (image_name i) < 2 ^ 32"
    and none: "mm_data (data_manager h) = None"
  shows "\<exists>s' tr'. server_dispatch e c w j0 COMPLETION_EVENT s tr = (Inl (Runtime_error ''memory malloc failed''), s', tr')"
proof -
  let ?rq = "RwlReplicaInitRequest_encode c \<lparr>type_of = RWL_REPLICA_INIT_REQUEST, info = i\<rparr> @ rest"
  let ?q = "rc_conn (ch_conn h)"
  let ?h1 = "h\<lparr>recv_bl := ?rq, callback_table := callback_table h - {a}\<rparr>"
  let ?tr3 = "tr @ [Conn (Ev_conn_completion_wait ?q 0), Conn (Ev_conn_completion_get ?q (0, x))]"
  obtain m' tr4 where init: "MemoryManager_init e (cache_size i) (replica_path i) (data_manager ?h1) ?tr3
      = (Inl (Runtime_error ''memory malloc failed''), m', tr4)"
    using init_exhausted [OF exhausted] by blast
  have g: "RPMAHandler_get_descriptor e c (sj_pcfg (w_junk w tr)) ?h1 ?tr3
      = (Inl (Runtime_error ''memory malloc failed''), ?h1\<lparr>data_manager := m'\<rparr>, tr4)"
    using get_descriptor_init [OF c _ small _ init] none by simp
  have "\<exists>h' tr'. RPMAHandler_handle e c (sj_pcfg (w_junk w tr)) j0 COMPLETION_EVENT (h\<lparr>recv_bl := ?rq\<rparr>)
      (Some (sv_reactor s)) tr = (Inl (Runtime_error ''memory malloc failed''), h', Some (sv_reactor s), tr')"
    using cmpl g
    by (simp add: RPMAHandler_handle_def ConnectionHandler_handle_def ConnectionHandler_handle_completion_def
        env_simps obj_defs RpmaOp_do_callback_def RPMAHandler_run_def RPMAHandler_deal_require_def)
  then show ?thesis
    using hid msg by (auto simp: server_dispatch_def Let_def split: prod.splits)
qed

text \<open>
  C35: One request can end the server for everybody. When a connection's receive completes with an
  init request and the memory is exhausted, the exception of \<open>MemoryManager::init\<close> passes
  through the handler and the event loop: \<open>handle_events\<close> is left, the endless loop of
  \<open>main\<close> is left, and the program returns 0.
\<close>

theorem server_ended_by_request:
  assumes c: "ceph_encoding c"
    and exhausted: "\<forall>t n. e_malloc (mem_of e) t n = None" "\<forall>t p n k. fst (e_pmem_map_file (mem_of e) t p n k) = None"
    and ev: "e_epoll_wait (poll_of e) tr = (1, Some p)" "Reactor_deref (sv_reactor s) p = Some eh"
      "eh_type eh = COMPLETION_EVENT" "eh_handler eh \<noteq> 0" "sv_handlers s (eh_handler eh) = Some h"
    and cmpl: "\<forall>t q. e_conn_completion_wait (conn_of e) t q = 0" "\<forall>t q. e_conn_completion_get (conn_of e) t q = (0, x)"
      "op_status x = IBV_WC_SUCCESS" "op_context x = Some a" "op_heap h a = Some \<lparr>op_class = k, func = Deal_require\<rparr>"
    and msg: "\<forall>t j. w_recv w t j = Some (RwlReplicaInitRequest_encode c \<lparr>type_of = RWL_REPLICA_INIT_REQUEST, info = i\<rparr> @ rest)"
    and small: "36 + length (pool_name i) + length (image_name i) < 2 ^ 32"
    and none: "mm_data (data_manager h) = None"
  shows "\<exists>s' tr'. server_loop e c w (Suc m) (Suc n) s tr = Some (Runtime_error ''memory malloc failed'', s', tr') \<and>
     main_catch (Runtime_error ''memory malloc failed'') = Inr 0"
  using request_exhausts [OF c exhausted ev(4,5) cmpl msg small none, of "tr @ [Poll (Ev_epoll_wait (1, Some p))]"] ev
  by (auto simp: env_simps main_catch_def)

text \<open>A server whose memory is exhausted, with one connection whose receive has just completed.\<close>

definition exhausted_env :: env where
  "exhausted_env = full_env\<lparr>
     poll_of := kernel_poll\<lparr>e_epoll_wait := (\<lambda>tr. (1, Some 1))\<rparr>,
     conn_of := demo_conn\<lparr>e_conn_completion_get :=
       (\<lambda>tr q. (0, \<lparr>op_context = Some 0, op = RPMA_OP_RECV, byte_len = 4096, op_status = 0\<rparr>))\<rparr>\<rparr>"

definition connected :: server where
  "connected = (listening 10)\<lparr>
     sv_reactor := \<lparr>epoll = 3,
       event_table = [(12, \<lparr>eh_node = 1, eh_type = COMPLETION_EVENT, eh_handler = 1\<rparr>),
                      (11, \<lparr>eh_node = 2, eh_type = CONNECTION_EVENT, eh_handler = 1\<rparr>)], next_node = 3\<rparr>,
     sv_handlers := [1 \<mapsto> (waiting_server [])\<lparr>op_heap := [0 \<mapsto> \<lparr>op_class = RpmaReqRecv, func = Deal_require\<rparr>],
       callback_table := {0}\<rparr>], sv_next := 2\<rparr>"

definition request_world :: world where
  "request_world = demo_world\<lparr>w_recv := (\<lambda>tr i. Some demo_init_msg)\<rparr>"

theorem server_ended_by_request_witness:
  "\<exists>s' tr'. server_loop exhausted_env ceph_le request_world 1 1 connected [] =
       Some (Runtime_error ''memory malloc failed'', s', tr') \<and>
     main_catch (Runtime_error ''memory malloc failed'') = Inr 0"
  using server_ended_by_request [OF ceph_le.ceph_encoding_axioms, of exhausted_env "[]" 1 connected
      "\<lparr>eh_node = 1, eh_type = COMPLETION_EVENT, eh_handler = 1\<rparr>"
      "(waiting_server [])\<lparr>op_heap := [0 \<mapsto> \<lparr>op_class = RpmaReqRecv, func = Deal_require\<rparr>], callback_table := {0}\<rparr>"
      "\<lparr>op_context = Some 0, op = RPMA_OP_RECV, byte_len = 4096, op_status = 0\<rparr>" 0 RpmaReqRecv
      request_world demo_info "[]" 0 0]
  by (simp add: exhausted_env_def full_env_def dram_env_def demo_env_def demo_mem_def demo_conn_def
      connected_def Reactor_deref_def request_world_def IBV_WC_SUCCESS_def demo_info_def)

end
