(* ===== verification/Server_Main.thy ===== *)
theory Server_Main
  imports Server_Program
begin

text \<open>
  The resources of the whole server: what all its connections hold together, kept apart by every
  event, and given back when \<open>main\<close> returns.
\<close>

subsection \<open>What one handler adds\<close>

definition held_by :: "footprint \<Rightarrow> RPMAHandler \<Rightarrow> footprint \<Rightarrow> bool" where
  "held_by F h F' \<longleftrightarrow>
     (\<forall>a. mm_data (data_manager h) = Some a \<longrightarrow> fp_blocks F a = None) \<and>
     fp_blocks F' = mm_gain (data_manager h) (fp_blocks F) \<and>
     distinct (opt_list (data_mr h) @ buffer_mrs h) \<and> set (opt_list (data_mr h) @ buffer_mrs h) \<inter> fp_mrs F = {} \<and>
     fp_mrs F' = fp_mrs F \<union> set (opt_list (data_mr h) @ buffer_mrs h) \<and>
     set_option (rc_conn (ch_conn h)) \<inter> fp_conns F = {} \<and>
     fp_conns F' = fp_conns F \<union> set_option (rc_conn (ch_conn h))"

lemma session_held: "session_inv F h tr = held_by F h (footprint tr)"
  by (auto simp: session_inv_def held_by_def holds_memory_def holds_mrs_def holds_conn_def)

lemma held_swap:
  assumes "held_by F h F1" and "held_by F1 g F2"
  shows "\<exists>F'. held_by F g F' \<and> held_by F' h F2"
proof -
  let ?F = "\<lparr>fp_blocks = mm_gain (data_manager g) (fp_blocks F),
     fp_mrs = fp_mrs F \<union> set (opt_list (data_mr g) @ buffer_mrs g),
     fp_conns = fp_conns F \<union> set_option (rc_conn (ch_conn g))\<rparr>"
  have b: "mm_gain (data_manager h) (mm_gain (data_manager g) (fp_blocks F)) = fp_blocks F2"
      "\<forall>a. mm_data (data_manager g) = Some a \<longrightarrow> fp_blocks F a = None"
      "\<forall>a. mm_data (data_manager h) = Some a \<longrightarrow> mm_gain (data_manager g) (fp_blocks F) a = None"
    using assms by (auto simp: held_by_def mm_gain_def fun_upd_twist split: option.splits if_splits)
  then have "held_by F g ?F" and "held_by ?F h F2"
    using assms by (auto simp: held_by_def)
  then show ?thesis by blast
qed

subsection \<open>What all handlers hold\<close>

inductive holdings :: "footprint \<Rightarrow> (hid \<rightharpoonup> RPMAHandler) \<Rightarrow> footprint \<Rightarrow> bool" for B where
  nothing: "holdings B Map.empty B"
| another: "\<lbrakk>holdings B H F; H i = None; held_by F h F'\<rbrakk> \<Longrightarrow> holdings B (H(i \<mapsto> h)) F'"

lemma holdings_empty: "holdings B Map.empty F \<Longrightarrow> F = B"
  by (erule holdings.cases) (auto simp: fun_eq_iff split: if_splits)

text \<open>The order in which handlers came does not matter: each of them may be taken out.\<close>

lemma holdings_take:
  "holdings B H F \<Longrightarrow> H i = Some h \<Longrightarrow> \<exists>F'. holdings B (H(i := None)) F' \<and> held_by F' h F"
proof (induction rule: holdings.induct)
  case (another H F j g F2)
  show ?case
  proof (cases "i = j")
    case True
    then have eq: "(H(j \<mapsto> g))(i := None) = H" and "g = h" using another.hyps(2) another.prems by auto
    with another.hyps(1,3) show ?thesis unfolding eq by blast
  next
    case False
    then have "H i = Some h" using another.prems by simp
    from another.IH [OF this] obtain F' where F': "holdings B (H(i := None)) F'" "held_by F' h F" by blast
    obtain F'' where F'': "held_by F' g F''" "held_by F'' h F2" using held_swap [OF F'(2) another.hyps(3)] by blast
    have "holdings B ((H(i := None))(j \<mapsto> g)) F''"
      using another.hyps(2) by (intro holdings.another [OF F'(1) _ F''(1)]) simp
    moreover have "(H(i := None))(j \<mapsto> g) = (H(j \<mapsto> g))(i := None)" using False by (simp add: fun_upd_twist)
    ultimately show ?thesis using F''(2) by metis
  qed
qed simp

lemma holdings_put: "holdings B (H(i := None)) F \<Longrightarrow> held_by F h F' \<Longrightarrow> holdings B (H(i \<mapsto> h)) F'"
  using holdings.another [of B "H(i := None)" F i h F'] by simp

lemma footprint_quiet: "quiet tr tr' \<Longrightarrow> footprint tr' = footprint tr"
  using quiet_live by (simp add: footprint_def)

lemma footprint_poll [simp]: "footprint (tr @ [Poll x]) = footprint tr"
  by (rule footprint_quiet) simp

lemma footprint_released: "all_released F tr \<Longrightarrow> footprint tr = F"
  by (simp add: all_released_def footprint_def)

lemma holdings_handle:
  assumes "alloc_fresh e" and "objects_fresh e" and "holdings B H (footprint tr)" and "H i = Some h" and "same_resources h h0"
    and "RPMAHandler_handle e c junk j et h0 ro tr = (r, h1, ro', tr1)"
  shows "holdings B (H(i \<mapsto> h1)) (footprint tr1)"
proof -
  obtain F where F: "holdings B (H(i := None)) F" "session_inv F h tr"
    using holdings_take [OF assms(3,4)] by (auto simp: session_held)
  have "session_inv F h0 tr" by (rule session_inv_quiet [OF F(2) assms(5)]) simp
  from session_handle [OF assms(1,2) this assms(6)] F(1) show ?thesis
    by (simp add: session_held holdings_put)
qed

lemma holdings_destroy:
  assumes "holdings B H (footprint tr)" and "H i = Some h" and "ops_inv {} h" and "RPMAHandler_destroy e h tr = (r, h', tr1)"
  shows "holdings B (H(i := None)) (footprint tr1)"
proof -
  obtain F where F: "holdings B (H(i := None)) F" "session_inv F h tr"
    using holdings_take [OF assms(1,2)] by (auto simp: session_held)
  from footprint_released [OF session_destroy [OF assms(3) F(2) assms(4)]] F(1) show ?thesis by simp
qed

lemma holdings_new:
  assumes "objects_fresh e" and "holdings B H (footprint tr)" and "H i = None"
    and "RPMAHandler_new e j1 j2 jsz peer ep tr = (x, tr1)"
  shows "case x of Inr h \<Rightarrow> holdings B (H(i \<mapsto> h)) (footprint tr1) | Inl f \<Rightarrow> holdings B H (footprint tr1)"
  using new_handler_resources [OF assms(1), of tr j1 j2 jsz peer ep] assms(2-4) footprint_released
  by (auto simp: ctor_outcome_def session_held split: sum.splits intro: holdings.another)

subsection \<open>Every dispatched event keeps them apart\<close>

lemma holdings_release:
  assumes "holdings B (sv_handlers s) (footprint tr)" and "\<forall>h. sv_handlers s i = Some h \<longrightarrow> referenced i (sv_reactor s) \<or> ops_inv {} h"
    and "release_handler e i s tr = (s', tr')"
  shows "holdings B (sv_handlers s') (footprint tr')"
  using assms holdings_destroy [OF assms(1), of i]
  by (auto simp: release_handler_def split: if_splits option.splits prod.splits)

lemma accept_holdings:
  assumes fresh: "objects_fresh e" and ok: "server_ok s tr" and hold: "holdings B (sv_handlers s) (footprint tr)"
    and run: "AcceptorHandler_handle e w et s tr = (r, s', tr')"
  shows "holdings B (sv_handlers s') (footprint tr')"
proof -
  let ?j = "w_junk w tr" and ?a = "sv_acceptor s" and ?i = "sv_next s"
  obtain x tr1 where n: "RPMAHandler_new e (sj_conn_fd ?j) (sj_comp_fd ?j) (sj_size ?j) (ac_peer ?a) (ac_ep ?a) tr = (x, tr1)"
    by (metis prod.exhaust)
  have "sv_handlers s ?i = None" using server_okD(4) [OF ok, of ?i] by (cases "sv_handlers s ?i") auto
  note new = holdings_new [OF fresh hold this n]
  show ?thesis
  proof (cases x)
    case (Inl f)
    with new run n hold show ?thesis by (auto simp: AcceptorHandler_handle_def split: if_splits failure.splits)
  next
    case (Inr h)
    obtain ret ro tr2 where g: "register_pair e ?i h (Some (sv_reactor s)) tr1 = (ret, ro, tr2)" by (metis prod_cases3)
    let ?s = "s\<lparr>sv_reactor := case ro of None \<Rightarrow> sv_reactor s | Some r \<Rightarrow> r, sv_handlers := (sv_handlers s)(?i \<mapsto> h), sv_next := Suc ?i\<rparr>"
    obtain s3 tr3 where rel: "release_handler e ?i ?s tr2 = (s3, tr3)" by (metis prod.exhaust)
    have "holdings B (sv_handlers ?s) (footprint tr2)"
      using new Inr footprint_quiet [OF quiet_register_pair [OF g]] by simp
    moreover have "ops_inv {} h" using new_handler_ops n Inr by blast
    ultimately have "holdings B (sv_handlers s3) (footprint tr3)"
      using holdings_release [OF _ _ rel] by simp
    with run n Inr g rel hold show ?thesis
      by (auto simp: AcceptorHandler_handle_def RPMAHandler_register_self_def Let_def split: if_splits)
  qed
qed

text \<open>A failing event changes neither the reactor nor the set of handlers.\<close>

lemma handle_failure_outcome:
  assumes ops: "ops_inv {} h" and run: "RPMAHandler_handle e c junk i et h (Some r) tr = (Inl f, h', ro', tr')"
  shows "ro' = Some r \<and> (f \<noteq> Use_after_free \<longrightarrow> ops_inv {} h')"
proof -
  have q: "ConnectionHandler_handle_completion e (RPMAHandler_run e c junk) h tr = (Inl f, h', tr')" "ro' = Some r"
    using run by (auto simp: RPMAHandler_handle_def ConnectionHandler_handle_def split: if_splits prod.splits)
  have "ops_inv {} h'" if "f \<noteq> Use_after_free"
  proof (cases "completion_ok e h tr")
    case True
    then show ?thesis using server_callbacks.completion_ops [OF ops _ q(1)] by blast
  next
    case False
    with stray_completion [OF ops False q(1)] that show ?thesis by auto
  qed
  with q(2) show ?thesis by blast
qed

lemma event_holdings:
  assumes fresh: "alloc_fresh e" "objects_fresh e" and ok: "server_ok s tr" and hold: "holdings B (sv_handlers s) (footprint tr)"
    and h: "sv_handlers s i = Some h" and run: "server_dispatch e c w i et s tr = (x, s', tr')"
  shows "holdings B (sv_handlers s') (footprint tr')"
    and "x = Inl f \<Longrightarrow> sv_reactor s' = sv_reactor s \<and> (\<exists>h1. sv_handlers s' = (sv_handlers s)(i \<mapsto> h1) \<and> (f \<noteq> Use_after_free \<longrightarrow> ops_inv {} h1))"
proof -
  let ?h0 = "case w_recv w tr i of None \<Rightarrow> h | Some msg \<Rightarrow> h\<lparr>recv_bl := msg\<rparr>"
  have i: "i \<noteq> 0" "handler_ok i h (sv_reactor s)" using server_okD(4) [OF ok h] by simp_all
  then have h0: "ops_inv {} ?h0" "same_resources h ?h0"
    by (auto simp: handler_ok_def same_resources_def split: option.splits)
  obtain y h1 ro tr1 where g: "RPMAHandler_handle e c (sj_pcfg (w_junk w tr)) i et ?h0 (Some (sv_reactor s)) tr = (y, h1, ro, tr1)"
    by (metis prod.exhaust)
  let ?r = "case ro of None \<Rightarrow> sv_reactor s | Some r \<Rightarrow> r"
  let ?s = "s\<lparr>sv_reactor := ?r, sv_handlers := (sv_handlers s)(i \<mapsto> h1)\<rparr>"
  obtain s2 tr2 where rel: "release_handler e i ?s tr1 = (s2, tr2)" by (metis prod.exhaust)
  have s': "x = y" "s' = s2" "tr' = tr2"
    using run i(1) h g rel by (simp_all add: server_dispatch_def Let_def)
  have h1: "holdings B (sv_handlers ?s) (footprint tr1)"
    using holdings_handle [OF fresh hold h h0(2) g] by simp
  have refd: "referenced i (sv_reactor s)"
    using i(2) referenced_view [OF server_okD(1) [OF ok]] by (auto simp: handler_ok_def)
  have "referenced i ?r \<or> ops_inv {} h1"
  proof (cases y)
    case (Inl f)
    then have "ro = Some (sv_reactor s)" using handle_failure_outcome [OF h0(1)] g by blast
    with refd show ?thesis by simp
  next
    case (Inr v)
    with handle_outcome [OF h0(1)] g show ?thesis by blast
  qed
  with holdings_release [OF h1 _ rel] s' show "holdings B (sv_handlers s') (footprint tr')" by simp
  show "sv_reactor s' = sv_reactor s \<and> (\<exists>h1. sv_handlers s' = (sv_handlers s)(i \<mapsto> h1) \<and> (f \<noteq> Use_after_free \<longrightarrow> ops_inv {} h1))" if "x = Inl f"
  proof -
    have o: "ro = Some (sv_reactor s)" "f \<noteq> Use_after_free \<longrightarrow> ops_inv {} h1"
      using handle_failure_outcome [OF h0(1) g [folded s'(1), unfolded that]] by blast+
    then have "s2 = ?s" using rel refd by (simp add: release_handler_def)
    with s' o show ?thesis by auto
  qed
qed

subsection \<open>The loop\<close>

definition server_holds :: "footprint \<Rightarrow> server \<Rightarrow> trace \<Rightarrow> bool" where
  "server_holds B s tr \<longleftrightarrow> server_ok s tr \<and> holdings B (sv_handlers s) (footprint tr)"

text \<open>The machine of a server: in addition, allocator and library hand out what is not in use.\<close>

locale server_machine = server_environment +
  assumes blocks: "alloc_fresh e" and objects: "objects_fresh e"
begin

lemma dispatch_holds:
  assumes hold: "server_holds B s tr" and view: "reactor_view (sv_reactor s) fd = Some (et, i)"
    and run: "server_dispatch e c w i et s tr = (x, s', tr')"
  shows "holdings B (sv_handlers s') (footprint tr')"
    and "x = Inl (Runtime_error m) \<Longrightarrow> sv_handlers s' j = Some g \<Longrightarrow> j \<noteq> 0 \<and> referenced j (sv_reactor s') \<and> ops_inv {} g"
proof -
  have ok: "server_ok s tr" and H: "holdings B (sv_handlers s) (footprint tr)"
    using hold by (simp_all add: server_holds_def)
  show "holdings B (sv_handlers s') (footprint tr')"
  proof (cases "i = 0")
    case True
    then show ?thesis using run accept_holdings [OF objects ok H] by (simp add: server_dispatch_def)
  next
    case False
    then obtain h where "sv_handlers s i = Some h" using server_okD(3) [OF ok view] by blast
    from event_holdings(1) [OF blocks objects ok H this run] show ?thesis .
  qed
  assume x: "x = Inl (Runtime_error m)" and j: "sv_handlers s' j = Some g"
  have "i \<noteq> 0"
  proof
    assume "i = 0"
    then have "et = ACCEPT_EVENT" and "AcceptorHandler_handle e w et s tr = (x, s', tr')"
      using view server_okD(2) [OF ok] run by (simp_all add: server_dispatch_def)
    with accept_no_failure [OF descriptors, of w s tr] x show False by simp
  qed
  then obtain h where h: "sv_handlers s i = Some h" using server_okD(3) [OF ok view] by blast
  from event_holdings(2) [OF blocks objects ok H h run x] obtain h1 where
    s': "sv_reactor s' = sv_reactor s" "sv_handlers s' = (sv_handlers s)(i \<mapsto> h1)" "ops_inv {} h1" by auto
  have old: "\<exists>g'. sv_handlers s j = Some g'" using j s'(2) h by (auto split: if_splits)
  then have "j \<noteq> 0 \<and> referenced j (sv_reactor s)"
    using server_okD(4) [OF ok, of j] referenced_view [OF server_okD(1) [OF ok]] by (auto simp: handler_ok_def)
  moreover have "ops_inv {} g"
    using j s'(2,3) server_okD(4) [OF ok, of j] by (auto simp: handler_ok_def split: if_splits)
  ultimately show "j \<noteq> 0 \<and> referenced j (sv_reactor s') \<and> ops_inv {} g" using s'(1) by simp
qed

end

sublocale server_machine \<subseteq> owned: event_loop e sv_reactor "server_dispatch e c w" "server_holds B" for c w B
proof unfold_locales
  show "epoll_ok e" by (rule polls)
  show "server_holds B s tr \<Longrightarrow> reactor_inv (sv_reactor s) tr" for s tr by (simp add: server_holds_def server_okD(1))
  show "server_holds B s tr \<Longrightarrow> server_holds B s (tr @ [Poll (Ev_epoll_wait x)])" for s tr x
    using loop.ok_wait by (simp add: server_holds_def)
  show "\<lbrakk>server_holds B s tr; reactor_view (sv_reactor s) fd = Some (et, i); server_dispatch e c w i et s tr = (Inr v, s', tr')\<rbrakk>
      \<Longrightarrow> server_holds B s' tr'" for s tr fd et i v s' tr'
    using dispatch_holds(1) [of B s tr fd et i c w "Inr v"] dispatch_ok [OF polls descriptors] unfolding server_holds_def by blast
qed

text \<open>The loop of \<open>main\<close> is left by an event of a state in which its invariant holds.\<close>

lemma server_loop_left:
  assumes loop: "event_loop e sv_reactor (server_dispatch e c w) ok"
  shows "ok s tr \<Longrightarrow> server_loop e c w m n s tr = Some (f, s', tr') \<Longrightarrow>
     \<exists>i et fd s0 t. ok s0 t \<and> reactor_view (sv_reactor s0) fd = Some (et, i) \<and> server_dispatch e c w i et s0 t = (Inl f, s', tr')"
proof (induction n arbitrary: s tr)
  case (Suc n)
  obtain res s1 tr1 where r: "Reactor_handle_events e sv_reactor (server_dispatch e c w) m s tr = Some (res, s1, tr1)"
    using Suc.prems(2) by (auto split: option.splits)
  note out = event_loop.loop_safe [OF loop Suc.prems(1) r]
  show ?case
  proof (cases res)
    case (Inl g)
    with r Suc.prems(2) out show ?thesis by auto
  next
    case (Inr v)
    with r Suc.prems(2) out Suc.IH [of s1 tr1] show ?thesis by simp
  qed
qed simp

context server_machine
begin

lemmas owned_loop = owned.event_loop_axioms

end

subsection \<open>The end of \<open>main\<close>\<close>

lemma quiet_ep: "quiet tr (unique_delete RpmaEpDeleter x tr)" "quiet tr (unique_delete RpmaPeerDeleter x tr)"
  by (cases x; simp add: RpmaEpDeleter_def RpmaPeerDeleter_def env_simps)+

text \<open>
  Leaving \<open>main\<close> drops the entries of the table one handler after the other: what is kept by
  the destruction of one handler and by calls without effect on resources holds in the end of no
  handler at all.
\<close>

locale dismantling =
  fixes e :: env and Q :: "(hid \<rightharpoonup> RPMAHandler) \<Rightarrow> trace \<Rightarrow> bool"
  assumes dismiss: "\<lbrakk>Q H tr; H i = Some h; ops_inv {} h; RPMAHandler_destroy e h tr = (r, h', t)\<rbrakk> \<Longrightarrow> Q (H(i := None)) t"
    and calm: "Q H tr \<Longrightarrow> quiet tr t \<Longrightarrow> Q H t"
begin

lemma drop_handlers:
  assumes "distinct ids" and "\<forall>i h. H i = Some h \<longrightarrow> i \<noteq> 0 \<and> i \<in> set ids \<and> ops_inv {} h" and "\<forall>i \<in> set ids. S i = H i" and "Q H tr"
  shows "Q Map.empty (foldl (\<lambda>t i. if i = 0 then unique_delete RpmaEpDeleter ep t
       else case S i of None \<Rightarrow> t | Some h \<Rightarrow> snd (snd (RPMAHandler_destroy e h t))) tr ids)"
  using assms
proof (induction ids arbitrary: H tr)
  case Nil
  have "H i = None" for i using Nil.prems(2) by (cases "H i") auto
  then have "H = Map.empty" by (rule ext)
  with Nil.prems(4) show ?case by simp
next
  case (Cons i ids)
  show ?case
  proof (cases "H i")
    case None
    let ?t = "if i = 0 then unique_delete RpmaEpDeleter ep tr else tr"
    have "Q H ?t" using calm [OF Cons.prems(4) quiet_ep(1)] Cons.prems(4) by simp
    moreover have "\<forall>j h. H j = Some h \<longrightarrow> j \<noteq> 0 \<and> j \<in> set ids \<and> ops_inv {} h"
      using Cons.prems(2) None by fastforce
    ultimately show ?thesis using Cons.IH [of H ?t] Cons.prems None by (simp split: if_splits)
  next
    case (Some h)
    obtain r h' t where d: "RPMAHandler_destroy e h tr = (r, h', t)" by (metis prod_cases3)
    have h: "i \<noteq> 0" "ops_inv {} h" using Cons.prems(2) Some by blast+
    have hold: "Q (H(i := None)) t" by (rule dismiss [OF Cons.prems(4) Some h(2) d])
    have rest: "\<forall>j g. (H(i := None)) j = Some g \<longrightarrow> j \<noteq> 0 \<and> j \<in> set ids \<and> ops_inv {} g"
      using Cons.prems(2) by auto
    have same: "\<forall>j \<in> set ids. S j = (H(i := None)) j" using Cons.prems(1,3) by auto
    from Cons.IH [OF _ rest same hold] Cons.prems(1,3) Some h(1) d show ?thesis by simp
  qed
qed

lemma teardown:
  assumes start: "Q (sv_handlers s) tr"
    and refd: "\<forall>i h. sv_handlers s i = Some h \<longrightarrow> i \<noteq> 0 \<and> referenced i (sv_reactor s) \<and> ops_inv {} h"
  shows "Q Map.empty (server_teardown e s tr)"
proof -
  let ?ids = "remdups (map (eh_handler \<circ> snd) (event_table (sv_reactor s)))"
  have "quiet tr (Reactor_destroy (sv_reactor s) tr)" by (simp add: Reactor_destroy_def env_simps)
  then have q: "Q (sv_handlers s) (Reactor_destroy (sv_reactor s) tr)" by (rule calm [OF start])
  have "\<forall>i h. sv_handlers s i = Some h \<longrightarrow> i \<noteq> 0 \<and> i \<in> set ?ids \<and> ops_inv {} h"
    using refd by (auto simp: referenced_def image_comp)
  from calm [OF drop_handlers [OF _ this _ q] quiet_ep(2)] show ?thesis
    by (simp add: server_teardown_def Let_def)
qed

end

interpretation release_all: dismantling e "\<lambda>H tr. holdings B H (footprint tr)" for e B
  by unfold_locales (use holdings_destroy footprint_quiet in auto)

lemma acceptor_quiet:
  assumes "AcceptorHandler_new e junk addr port tr = (r, tr')"
  shows "quiet tr tr' \<and> interest tr' = interest tr \<and> (\<forall>f. r = Inl f \<longrightarrow> (\<exists>m. f = Runtime_error m))"
proof -
  have d: "quiet t (AcceptorHandler_destroy a t) \<and> interest (AcceptorHandler_destroy a t) = interest t" for a t
    by (cases "ac_ep a"; cases "ac_peer a")
      (simp_all add: AcceptorHandler_destroy_def RpmaEpDeleter_def RpmaPeerDeleter_def env_simps)
  have "quiet tr (AcceptorHandler_destroy a t) \<and> interest (AcceptorHandler_destroy a t) = interest tr"
    if "quiet tr t" "interest t = interest tr" for a t
    using d [of t a] that quiet_trans by auto
  then show ?thesis
    using assms
    by (auto simp: AcceptorHandler_new_def common_peer_via_address_def env_simps Let_def split: prod.splits if_splits option.splits)
qed

lemma server_starts:
  assumes "epoll_ok e" and "interest tr = Map.empty" and "Reactor_new e tr = (Inr r, tr1)"
    and "AcceptorHandler_new e junk addr port tr1 = (Inr a, tr2)"
    and "AcceptorHandler_register_self e 0 a (Some r) tr2 = (ret, ro, tr3)"
  shows "\<exists>r1. ro = Some r1 \<and> footprint tr3 = footprint tr \<and>
    (ret = 0 \<longrightarrow> server_holds (footprint tr) \<lparr>sv_reactor = r1, sv_acceptor = a, sv_handlers = Map.empty, sv_next = 1\<rparr> tr3)"
proof -
  have r: "event_table r = []" "tr1 = tr @ [Poll (Ev_epoll_create (epoll r))]"
    using assms(3) by (auto simp: Reactor_new_def env_simps split: if_splits)
  have q: "quiet tr1 tr2" "interest tr2 = Map.empty" using acceptor_quiet [OF assms(4)] assms(2) r(2) by simp_all
  have inv: "reactor_inv r tr2" "reactor_view r fd = None" for fd
    using r(1) q(2) by (simp_all add: reactor_inv_def reactor_view_def)
  obtain r1 where g: "Reactor_register_handler e (AcceptorHandler_get_handle a) 0 ACCEPT_EVENT r tr2 = (ret, r1, tr3)" "ro = Some r1"
    using assms(5) by (auto simp: AcceptorHandler_register_self_def split: prod.splits)
  note out = register_outcome [OF assms(1) inv g(1)]
  have f: "footprint tr3 = footprint tr"
    using footprint_quiet [OF quiet_register_handler [OF g(1)]] footprint_quiet [OF q(1)] r(2) by simp
  have "server_ok \<lparr>sv_reactor = r1, sv_acceptor = a, sv_handlers = Map.empty, sv_next = 1\<rparr> tr3" if "ret = 0"
    using out that inv(2) by (intro server_okI) (auto simp: entry_ok_def split: if_splits)
  with f g(2) show ?thesis by (auto simp: server_holds_def intro: holdings.nothing)
qed

text \<open>
  The ways through \<open>main\<close>: either it ends before the loop, and nothing has happened to any
  resource, or the loop runs from a state without connections.
\<close>

lemma server_main_ways:
  assumes kernel: "epoll_ok e" "interest tr = Map.empty" and run: "server_main e c w m n junk addr port tr = Some (x, tr')"
  obtains (early) "quiet tr tr'"
  | (looped) s t f s1 t1 where "quiet tr t" "sv_handlers s = Map.empty" "server_holds (footprint tr) s t"
      "server_loop e c w m n s t = Some (f, s1, t1)"
      "case main_catch f of Inr v \<Rightarrow> x = Inr v \<and> tr' = server_teardown e s1 t1 | Inl g \<Rightarrow> x = Inl g \<and> tr' = t1"
proof -
  let ?tr = "set_log_thresholds tr"
  have q0: "quiet tr ?tr" "interest ?tr = Map.empty"
    using kernel(2) by (simp_all add: set_log_thresholds_def env_simps)
  obtain y tr1 where r: "Reactor_new e ?tr = (y, tr1)" by (metis prod.exhaust)
  have "quiet ?tr tr1" using r by (auto simp: Reactor_new_def env_simps split: if_splits)
  with q0(1) have q1: "quiet tr tr1" by (rule quiet_trans)
  show ?thesis
  proof (cases y)
    case (Inl f)
    with run r q1 early show ?thesis by (simp add: server_main_def)
  next
    case (Inr re)
    obtain z tr2 where a: "AcceptorHandler_new e junk addr port tr1 = (z, tr2)" by (metis prod.exhaust)
    have "quiet tr1 tr2" using acceptor_quiet [OF a] by blast
    with q1 have q2: "quiet tr tr2" by (rule quiet_trans)
    show ?thesis
    proof (cases z)
      case (Inl f)
      have "quiet tr2 (Reactor_destroy re tr2)" by (simp add: Reactor_destroy_def env_simps)
      with q2 have "quiet tr (Reactor_destroy re tr2)" by (rule quiet_trans)
      with run r Inr a Inl early show ?thesis by (simp add: server_main_def)
    next
      case z: (Inr ac)
      obtain ret ro tr3 where g: "AcceptorHandler_register_self e 0 ac (Some re) tr2 = (ret, ro, tr3)" by (metis prod_cases3)
      have "quiet tr2 tr3" using g quiet_register_handler by (auto simp: AcceptorHandler_register_self_def split: prod.splits)
      with q2 have q3: "quiet tr tr3" by (rule quiet_trans)
      obtain r1 where r1: "ro = Some r1"
          "ret = 0 \<Longrightarrow> server_holds (footprint ?tr) \<lparr>sv_reactor = r1, sv_acceptor = ac, sv_handlers = Map.empty, sv_next = 1\<rparr> tr3"
        using server_starts [OF kernel(1) q0(2) r [unfolded Inr] a [unfolded z] g] by blast
      show ?thesis
      proof (cases "ret = 0")
        case False
        have "quiet tr3 (AcceptorHandler_destroy ac tr3)"
          using quiet_trans [OF quiet_ep] by (simp add: AcceptorHandler_destroy_def)
        moreover have "quiet t (Reactor_destroy r1 t)" for t by (simp add: Reactor_destroy_def env_simps)
        ultimately have "quiet tr (Reactor_destroy r1 (AcceptorHandler_destroy ac tr3))" using q3 quiet_trans by blast
        with False run r Inr a z g r1 early show ?thesis by (simp add: server_main_def)
      next
        case True
        from r1(2) [OF this] have h: "server_holds (footprint tr) \<lparr>sv_reactor = r1, sv_acceptor = ac, sv_handlers = Map.empty, sv_next = 1\<rparr> tr3"
          using footprint_quiet [OF q0(1)] by simp
        obtain f s1 t1 where l: "server_loop e c w m n \<lparr>sv_reactor = r1, sv_acceptor = ac, sv_handlers = Map.empty, sv_next = 1\<rparr> tr3 = Some (f, s1, t1)"
            "case main_catch f of Inr v \<Rightarrow> x = Inr v \<and> tr' = server_teardown e s1 t1 | Inl g \<Rightarrow> x = Inl g \<and> tr' = t1"
          using run r Inr a z g r1(1) True by (auto simp: server_main_def split: option.splits sum.splits)
        show ?thesis by (rule looped [OF q3 _ h l]) simp
      qed
    qed
  qed
qed


subsection \<open>A run of the server\<close>

text \<open>
  A machine without memory to hand out: one client connects, its receive completes with an init
  request, and the exception ends \<open>main\<close>.
\<close>

definition machine_env :: env where
  "machine_env = (tracked_env True)\<lparr>
     mem_of := (mem_of dram_env)\<lparr>e_malloc := (\<lambda>tr n. None)\<rparr>,
     poll_of := kernel_poll\<lparr>e_epoll_wait := (\<lambda>tr.
       if \<not> has_waited tr \<and> interest tr 10 = Some 0 then (1, Some 0)
       else if has_waited tr \<and> (\<exists>ev \<in> set tr. interest tr (event_fd ev) = Some 2) then (1, Some 2)
       else (0, None))\<rparr>,
     conn_of := demo_conn\<lparr>e_conn_get_event_fd := (\<lambda>tr q. (0, Some (fresh_fd tr))),
       e_conn_get_completion_fd := (\<lambda>tr q. (0, Some (fresh_fd tr + 1))),
       e_conn_completion_get := (\<lambda>tr q. (0, \<lparr>op_context = Some 0, op = RPMA_OP_RECV, byte_len = 4096, op_status = 0\<rparr>))\<rparr>\<rparr>"

lemma machine_env_ok: "epoll_ok machine_env" "conn_fds_fresh machine_env" "alloc_fresh machine_env" "objects_fresh machine_env"
proof -
  show "epoll_ok machine_env"
    by (auto simp: epoll_ok_def machine_env_def kernel_poll_def demo_poll_def ran_def split: if_splits)
  have "fresh_fd tr + 1 \<noteq> -1" for tr using fresh_fd_pos [of tr] by simp
  with fresh_fd_unwatched show "conn_fds_fresh machine_env"
    by (auto simp: conn_fds_fresh_def machine_env_def fresh_fd_conn)
  show "alloc_fresh machine_env"
    by (simp add: alloc_fresh_def machine_env_def dram_env_def demo_env_def demo_mem_def)
  show "objects_fresh machine_env"
    using tracked_env_fresh(1) [of True] by (simp add: objects_fresh_def machine_env_def)
qed

interpretation machine: server_machine machine_env
  by unfold_locales (rule machine_env_ok)+

lemma machine_starts:
  "\<exists>tr1 a tr2 tr3. Reactor_new machine_env (set_log_thresholds []) = (Inr \<lparr>epoll = 3, event_table = [], next_node = 0\<rparr>, tr1) \<and>
     AcceptorHandler_new machine_env 0 ''a'' ''p'' tr1 = (Inr a, tr2) \<and>
     AcceptorHandler_register_self machine_env 0 a (Some \<lparr>epoll = 3, event_table = [], next_node = 0\<rparr>) tr2 =
       (0, Some (sv_reactor (listening 10)), tr3) \<and> interest tr3 = [10 \<mapsto> 0] \<and> \<not> has_waited tr3"
  by (simp add: Reactor_new_def set_log_thresholds_def AcceptorHandler_new_def common_peer_via_address_def
      AcceptorHandler_register_self_def AcceptorHandler_get_handle_def reactor_defs listening_def interest_def has_waited_def
      machine_env_def tracked_env_def kernel_env_def kernel_poll_def demo_env_def demo_defs env_simps Let_def)

lemma machine_new:
  "\<exists>h tr'. RPMAHandler_new machine_env 0 0 0 peer ep tr = (Inr h, tr') \<and>
     op_heap h 0 = Some \<lparr>op_class = RpmaReqRecv, func = Deal_require\<rparr> \<and> mm_data (data_manager h) = None"
  by (simp add: RPMAHandler_new_def ConnectionHandler_init_send_recv_buffer_def RPMAHandler_default_def
      ConnectionHandler.extend_def ConnectionHandler_new_def MemoryManager_default_def
      ConnectionHandler_init_conn_fd_def new_op_def settle_op_def machine_env_def dram_env_def tracked_defs env_simps Let_def)

lemma machine_register:
  assumes "fds_free h tr" and "interest tr 10 = Some 0"
  shows "\<exists>r' tr'. register_pair machine_env 1 h (Some (sv_reactor (listening 10))) tr = (0, Some r', tr') \<and>
    interest tr' (comp_fd h) = Some 2 \<and> comp_fd h \<in> event_fd ` set tr' \<and> referenced 1 r' \<and> \<not> Reactor_empty r' \<and>
    Reactor_deref r' 2 = Some \<lparr>eh_node = 2, eh_type = COMPLETION_EVENT, eh_handler = 1\<rparr>"
proof -
  have "conn_fd h \<noteq> 10" "comp_fd h \<noteq> 10" using assms by (auto simp: fds_free_def)
  with assms show ?thesis
    by (simp add: register_pair_def reactor_defs ConnectionHandler_get_handle_def Reactor_deref_def Reactor_empty_def
        referenced_def listening_def fds_free_def machine_env_def kernel_poll_def demo_poll_def env_simps Let_def)
qed

lemma machine_accepts:
  assumes "sv_reactor s = sv_reactor (listening 10)" and "sv_next s = 1" and watched: "interest tr 10 = Some 0"
  shows "\<exists>h s' tr'. AcceptorHandler_handle machine_env request_world ACCEPT_EVENT s tr = (Inr 0, s', tr') \<and>
    sv_handlers s' 1 = Some h \<and> op_heap h 0 = Some \<lparr>op_class = RpmaReqRecv, func = Deal_require\<rparr> \<and>
    mm_data (data_manager h) = None \<and> (\<exists>ev \<in> set tr'. interest tr' (event_fd ev) = Some 2) \<and> \<not> Reactor_empty (sv_reactor s') \<and>
    Reactor_deref (sv_reactor s') 2 = Some \<lparr>eh_node = 2, eh_type = COMPLETION_EVENT, eh_handler = 1\<rparr>"
proof -
  let ?a = "sv_acceptor s"
  obtain h tr1 where h: "RPMAHandler_new machine_env 0 0 0 (ac_peer ?a) (ac_ep ?a) tr = (Inr h, tr1)"
      "op_heap h 0 = Some \<lparr>op_class = RpmaReqRecv, func = Deal_require\<rparr>" "mm_data (data_manager h) = None"
    using machine_new by blast
  have "fds_free h tr1" "interest tr1 10 = Some 0"
    using new_handler_fds [OF machine_env_ok(2), of tr 0 0 0 "ac_peer ?a" "ac_ep ?a"] h(1) watched no_poll_interest
    by (auto simp: new_ok_def)
  from machine_register [OF this] obtain r' tr2 where
    g: "register_pair machine_env 1 h (Some (sv_reactor (listening 10))) tr1 = (0, Some r', tr2)"
      "interest tr2 (comp_fd h) = Some 2" "comp_fd h \<in> event_fd ` set tr2" "referenced 1 r'" "\<not> Reactor_empty r'"
      "Reactor_deref r' 2 = Some \<lparr>eh_node = 2, eh_type = COMPLETION_EVENT, eh_handler = 1\<rparr>" by blast
  have "\<exists>ev \<in> set tr2. interest tr2 (event_fd ev) = Some 2" using g(2,3) by force
  with assms(1,2) h g show ?thesis
    by (simp add: AcceptorHandler_handle_def RPMAHandler_register_self_def request_world_def demo_world_def
        release_handler_def Let_def)
qed

lemma machine_loop:
  assumes s: "sv_reactor s = sv_reactor (listening 10)" "sv_next s = 1" and tr: "interest tr = [10 \<mapsto> 0]" "\<not> has_waited tr"
  shows "\<exists>s' tr'. server_loop machine_env ceph_le request_world 2 1 s tr = Some (Runtime_error ''memory malloc failed'', s', tr')"
proof -
  let ?tr1 = "tr @ [Poll (Ev_epoll_wait (1, Some 0))]"
  obtain h s2 tr2 where a: "AcceptorHandler_handle machine_env request_world ACCEPT_EVENT s ?tr1 = (Inr 0, s2, tr2)"
      "sv_handlers s2 1 = Some h" "op_heap h 0 = Some \<lparr>op_class = RpmaReqRecv, func = Deal_require\<rparr>"
      "mm_data (data_manager h) = None" "\<exists>ev \<in> set tr2. interest tr2 (event_fd ev) = Some 2" "\<not> Reactor_empty (sv_reactor s2)"
      "Reactor_deref (sv_reactor s2) 2 = Some \<lparr>eh_node = 2, eh_type = COMPLETION_EVENT, eh_handler = 1\<rparr>"
    using machine_accepts [OF s, of ?tr1] tr(1) by auto
  have "has_waited tr2"
    using accept_extends [OF machine_env_ok(2) a(1)] by (auto simp: extends_def has_waited_def)
  then have w: "e_epoll_wait (poll_of machine_env) tr = (1, Some 0)" "e_epoll_wait (poll_of machine_env) tr2 = (1, Some 2)"
    using tr a(5) by (simp_all add: machine_env_def)
  let ?x = "\<lparr>op_context = Some 0, op = RPMA_OP_RECV, byte_len = 4096, op_status = 0\<rparr>"
  have m: "\<forall>t n. e_malloc (mem_of machine_env) t n = None" "\<forall>t p n k. fst (e_pmem_map_file (mem_of machine_env) t p n k) = None"
      "\<forall>t q. e_conn_completion_wait (conn_of machine_env) t q = 0" "\<forall>t q. e_conn_completion_get (conn_of machine_env) t q = (0, ?x)"
    by (simp_all add: machine_env_def dram_env_def demo_mem_def demo_conn_def)
  have r: "\<forall>t j. w_recv request_world t j = Some (RwlReplicaInitRequest_encode ceph_le \<lparr>type_of = RWL_REPLICA_INIT_REQUEST, info = demo_info\<rparr> @ [])"
      "36 + length (pool_name demo_info) + length (image_name demo_info) < 2 ^ 32"
    by (simp_all add: request_world_def demo_info_def)
  obtain s' tr' where "server_dispatch machine_env ceph_le request_world 1 COMPLETION_EVENT s2 (tr2 @ [Poll (Ev_epoll_wait (1, Some 2))])
      = (Inl (Runtime_error ''memory malloc failed''), s', tr')"
    using request_exhausts [OF ceph_le.ceph_encoding_axioms m(1,2) _ a(2) m(3,4) _ _ a(3) r a(4),
        of "tr2 @ [Poll (Ev_epoll_wait (1, Some 2))]"] by (auto simp: IBV_WC_SUCCESS_def)
  with a w s(1) show ?thesis
    by (simp add: listening_def Reactor_deref_def server_dispatch_def env_simps numeral_2_eq_2)
qed

lemma machine_run:
  "\<exists>tr'. server_main machine_env ceph_le request_world 2 1 0 ''a'' ''p'' [] = Some (Inr 0, tr')"
proof -
  let ?r = "\<lparr>epoll = 3, event_table = [], next_node = 0\<rparr>"
  obtain tr1 a tr2 tr3 where st: "Reactor_new machine_env (set_log_thresholds []) = (Inr ?r, tr1)"
      "AcceptorHandler_new machine_env 0 ''a'' ''p'' tr1 = (Inr a, tr2)"
      "AcceptorHandler_register_self machine_env 0 a (Some ?r) tr2 = (0, Some (sv_reactor (listening 10)), tr3)"
      "interest tr3 = [10 \<mapsto> 0]" "\<not> has_waited tr3"
    using machine_starts by blast
  let ?s = "\<lparr>sv_reactor = sv_reactor (listening 10), sv_acceptor = a, sv_handlers = Map.empty, sv_next = 1\<rparr>"
  obtain s' tr4 where "server_loop machine_env ceph_le request_world 2 1 ?s tr3 = Some (Runtime_error ''memory malloc failed'', s', tr4)"
    using machine_loop [of ?s tr3] st(4,5) by auto
  with st show ?thesis by (simp add: server_main_def main_catch_def)
qed


end
