(* ===== verification/Server_Exposure.thy ===== *)
theory Server_Exposure
  imports Resources
begin

text \<open>
  What a server connection exposes to its client: a region registered for remote reading or
  writing lets the client reach the memory at any time, so it must lie in memory that is
  alive and belongs to the connection, and go before the memory does.
\<close>

subsection \<open>Exposed memory\<close>

text \<open>The usages that let a remote peer read from the region or write to it.\<close>

definition remote_usage :: "int \<Rightarrow> bool" where
  "remote_usage u \<longleftrightarrow> u AND (RPMA_MR_USAGE_READ_SRC OR RPMA_MR_USAGE_WRITE_DST) \<noteq> 0"

lemma remote_usages [simp]:
  "\<not> remote_usage RPMA_MR_USAGE_RECV" "\<not> remote_usage RPMA_MR_USAGE_SEND" "remote_usage (mr_usage RPMA_OP_FLUSH pm)"
  by (simp_all add: remote_usage_def mr_usage_def usage_bits)

definition withdraw :: "ptr \<Rightarrow> (ptr \<times> addr) set \<Rightarrow> (ptr \<times> addr) set" where
  "withdraw m R = Set.filter (\<lambda>x. fst x \<noteq> m) R"

fun expose :: "(ptr \<times> addr) set \<Rightarrow> event \<Rightarrow> (ptr \<times> addr) set" where
  "expose R (Mr (Ev_mr_reg p (Some a) n u (ret, Some m))) = (if remote_usage u then insert (m, a) (withdraw m R) else withdraw m R)"
| "expose R (Mr (Ev_mr_dereg m)) = withdraw m R"
| "expose R ev = R"

definition exposed :: "trace \<Rightarrow> (ptr \<times> addr) set" where
  "exposed tr = foldl expose {} tr"

fun block_size :: "block \<Rightarrow> u64" where
  "block_size (Mapped n) = n"
| "block_size (Heap n) = n"

text \<open>
  Only whole blocks that are alive are exposed, and no exposed block is released.
\<close>

fun exposure_ok :: "(addr \<rightharpoonup> block) \<Rightarrow> (ptr \<times> addr) set \<Rightarrow> event \<Rightarrow> bool" where
  "exposure_ok L R (Mr (Ev_mr_reg p a n u (ret, Some m))) \<longleftrightarrow>
     remote_usage u \<longrightarrow> (case a of None \<Rightarrow> False | Some b \<Rightarrow> map_option block_size (L b) = Some n)"
| "exposure_ok L R (Mem (Ev_pmem_unmap a n)) \<longleftrightarrow> a \<notin> snd ` R"
| "exposure_ok L R (Mem (Ev_free a)) \<longleftrightarrow> a \<notin> snd ` R"
| "exposure_ok L R ev \<longleftrightarrow> True"

fun exposure_from :: "(addr \<rightharpoonup> block) \<Rightarrow> (ptr \<times> addr) set \<Rightarrow> trace \<Rightarrow> bool" where
  "exposure_from L R [] = True"
| "exposure_from L R (ev # evs) = (exposure_ok L R ev \<and> exposure_from (mem_apply L ev) (expose R ev) evs)"

definition exposure_safe :: "trace \<Rightarrow> bool" where
  "exposure_safe tr = exposure_from Map.empty {} tr"

lemma exposed_append [simp]: "exposed (tr @ evs) = foldl expose (exposed tr) evs"
  by (simp add: exposed_def)

lemma exposure_from_append:
  "exposure_from L R (xs @ ys) = (exposure_from L R xs \<and> exposure_from (foldl mem_apply L xs) (foldl expose R xs) ys)"
  by (induction xs arbitrary: L R) auto

lemma exposure_safe_append [simp]:
  "exposure_safe (tr @ evs) = (exposure_safe tr \<and> exposure_from (live_blocks tr) (exposed tr) evs)"
  by (simp add: exposure_safe_def exposure_from_append live_blocks_def exposed_def)

lemma in_withdraw [simp]: "x \<in> withdraw m R \<longleftrightarrow> x \<in> R \<and> fst x \<noteq> m"
  by (auto simp: withdraw_def)

lemma exposure_quiet_event: "quiet_event ev \<Longrightarrow> exposure_ok L R ev \<and> expose R ev = R"
  by (cases ev rule: quiet_event.cases) auto

lemma exposure_quiet_events:
  "\<forall>ev \<in> set evs. quiet_event ev \<Longrightarrow> exposure_from L R evs \<and> foldl expose R evs = R"
  by (induction evs arbitrary: L R) (auto simp: exposure_quiet_event)

lemma exposure_quiet: "quiet tr tr' \<Longrightarrow> exposed tr' = exposed tr \<and> exposure_safe tr' = exposure_safe tr"
  using exposure_quiet_events by (auto simp: quiet_def)

subsection \<open>What a connection exposes\<close>

definition own :: "RPMAHandler \<Rightarrow> (ptr \<times> addr) set" where
  "own h = {(m, a). data_mr h = Some m \<and> mm_data (data_manager h) = Some a}"

text \<open>Besides its own region only memory of others is exposed.\<close>

definition shielded :: "footprint \<Rightarrow> RPMAHandler \<Rightarrow> trace \<Rightarrow> bool" where
  "shielded F h tr \<longleftrightarrow> session_inv F h tr \<and> snd ` (exposed tr - own h) \<subseteq> dom (fp_blocks F)"

text \<open>A step takes back what it had exposed, up to what it exposes in the end, and exposes safely.\<close>

definition guards :: "RPMAHandler \<Rightarrow> trace \<Rightarrow> RPMAHandler \<Rightarrow> trace \<Rightarrow> bool" where
  "guards h tr h' tr' \<longleftrightarrow>
     (exposure_safe tr \<longrightarrow> exposure_safe tr') \<and> exposed tr' \<subseteq> (exposed tr - own h) \<union> own h'"

lemma guards_trans: "guards h1 tr1 h2 tr2 \<Longrightarrow> guards h2 tr2 h3 tr3 \<Longrightarrow> guards h1 tr1 h3 tr3"
  unfolding guards_def by blast

lemma own_same: "same_resources h h' \<Longrightarrow> own h' = own h"
  by (simp add: own_def same_resources_def)

lemma guards_quiet: "same_resources h h' \<Longrightarrow> quiet tr tr' \<Longrightarrow> guards h tr h' tr'"
  using exposure_quiet own_same by (auto simp: guards_def)

lemma shielded_guards: "shielded F h tr \<Longrightarrow> guards h tr h' tr' \<Longrightarrow> session_inv F h' tr' \<Longrightarrow> shielded F h' tr'"
  unfolding shielded_def guards_def by blast

text \<open>Deregistering takes the region back.\<close>

lemma exposed_delete:
  "exposed (unique_delete RpmaMRDeleter x tr) = {y \<in> exposed tr. x \<noteq> Some (fst y)}"
  "exposure_safe (unique_delete RpmaMRDeleter x tr) = exposure_safe tr"
  "live_blocks (unique_delete RpmaMRDeleter x tr) = live_blocks tr"
  by (cases x; auto simp: RpmaMRDeleter_def env_simps)+

lemma own_region: "x \<in> own h \<Longrightarrow> data_mr h = Some (fst x)"
  by (auto simp: own_def)

text \<open>Memory managers release what nobody exposes.\<close>

lemma mm_release_guarded:
  assumes "\<forall>a. mm_data m = Some a \<longrightarrow> a \<notin> snd ` exposed tr"
  shows "MemoryManager_destroy m tr = (m', tr') \<Longrightarrow> exposed tr' = exposed tr \<and> exposure_safe tr' = exposure_safe tr"
    and "MemoryManager_close_and_remove e m tr = (ret, m', tr') \<Longrightarrow> exposed tr' = exposed tr \<and> exposure_safe tr' = exposure_safe tr"
  using assms
  by (auto simp: MemoryManager_destroy_def MemoryManager_close_and_remove_def mm_release_def env_simps split: option.splits)

lemma mm_init_guarded:
  assumes fresh: "alloc_fresh e" and live: "snd ` exposed tr \<subseteq> dom (live_blocks tr)"
    and run: "MemoryManager_init e sz path m tr = (r, m', tr')"
  shows "exposed tr' = exposed tr \<and> exposure_safe tr' = exposure_safe tr"
proof -
  have "a \<notin> snd ` exposed tr" if "e_pmem_map_file (mem_of e) (tr @ [Mem (Ev_access q b)]) p n k = (Some a, len, pm)" for q b p n k a len pm
    using alloc_freshD(2) [OF fresh that] live by auto
  with run show ?thesis
    by (auto simp: mm_defs env_simps Let_def split: prod.splits if_splits option.splits)
qed

subsection \<open>Requests\<close>

lemma withdrawn:
  assumes "shielded F h tr"
  shows "snd ` exposed (unique_delete RpmaMRDeleter (data_mr h) tr) \<subseteq> dom (fp_blocks F)"
    and "\<forall>a. mm_data (data_manager h) = Some a \<longrightarrow> a \<notin> snd ` exposed (unique_delete RpmaMRDeleter (data_mr h) tr)"
proof -
  show *: "snd ` exposed (unique_delete RpmaMRDeleter (data_mr h) tr) \<subseteq> dom (fp_blocks F)"
    using assms own_region unfolding shielded_def exposed_delete by blast
  have "\<forall>a. mm_data (data_manager h) = Some a \<longrightarrow> fp_blocks F a = None"
    using assms by (simp add: shielded_def session_inv_def holds_memory_def)
  with * show "\<forall>a. mm_data (data_manager h) = Some a \<longrightarrow> a \<notin> snd ` exposed (unique_delete RpmaMRDeleter (data_mr h) tr)"
    by blast
qed

lemma guards_withdrawn:
  assumes "exposed tr' = exposed (unique_delete RpmaMRDeleter (data_mr h) tr)" and "exposure_safe tr \<longrightarrow> exposure_safe tr'"
  shows "guards h tr h' tr'"
  using assms own_region by (auto simp: guards_def exposed_delete)

lemma guards_put: "put_message bl h = (r, h') \<Longrightarrow> guards h tr h' tr"
  by (rule guards_quiet [OF same_put_message quiet_refl])

lemma guards_send: "ConnectionHandler_send e cb h tr = (ret, h', tr') \<Longrightarrow> guards h tr h' tr'"
  by (rule guards_quiet [OF same_send quiet_send])

lemma guards_recv: "ConnectionHandler_recv e cb h tr = (ret, h', tr') \<Longrightarrow> guards h tr h' tr'"
  by (rule guards_quiet [OF same_recv quiet_recv])

lemma guards_close:
  assumes sh: "shielded F h tr" and run: "RPMAHandler_close e c h tr = (r, h', tr')"
  shows "guards h tr h' tr'"
proof -
  let ?tr1 = "unique_delete RpmaMRDeleter (data_mr h) tr"
  obtain ret m tr2 where cl: "MemoryManager_close_and_remove e (data_manager h) ?tr1 = (ret, m, tr2)"
    by (metis prod_cases3)
  let ?h2 = "h\<lparr>data_mr := None, data_manager := m\<rparr>"
  have "guards h tr ?h2 tr2"
    using mm_release_guarded(2) [OF withdrawn(2) [OF sh] cl] guards_withdrawn exposed_delete(2) by metis
  moreover obtain h3 where "put_message (RwlReplicaRequest_encode c
      \<lparr>type_of = (if ret \<noteq> 0 then RWL_REPLICA_FINISHED_FAILED else RWL_REPLICA_FINISHED_SUCCCESSED)\<rparr>) ?h2 = (map_sum id (\<lambda>_. ()) r, h3)"
      "h' = h3 \<and> tr' = tr2 \<or> (\<exists>x. ConnectionHandler_send e No_callback h3 tr2 = (x, h', tr'))"
    using run cl by (auto simp: RPMAHandler_close_def Let_def split: prod.splits sum.splits)
  then have "guards ?h2 tr2 h' tr'"
    using guards_put guards_send guards_trans by blast
  ultimately show ?thesis by (rule guards_trans)
qed

lemma guards_register:
  assumes fresh: "objects_fresh e" and sh: "shielded F h tr" and data: "mm_data (data_manager h) \<noteq> None"
    and run: "RPMAHandler_register_mr_to_descriptor e c junk RPMA_OP_FLUSH h tr = (r, h', tr')"
  shows "guards h tr h' tr'"
proof -
  let ?m = "data_manager h"
  let ?u = "mr_usage RPMA_OP_FLUSH (mm_is_pmem ?m)"
  obtain a where a: "mm_data ?m = Some a" using data by blast
  have inv: "session_inv F h tr" using sh by (simp add: shielded_def)
  then have live: "live_blocks tr a = Some (mm_block ?m)"
    using a by (simp add: session_inv_def holds_memory_def mm_gain_def)
  obtain ret mr where reg: "e_mr_reg (mr_of e) tr (ch_peer h) (mm_data ?m) (mm_size ?m) ?u = (ret, mr)"
    by (metis prod.exhaust)
  let ?ev = "Mr (Ev_mr_reg (ch_peer h) (mm_data ?m) (mm_size ?m) ?u (ret, mr))"
  show ?thesis
  proof (cases "ret = 0")
    case False
    then have "mr = None" using objects_freshD(1) [OF fresh reg] by simp
    then have "h' = h" "tr' = tr @ [?ev]"
      using False run reg
      by (auto simp: RPMAHandler_register_mr_to_descriptor_def MemoryManager_get_pointer_def env_simps Let_def)
    with \<open>mr = None\<close> show ?thesis by (simp add: guards_def)
  next
    case True
    then obtain x where x: "mr = Some x" "x \<notin> live_mrs tr" using objects_freshD(1) [OF fresh reg] by auto
    let ?tr2 = "unique_delete RpmaMRDeleter (data_mr h) (tr @ [?ev])"
    have other: "data_mr h \<noteq> Some x"
      using x(2) inv by (auto simp: session_inv_def holds_mrs_def)
    have "exposure_safe (tr @ [?ev]) = exposure_safe tr"
      using live x(1) a by (simp add: mm_block_def)
    moreover have "exposed ?tr2 \<subseteq> (exposed tr - own h) \<union> own (h\<lparr>data_mr := mr\<rparr>)"
      using x(1) a own_region [of _ h] unfolding exposed_delete(1) by (auto simp: own_def)
    ultimately have g: "guards h tr (h\<lparr>data_mr := mr\<rparr>) ?tr2"
      unfolding guards_def exposed_delete(2) by blast
    obtain d tr3 where b: "build_descriptor e junk RPMA_OP_FLUSH (mm_is_pmem ?m) mr ?tr2 = (d, tr3)"
      by (metis prod.exhaust)
    have "same_resources (h\<lparr>data_mr := mr\<rparr>) h' \<and> tr' = tr3"
      using True run reg b
      by (auto simp: RPMAHandler_register_mr_to_descriptor_def MemoryManager_get_pointer_def env_simps Let_def same_resources_def
          split: prod.splits sum.splits dest!: same_put_message)
    then show ?thesis using guards_trans [OF g] guards_quiet quiet_build_descriptor [OF b] by blast
  qed
qed

lemma guards_write_request:
  assumes fresh: "alloc_fresh e" "objects_fresh e" and sh: "shielded F h tr"
    and run: "RPMAHandler_get_descriptor_for_write e c junk h tr = (r, h', tr')"
  shows "guards h tr h' tr'"
proof (cases "RwlReplicaInitRequest_decode c (recv_bl h)")
  case None
  with run show ?thesis
    using guards_quiet [of h h tr tr] by (simp add: RPMAHandler_get_descriptor_for_write_def same_resources_def)
next
  case (Some y)
  obtain i rest where y: "y = (i, rest)" by (cases y)
  show ?thesis
  proof (cases "mm_data (data_manager h)")
    case None
    obtain q m tr1 where m: "MemoryManager_init e (cache_size (info i)) (replica_path (info i)) (data_manager h) tr = (q, m, tr1)"
      by (metis prod_cases3)
    have inv: "session_inv F h tr" and own: "own h = {}" using sh None by (simp_all add: shielded_def own_def)
    have "snd ` exposed tr \<subseteq> dom (live_blocks tr)"
      using sh own inv None by (simp add: shielded_def session_inv_def holds_memory_def mm_gain_def)
    from mm_init_guarded [OF fresh(1) this m] own have g: "guards h tr (h\<lparr>data_manager := m\<rparr>) tr1"
      by (auto simp: guards_def)
    have sh1: "shielded F (h\<lparr>data_manager := m\<rparr>) tr1"
      by (rule shielded_guards [OF sh g session_init [OF fresh(1) inv None m]])
    have "mm_data m \<noteq> None" if "q = Inr u" for u
      using acquire_outcome [OF fresh(1) _ m [unfolded MemoryManager_init_def]] None that by auto
    then show ?thesis
      using run Some y None m g guards_trans [OF g guards_register [OF fresh(2) sh1]]
      by (auto simp: RPMAHandler_get_descriptor_for_write_def MemoryManager_get_pointer_def Let_def split: sum.splits)
  next
    case (Some a)
    then show ?thesis
      using run \<open>RwlReplicaInitRequest_decode c (recv_bl h) = Some y\<close> y guards_register [OF fresh(2) sh]
      by (auto simp: RPMAHandler_get_descriptor_for_write_def MemoryManager_get_pointer_def Let_def)
  qed
qed

lemma guards_deal_require:
  assumes fresh: "alloc_fresh e" "objects_fresh e" and sh: "shielded F h tr"
    and run: "RPMAHandler_deal_require e c junk h tr = (r, h', tr')"
  shows "guards h tr h' tr'"
proof -
  obtain r1 h1 tr1 where g: "RPMAHandler_get_descriptor e c junk h tr = (r1, h1, tr1)" by (metis prod_cases3)
  have "guards h tr h tr" by (rule guards_quiet) (simp_all add: same_resources_def)
  then have g1: "guards h tr h1 tr1"
    using g guards_write_request [OF fresh sh] guards_close [OF sh]
    by (auto simp: RPMAHandler_get_descriptor_def split: option.splits if_splits)
  obtain ret h2 tr2 where v: "ConnectionHandler_recv e Deal_require h1 tr1 = (ret, h2, tr2)" by (metis prod_cases3)
  have "h' = h1 \<and> tr' = tr1 \<or> same_resources h2 h' \<and> quiet tr2 tr'"
    using run g v by (auto simp: RPMAHandler_deal_require_def env_simps same_resources_def split: sum.splits)
  then show ?thesis using g1 guards_trans [OF g1 guards_recv [OF v]] guards_quiet guards_trans by blast
qed

lemma shielded_deal_require:
  assumes "alloc_fresh e" "objects_fresh e" "shielded F h tr" "RPMAHandler_deal_require e c junk h tr = (r, h', tr')"
  shows "shielded F h' tr' \<and> guards h tr h' tr'"
proof -
  have g: "guards h tr h' tr'" by (rule guards_deal_require [OF assms])
  have "session_inv F h tr" using assms(3) by (simp add: shielded_def)
  from shielded_guards [OF assms(3) g session_deal_require [OF assms(1,2) this assms(4)]] g show ?thesis ..
qed

lemma shielded_still:
  assumes "same_resources h h'" "quiet tr tr'" "shielded F h tr"
  shows "shielded F h' tr' \<and> guards h tr h' tr'"
  using shielded_guards [OF assms(3) guards_quiet [OF assms(1,2)]] session_inv_quiet [OF _ assms(1,2)] guards_quiet [OF assms(1,2)] assms(3)
  by (auto simp: shielded_def)

interpretation guard: event_relation e c
  "\<lambda>h tr h' tr'. alloc_fresh e \<and> objects_fresh e \<and> shielded F h tr \<longrightarrow> shielded F h' tr' \<and> guards h tr h' tr'" for e c F
  by unfold_locales (use shielded_still in blast, use guards_trans in blast, use shielded_deal_require in blast)

subsection \<open>Construction and destruction\<close>

fun harmless :: "event \<Rightarrow> bool" where
  "harmless (Mem (Ev_pmem_unmap a n)) = False"
| "harmless (Mem (Ev_free a)) = False"
| "harmless (Mr (Ev_mr_reg p a n u r)) = (\<not> remote_usage u)"
| "harmless ev = True"

lemma harmless_event:
  assumes "harmless ev"
  shows "exposure_ok L R ev" and "expose R ev \<subseteq> R"
  using assms
  by (cases "(L, R, ev)" rule: exposure_ok.cases; auto) (cases "(R, ev)" rule: expose.cases; use assms in auto)

lemma harmless_events:
  "\<forall>ev \<in> set evs. harmless ev \<Longrightarrow> exposure_from L R evs \<and> foldl expose R evs \<subseteq> R"
proof (induction evs arbitrary: L R)
  case (Cons ev evs)
  have "exposure_ok L R ev" "expose R ev \<subseteq> R" using harmless_event [of ev] Cons.prems by simp_all
  with Cons.IH [of "mem_apply L ev" "expose R ev"] Cons.prems show ?case by simp blast
qed simp

abbreviation harmless_run :: "trace \<Rightarrow> trace \<Rightarrow> bool" where
  "harmless_run \<equiv> appends harmless"

lemmas harmless_trans = appends_trans [where P = harmless]
lemmas harmless_snoc = appends_snoc [where P = harmless]

lemma harmless_run_exposure:
  assumes "harmless_run tr tr'"
  shows "exposed tr' \<subseteq> exposed tr" and "exposure_safe tr' = exposure_safe tr"
proof -
  obtain evs where tr': "tr' = tr @ evs" and evs: "\<forall>ev \<in> set evs. harmless ev" using assms by (auto simp: appends_def)
  from harmless_events [OF evs] show "exposed tr' \<subseteq> exposed tr" "exposure_safe tr' = exposure_safe tr"
    unfolding tr' exposed_append exposure_safe_append by simp_all
qed

lemma harmless_unique [simp]: "harmless_run tr (unique_delete RpmaMRDeleter x tr)"
  by (cases x) (simp_all add: RpmaMRDeleter_def env_simps)

lemma harmless_base_destroy:
  assumes "ConnectionHandler_destroy e h tr = (r, h', tr')"
  shows "harmless_run tr tr'"
proof -
  let ?tr1 = "unique_delete RpmaMRDeleter (recv_mr h) tr"
  let ?tr2 = "unique_delete RpmaMRDeleter (send_mr h) ?tr1"
  have "harmless_run tr ?tr2" by (rule harmless_trans [of _ ?tr1]) simp_all
  moreover have "harmless_run t t'" if "RpmaConn_destroy e x t = (x', t')" for x t x' t'
    using that by (auto simp: RpmaConn_destroy_def env_simps split: option.splits)
  ultimately show ?thesis
    using assms by (auto simp: ConnectionHandler_destroy_def split: if_splits prod.splits intro: harmless_trans)
qed

lemma guards_destroy:
  assumes sh: "shielded F h tr" and run: "RPMAHandler_destroy e h tr = (r, h', tr')"
  shows "(exposure_safe tr \<longrightarrow> exposure_safe tr') \<and> exposed tr' \<subseteq> exposed tr - own h"
proof -
  let ?tr1 = "unique_delete RpmaMRDeleter (data_mr h) tr"
  obtain m tr2 where d: "MemoryManager_destroy (data_manager h) ?tr1 = (m, tr2)" by (metis prod.exhaust)
  have "harmless_run tr2 tr'" using run d by (auto simp: RPMAHandler_destroy_def dest: harmless_base_destroy)
  note rest = harmless_run_exposure [OF this]
  have "exposed ?tr1 \<subseteq> exposed tr - own h" using own_region by (auto simp: exposed_delete)
  moreover have "exposed tr' \<subseteq> exposed ?tr1" "exposure_safe tr' = exposure_safe tr"
    using rest mm_release_guarded(1) [OF withdrawn(2) [OF sh] d] exposed_delete(2) [of "data_mr h" tr] by simp_all
  ultimately show ?thesis by (simp add: subset_trans)
qed

lemma harmless_throw:
  assumes "mm_data (data_manager h) = None" and "harmless_run tr0 tr"
  shows "harmless_run tr0 (snd (ctor_throw e f h tr))"
proof -
  obtain r h' tr' where d: "RPMAHandler_destroy e h tr = (r, h', tr')" by (metis prod_cases3)
  have "harmless_run (unique_delete RpmaMRDeleter (data_mr h) tr) tr'"
    using d assms(1) by (auto simp: RPMAHandler_destroy_def MemoryManager_destroy_def dest: harmless_base_destroy)
  then have "harmless_run tr tr'" by (rule harmless_trans [OF harmless_unique])
  then have "harmless_run tr0 tr'" by (rule harmless_trans [OF assms(2)])
  with d show ?thesis by (simp add: ctor_throw_def)
qed

lemma harmless_buffers:
  assumes "ConnectionHandler_init_send_recv_buffer e h tr = (r, h', tr')"
  shows "harmless_run tr tr'"
  using assms
  by (cases "recv_mr h"; cases "send_mr h")
    (auto simp: ConnectionHandler_init_send_recv_buffer_def env_simps RpmaMRDeleter_def Let_def split: prod.splits if_splits)

lemma harmless_conn_fd: "ConnectionHandler_init_conn_fd e h tr = (r, h', tr') \<Longrightarrow> harmless_run tr tr'"
  by (auto simp: ConnectionHandler_init_conn_fd_def env_simps Let_def split: prod.splits if_splits option.splits)

text \<open>A new connection exposes nothing, and neither does a constructor that throws.\<close>

definition new_exposes_nothing :: "trace \<Rightarrow> RPMAHandler result \<times> trace \<Rightarrow> bool" where
  "new_exposes_nothing tr x \<longleftrightarrow> harmless_run tr (snd x) \<and> (\<forall>h. fst x = Inr h \<longrightarrow> data_mr h = None)"

lemma throw_exposes_nothing:
  "mm_data (data_manager h) = None \<Longrightarrow> harmless_run tr0 tr \<Longrightarrow> new_exposes_nothing tr0 (ctor_throw e f h tr)"
  using harmless_throw [of h tr0 tr e f] by (auto simp: new_exposes_nothing_def ctor_throw_def split: prod.splits)

lemma conn_fd_frame:
  "ConnectionHandler_init_conn_fd e h tr = (r, h', tr') \<Longrightarrow> data_mr h' = data_mr h \<and> data_manager h' = data_manager h"
  by (auto simp: ConnectionHandler_init_conn_fd_def Let_def split: prod.splits if_splits option.splits)

lemma harmless_new: "new_exposes_nothing tr0 (RPMAHandler_new e j1 j2 jsz peer ep tr0)"
proof -
  let ?h0 = "(RPMAHandler_default j1 j2 jsz)\<lparr>ch_peer := peer\<rparr>"
  obtain r1 h1 tr1 where b: "ConnectionHandler_init_send_recv_buffer e ?h0 tr0 = (r1, h1, tr1)" by (metis prod_cases3)
  obtain ret req tr2 where q: "rpma_ep_next_conn_req e ep tr1 = ((ret, req), tr2)" by (metis prod.exhaust)
  obtain p h2 where n: "new_op RpmaReqRecv Deal_require h1 = (p, h2)" by (metis prod.exhaust)
  obtain ret2 tr3 where v: "RpmaReqRecv_call e req (recv_mr h2) 0 msg_len (Some p) tr2 = (ret2, tr3)" by (metis prod.exhaust)
  obtain ret3 req2 conn tr4 where k: "rpma_conn_req_connect e req tr3 = ((ret3, req2, conn), tr4)" by (metis prod.exhaust)
  let ?h3 = "settle_op p ret2 h2"
  obtain r5 h5 tr5 where f: "ConnectionHandler_init_conn_fd e (?h3\<lparr>ch_conn := RpmaConn_reset conn (ch_conn ?h3)\<rparr>) tr4 = (r5, h5, tr5)"
    by (metis prod_cases3)
  have h1: "mm_data (data_manager h1) = None" "data_mr h1 = None"
    using buffers_frame [OF b]
    by (simp_all add: RPMAHandler_default_def ConnectionHandler.extend_def MemoryManager_default_def)
  have h3: "data_mr ?h3 = data_mr h1" "data_manager ?h3 = data_manager h1"
    using n by (auto simp: new_op_def settle_op_def delete_op_def)
  then have h5: "data_mr h5 = None" "mm_data (data_manager h5) = None" using conn_fd_frame [OF f] h1 by simp_all
  have t1: "harmless_run tr0 tr1" by (rule harmless_buffers [OF b])
  have t2: "harmless_run tr0 tr2" using harmless_snoc [OF t1] q by (auto simp: env_simps)
  have t3: "harmless_run tr0 tr3" using harmless_snoc [OF t2] v by (auto simp: env_simps)
  have t4: "harmless_run tr0 tr4" using harmless_snoc [OF t3] k by (auto simp: env_simps)
  have t5: "harmless_run tr0 tr5" by (rule harmless_trans [OF t4 harmless_conn_fd [OF f]])
  have "new_exposes_nothing tr0 (case r5 of Inl f \<Rightarrow> ctor_throw e f h5 tr5 | Inr _ \<Rightarrow> (Inr h5, tr5))"
    using h5 t5 throw_exposes_nothing [OF h5(2) t5] by (cases r5) (simp_all, simp add: new_exposes_nothing_def)
  then show ?thesis
    using h1 h3 t1 t2 t3 t4 v k f
    by (cases r1; cases "ret2 = 0"; cases "ret3 = 0")
      (simp_all add: RPMAHandler_new_def b q n Let_def throw_exposes_nothing log_event_def harmless_snoc)
qed

end
