(* ===== verification/Server_Exposure_Main.thy ===== *)
theory Server_Exposure_Main
  imports Server_Main Server_Exposure
begin

text \<open>
  What the whole server exposes: every region open to a client lies in live memory of the
  connection that registered it, over the run of the program with all its connections.
\<close>

subsection \<open>All connections\<close>

definition all_own :: "(hid \<rightharpoonup> RPMAHandler) \<Rightarrow> (ptr \<times> addr) set" where
  "all_own H = {x. \<exists>i h. H i = Some h \<and> x \<in> own h}"

definition all_shielded :: "footprint \<Rightarrow> (hid \<rightharpoonup> RPMAHandler) \<Rightarrow> trace \<Rightarrow> bool" where
  "all_shielded B H tr \<longleftrightarrow>
     exposure_safe tr \<and> snd ` (exposed tr - all_own H) \<subseteq> dom (fp_blocks B)"

lemma held_by_blocks:
  assumes "held_by F h F'"
  shows "dom (fp_blocks F) \<subseteq> dom (fp_blocks F')" and "mm_data (data_manager h) = Some a \<Longrightarrow> a \<in> dom (fp_blocks F')"
  using assms by (auto simp: held_by_def mm_gain_def split: option.splits)

lemma holdings_blocks:
  "holdings B H F \<Longrightarrow> dom (fp_blocks B) \<subseteq> dom (fp_blocks F) \<and> snd ` all_own H \<subseteq> dom (fp_blocks F)"
proof (induction rule: holdings.induct)
  case nothing
  then show ?case by (simp add: all_own_def)
next
  case (another H F i h F')
  have "all_own (H(i \<mapsto> h)) \<subseteq> all_own H \<union> own h" by (auto simp: all_own_def split: if_splits)
  moreover have "snd ` own h \<subseteq> dom (fp_blocks F')" using held_by_blocks(2) [OF another.hyps(3)] by (auto simp: own_def)
  ultimately show ?case using another.IH held_by_blocks(1) [OF another.hyps(3)] by blast
qed

lemma all_ownI: "H i = Some h \<Longrightarrow> x \<in> own h \<Longrightarrow> x \<in> all_own H"
  unfolding all_own_def by blast

lemma all_own_drop: "all_own (H(i := None)) \<subseteq> all_own H"
  by (auto simp: all_own_def split: if_splits)

lemma own_others:
  assumes "H i = Some h"
  shows "all_own H = own h \<union> all_own (H(i := None))"
proof (intro equalityI subsetI)
  fix x
  assume "x \<in> all_own H"
  then obtain j g where g: "H j = Some g" "x \<in> own g" unfolding all_own_def by blast
  show "x \<in> own h \<union> all_own (H(i := None))"
  proof (cases "j = i")
    case True
    with g assms show ?thesis by simp
  next
    case False
    with g have "x \<in> all_own (H(i := None))" by (intro all_ownI [of _ j g]) simp_all
    then show ?thesis ..
  qed
qed (use assms all_ownI [of H i h] all_own_drop [of H i] in blast)

text \<open>Seen from one connection, the others' memory is part of the footprint it does not own.\<close>

lemma shield_take:
  assumes "holdings B H (footprint tr)" and "all_shielded B H tr" and "H i = Some h"
  shows "\<exists>F. holdings B (H(i := None)) F \<and> shielded F h tr"
proof -
  obtain F where F: "holdings B (H(i := None)) F" "held_by F h (footprint tr)" using holdings_take [OF assms(1,3)] by blast
  have "exposed tr - own h \<subseteq> (exposed tr - all_own H) \<union> all_own (H(i := None))"
    using own_others [of H i h, OF assms(3)] by blast
  then have "snd ` (exposed tr - own h) \<subseteq> dom (fp_blocks F)"
    using assms(2) holdings_blocks [OF F(1)] unfolding all_shielded_def by blast
  with F show ?thesis by (auto simp: shielded_def session_held)
qed

lemma shield_put:
  assumes "all_shielded B H tr" and "H i = Some h" and "guards h tr h1 tr1"
  shows "all_shielded B (H(i \<mapsto> h1)) tr1"
proof -
  have "all_own (H(i \<mapsto> h1)) = own h1 \<union> all_own (H(i := None))" using own_others [of "H(i \<mapsto> h1)" i h1] by simp
  then have "exposed tr1 - all_own (H(i \<mapsto> h1)) \<subseteq> exposed tr - all_own H"
    using assms(3) own_others [of H i h, OF assms(2)] unfolding guards_def by blast
  with assms(1,3) show ?thesis unfolding all_shielded_def guards_def by blast
qed

lemma shield_quiet: "all_shielded B H tr \<Longrightarrow> quiet tr tr' \<Longrightarrow> all_shielded B H tr'"
  using exposure_quiet by (simp add: all_shielded_def)

lemma shield_handle:
  assumes "alloc_fresh e" and "objects_fresh e" and "holdings B H (footprint tr)" and "all_shielded B H tr"
    and "H i = Some h" and "same_resources h h0" and "RPMAHandler_handle e c junk j et h0 ro tr = (r, h1, ro', tr1)"
  shows "all_shielded B (H(i \<mapsto> h1)) tr1"
proof -
  obtain F where "shielded F h tr" using shield_take [OF assms(3-5)] by blast
  with shielded_still [OF assms(6) quiet_refl] have "shielded F h0 tr" "guards h tr h0 tr" by blast+
  with guard.handle_step [OF assms(7)] assms(1,2) have "guards h tr h1 tr1" using guards_trans by blast
  then show ?thesis by (rule shield_put [OF assms(4,5)])
qed

lemma shield_destroy:
  assumes "holdings B H (footprint tr)" and "all_shielded B H tr" and "H i = Some h" and "RPMAHandler_destroy e h tr = (r, h', tr1)"
  shows "all_shielded B (H(i := None)) tr1"
proof -
  obtain F where "shielded F h tr" using shield_take [OF assms(1-3)] by blast
  note d = guards_destroy [OF this assms(4)]
  then have "exposed tr1 - all_own (H(i := None)) \<subseteq> exposed tr - all_own H" using own_others [of H i h, OF assms(3)] by blast
  with assms(2) d show ?thesis unfolding all_shielded_def by blast
qed

lemma shield_new:
  assumes "all_shielded B H tr" and "H i = None" and "RPMAHandler_new e j1 j2 jsz peer ep tr = (x, tr1)"
  shows "all_shielded B H tr1" and "x = Inr h \<Longrightarrow> all_shielded B (H(i \<mapsto> h)) tr1"
proof -
  have n: "harmless_run tr tr1" using harmless_new [of tr e j1 j2 jsz peer ep] assms(3) by (simp add: new_exposes_nothing_def)
  from harmless_run_exposure [OF n] assms(1) show sh: "all_shielded B H tr1" unfolding all_shielded_def by blast
  have "all_own H \<subseteq> all_own (H(i \<mapsto> h))" for h
  proof
    fix y
    assume "y \<in> all_own H"
    then obtain j g where "H j = Some g" "y \<in> own g" unfolding all_own_def by blast
    with assms(2) show "y \<in> all_own (H(i \<mapsto> h))" by (intro all_ownI [of _ j g]) auto
  qed
  with sh show "all_shielded B (H(i \<mapsto> h)) tr1" if "x = Inr h" unfolding all_shielded_def by blast
qed

subsection \<open>Every dispatched event\<close>

lemma shield_release:
  assumes "holdings B (sv_handlers s) (footprint tr)" and "all_shielded B (sv_handlers s) tr" and "release_handler e i s tr = (s', tr')"
  shows "all_shielded B (sv_handlers s') tr'"
  using assms shield_destroy [OF assms(1,2), of i]
  by (auto simp: release_handler_def split: if_splits option.splits prod.splits)

lemma accept_shield:
  assumes fresh: "objects_fresh e" and ok: "server_ok s tr" and hold: "holdings B (sv_handlers s) (footprint tr)"
    and sh: "all_shielded B (sv_handlers s) tr" and run: "AcceptorHandler_handle e w et s tr = (r, s', tr')"
  shows "all_shielded B (sv_handlers s') tr'"
proof -
  let ?j = "w_junk w tr" and ?a = "sv_acceptor s" and ?i = "sv_next s"
  obtain x tr1 where n: "RPMAHandler_new e (sj_conn_fd ?j) (sj_comp_fd ?j) (sj_size ?j) (ac_peer ?a) (ac_ep ?a) tr = (x, tr1)"
    by (metis prod.exhaust)
  have free: "sv_handlers s ?i = None" using server_okD(4) [OF ok, of ?i] by (cases "sv_handlers s ?i") auto
  note new = shield_new [OF sh free n]
  show ?thesis
  proof (cases x)
    case (Inl f)
    with new(1) run n sh show ?thesis by (auto simp: AcceptorHandler_handle_def split: if_splits failure.splits)
  next
    case (Inr h)
    obtain ret ro tr2 where g: "register_pair e ?i h (Some (sv_reactor s)) tr1 = (ret, ro, tr2)" by (metis prod_cases3)
    let ?s = "s\<lparr>sv_reactor := case ro of None \<Rightarrow> sv_reactor s | Some r \<Rightarrow> r, sv_handlers := (sv_handlers s)(?i \<mapsto> h), sv_next := Suc ?i\<rparr>"
    obtain s3 tr3 where rel: "release_handler e ?i ?s tr2 = (s3, tr3)" by (metis prod.exhaust)
    have q: "quiet tr1 tr2" by (rule quiet_register_pair [OF g])
    have "holdings B (sv_handlers ?s) (footprint tr2)"
      using holdings_new [OF fresh hold free n] Inr footprint_quiet [OF q] by simp
    moreover have "all_shielded B (sv_handlers ?s) tr2" using shield_quiet [OF new(2) [OF Inr] q] by simp
    ultimately have "all_shielded B (sv_handlers s3) tr3" by (rule shield_release [OF _ _ rel])
    with run n Inr g rel sh show ?thesis
      by (auto simp: AcceptorHandler_handle_def RPMAHandler_register_self_def Let_def split: if_splits)
  qed
qed

lemma event_shield:
  assumes fresh: "alloc_fresh e" "objects_fresh e" and hold: "holdings B (sv_handlers s) (footprint tr)"
    and sh: "all_shielded B (sv_handlers s) tr" and i: "i \<noteq> 0" and h: "sv_handlers s i = Some h"
    and run: "server_dispatch e c w i et s tr = (x, s', tr')"
  shows "all_shielded B (sv_handlers s') tr'"
proof -
  let ?h0 = "case w_recv w tr i of None \<Rightarrow> h | Some msg \<Rightarrow> h\<lparr>recv_bl := msg\<rparr>"
  have h0: "same_resources h ?h0" by (simp add: same_resources_def split: option.splits)
  obtain y h1 ro tr1 where g: "RPMAHandler_handle e c (sj_pcfg (w_junk w tr)) i et ?h0 (Some (sv_reactor s)) tr = (y, h1, ro, tr1)"
    by (metis prod.exhaust)
  let ?s = "s\<lparr>sv_reactor := case ro of None \<Rightarrow> sv_reactor s | Some r \<Rightarrow> r, sv_handlers := (sv_handlers s)(i \<mapsto> h1)\<rparr>"
  obtain s2 tr2 where rel: "release_handler e i ?s tr1 = (s2, tr2)" by (metis prod.exhaust)
  have "s' = s2" "tr' = tr2" using run i h g rel by (simp_all add: server_dispatch_def Let_def)
  moreover have "holdings B (sv_handlers ?s) (footprint tr1)" using holdings_handle [OF fresh hold h h0 g] by simp
  moreover have "all_shielded B (sv_handlers ?s) tr1" using shield_handle [OF fresh hold sh h h0 g] by simp
  ultimately show ?thesis using shield_release [OF _ _ rel] by blast
qed

subsection \<open>The program\<close>

definition server_shields :: "footprint \<Rightarrow> server \<Rightarrow> trace \<Rightarrow> bool" where
  "server_shields B s tr \<longleftrightarrow> server_holds B s tr \<and> all_shielded B (sv_handlers s) tr"

context server_machine
begin

lemma dispatch_shields:
  assumes inv: "server_shields B s tr" and view: "reactor_view (sv_reactor s) fd = Some (et, i)"
    and run: "server_dispatch e c w i et s tr = (x, s', tr')"
  shows "all_shielded B (sv_handlers s') tr'"
proof -
  have ok: "server_ok s tr" and H: "holdings B (sv_handlers s) (footprint tr)" and sh: "all_shielded B (sv_handlers s) tr"
    using inv by (simp_all add: server_shields_def server_holds_def)
  show ?thesis
  proof (cases "i = 0")
    case True
    then show ?thesis using run accept_shield [OF objects ok H sh] by (simp add: server_dispatch_def)
  next
    case False
    then obtain h where "sv_handlers s i = Some h" using server_okD(3) [OF ok view] by blast
    from event_shield [OF blocks objects H sh False this run] show ?thesis .
  qed
qed

end

sublocale server_machine \<subseteq> shields: event_loop e sv_reactor "server_dispatch e c w" "server_shields B" for c w B
proof unfold_locales
  show "epoll_ok e" by (rule polls)
  show "server_shields B s tr \<Longrightarrow> reactor_inv (sv_reactor s) tr" for s tr
    by (simp add: server_shields_def server_holds_def server_okD(1))
  show "server_shields B s tr \<Longrightarrow> server_shields B s (tr @ [Poll (Ev_epoll_wait x)])" for s tr x
    using owned.ok_wait shield_quiet [of B "sv_handlers s" tr "tr @ [Poll (Ev_epoll_wait x)]"] by (simp add: server_shields_def)
  show "\<lbrakk>server_shields B s tr; reactor_view (sv_reactor s) fd = Some (et, i); server_dispatch e c w i et s tr = (Inr v, s', tr')\<rbrakk>
      \<Longrightarrow> server_shields B s' tr'" for s tr fd et i v s' tr'
    using dispatch_shields [of B s tr fd et i c w "Inr v"] owned.disp_ok unfolding server_shields_def by blast
qed

context server_machine
begin

lemmas shields_loop = shields.event_loop_axioms

end

interpretation withdraw_all: dismantling e "\<lambda>H tr. holdings B H (footprint tr) \<and> all_shielded B H tr" for e B
  by unfold_locales (use holdings_destroy shield_destroy footprint_quiet shield_quiet in auto)



end
