(* ===== verification/Server_Isolation.thy ===== *)
theory Server_Isolation
  imports Server_Exposure_Main
begin

text \<open>
  The connections of a server do not interfere: the calls made for an event of one connection
  name no block, region or connection that belongs to another, so that the other is left as it
  was, in the program, in the library and in what its client can reach.
\<close>

subsection \<open>The objects a call names\<close>

text \<open>Arguments and results; a remote region belongs to the peer and is none of these objects.\<close>

fun named_blocks :: "event \<Rightarrow> addr set" where
  "named_blocks (Mem (Ev_pmem_map_file p n k (a, l, b))) = set_option a"
| "named_blocks (Mem (Ev_pmem_unmap a n)) = {a}"
| "named_blocks (Mem (Ev_malloc n a)) = set_option a"
| "named_blocks (Mem (Ev_free a)) = {a}"
| "named_blocks (Mr (Ev_mr_reg p a n u r)) = (if remote_usage u then set_option a else {})"
| "named_blocks ev = {}"

fun named_mrs :: "event \<Rightarrow> ptr set" where
  "named_mrs (Mr (Ev_mr_reg p a n u (ret, m))) = set_option m"
| "named_mrs (Mr (Ev_mr_dereg m)) = {m}"
| "named_mrs (Mr (Ev_mr_get_descriptor_size m r)) = set_option m"
| "named_mrs (Mr (Ev_mr_get_descriptor m r)) = set_option m"
| "named_mrs (Post (Ev_conn_req_recv q m i n p r)) = set_option m"
| "named_mrs (Post (Ev_recv q m i n p r)) = set_option m"
| "named_mrs (Post (Ev_send q m i n f p r)) = set_option m"
| "named_mrs (Post (Ev_write q d i m j n f p r)) = set_option m"
| "named_mrs (Post (Ev_read q m i s j n f p r)) = set_option m"
| "named_mrs (Post (Ev_write_atomic q d i m j f p r)) = set_option m"
| "named_mrs ev = {}"

fun conn_subject :: "conn_event \<Rightarrow> ptr option" where
  "conn_subject (Ev_conn_get_event_fd q r) = q"
| "conn_subject (Ev_conn_get_completion_fd q r) = q"
| "conn_subject (Ev_conn_next_event q r) = q"
| "conn_subject (Ev_conn_completion_wait q r) = q"
| "conn_subject (Ev_conn_completion_get q r) = q"
| "conn_subject (Ev_conn_apply_remote_peer_cfg q p) = q"
| "conn_subject (Ev_conn_disconnect q r) = q"
| "conn_subject (Ev_conn_delete q) = Some q"

fun named_conns :: "event \<Rightarrow> ptr set" where
  "named_conns (Conn ev) = set_option (conn_subject ev)"
| "named_conns (Setup (Ev_conn_req_connect q (ret, q', x))) = set_option x"
| "named_conns (Post (Ev_recv q m i n p r)) = set_option q"
| "named_conns (Post (Ev_send q m i n f p r)) = set_option q"
| "named_conns (Post (Ev_write q d i m j n f p r)) = set_option q"
| "named_conns (Post (Ev_flush q d i n t f p r)) = set_option q"
| "named_conns (Post (Ev_read q m i s j n f p r)) = set_option q"
| "named_conns (Post (Ev_write_atomic q d i m j f p r)) = set_option q"
| "named_conns ev = {}"

definition spares :: "footprint \<Rightarrow> event \<Rightarrow> bool" where
  "spares F ev \<longleftrightarrow> named_blocks ev \<inter> dom (fp_blocks F) = {} \<and> named_mrs ev \<inter> fp_mrs F = {} \<and> named_conns ev \<inter> fp_conns F = {}"

abbreviation sparing :: "footprint \<Rightarrow> trace \<Rightarrow> trace \<Rightarrow> bool" where
  "sparing F \<equiv> appends (spares F)"

lemmas sparing_trans = appends_trans [where P = "spares F" for F]
lemmas sparing_snoc = appends_snoc [where P = "spares F" for F]

text \<open>What is spared stays alive and stays as exposed as it was.\<close>

definition survives :: "footprint \<Rightarrow> trace \<Rightarrow> bool" where
  "survives F tr \<longleftrightarrow> fp_blocks F \<subseteq>\<^sub>m live_blocks tr \<and> fp_mrs F \<subseteq> live_mrs tr \<and> fp_conns F \<subseteq> live_conns tr"

lemma spares_applies:
  assumes "spares F ev"
  shows "fp_blocks F \<subseteq>\<^sub>m L \<Longrightarrow> fp_blocks F \<subseteq>\<^sub>m mem_apply L ev"
    and "fp_mrs F \<subseteq> M \<Longrightarrow> fp_mrs F \<subseteq> mr_apply M ev"
    and "fp_conns F \<subseteq> C \<Longrightarrow> fp_conns F \<subseteq> conn_apply C ev"
    and "x \<in> fp_mrs F \<Longrightarrow> (x, a) \<in> expose R ev \<longleftrightarrow> (x, a) \<in> R"
proof -
  show "fp_blocks F \<subseteq>\<^sub>m L \<Longrightarrow> fp_blocks F \<subseteq>\<^sub>m mem_apply L ev"
    using assms by (cases "(L, ev)" rule: mem_apply.cases) (auto simp: spares_def map_le_def dom_def split: if_splits)
  show "fp_mrs F \<subseteq> M \<Longrightarrow> fp_mrs F \<subseteq> mr_apply M ev"
    using assms by (cases "(M, ev)" rule: mr_apply.cases) (auto simp: spares_def)
  show "fp_conns F \<subseteq> C \<Longrightarrow> fp_conns F \<subseteq> conn_apply C ev"
    using assms by (cases "(C, ev)" rule: conn_apply.cases) (auto simp: spares_def)
  show "x \<in> fp_mrs F \<Longrightarrow> (x, a) \<in> expose R ev \<longleftrightarrow> (x, a) \<in> R"
    using assms by (cases "(R, ev)" rule: expose.cases) (auto simp: spares_def)
qed

lemma sparing_survives:
  assumes "survives F tr" and "sparing F tr tr'"
  shows "survives F tr'"
proof -
  have "survives F (tr @ evs)" if "\<forall>ev \<in> set evs. spares F ev" for evs
    using that
  proof (induction evs rule: rev_induct)
    case (snoc ev evs)
    then show ?case
      using spares_applies(1-3) [of F ev] by (simp add: survives_def live_blocks_def live_mrs_def live_conns_def)
  qed (simp add: assms(1))
  with assms(2) show ?thesis by (auto simp: appends_def)
qed

lemma sparing_exposed:
  assumes "sparing F tr tr'" and "x \<in> fp_mrs F"
  shows "(x, a) \<in> exposed tr' \<longleftrightarrow> (x, a) \<in> exposed tr"
proof -
  have "(x, a) \<in> exposed (tr @ evs) \<longleftrightarrow> (x, a) \<in> exposed tr" if "\<forall>ev \<in> set evs. spares F ev" for evs
    using that spares_applies(4) [OF _ assms(2)] by (induction evs rule: rev_induct) (auto simp: exposed_def)
  with assms(1) show ?thesis by (auto simp: appends_def)
qed

subsection \<open>A handler apart from the others\<close>

definition apart :: "footprint \<Rightarrow> RPMAHandler \<Rightarrow> bool" where
  "apart F h \<longleftrightarrow>
     set_option (mm_data (data_manager h)) \<inter> dom (fp_blocks F) = {} \<and>
     set (opt_list (data_mr h) @ buffer_mrs h) \<inter> fp_mrs F = {} \<and>
     set_option (rc_conn (ch_conn h)) \<inter> fp_conns F = {}"

lemma apart_same: "same_resources h h' \<Longrightarrow> apart F h' = apart F h"
  by (simp add: apart_def same_resources_def buffer_mrs_def)

text \<open>What the operations of a handler that is apart do: spare the others and stay apart.\<close>

definition observes :: "footprint \<Rightarrow> RPMAHandler \<Rightarrow> trace \<Rightarrow> RPMAHandler \<Rightarrow> trace \<Rightarrow> bool" where
  "observes F h tr h' tr' \<longleftrightarrow> (survives F tr \<and> apart F h \<longrightarrow> sparing F tr tr' \<and> apart F h')"

lemma observes_trans: "observes F h1 tr1 h2 tr2 \<Longrightarrow> observes F h2 tr2 h3 tr3 \<Longrightarrow> observes F h1 tr1 h3 tr3"
  using sparing_survives sparing_trans unfolding observes_def by blast

lemma observes_same: "same_resources h h' \<Longrightarrow> (apart F h \<Longrightarrow> sparing F tr tr') \<Longrightarrow> observes F h tr h' tr'"
  by (simp add: observes_def apart_same)

lemma apart_names:
  assumes "apart F h"
  shows "set_option (data_mr h) \<inter> fp_mrs F = {}" and "set_option (recv_mr h) \<inter> fp_mrs F = {}" and "set_option (send_mr h) \<inter> fp_mrs F = {}"
    and "set_option (rc_conn (ch_conn h)) \<inter> fp_conns F = {}" and "set_option (mm_data (data_manager h)) \<inter> dom (fp_blocks F) = {}"
  using assms by (auto simp: apart_def buffer_mrs_def opt_list_def split: option.splits)

lemma sparing_dereg: "set_option x \<inter> fp_mrs F = {} \<Longrightarrow> sparing F tr (unique_delete RpmaMRDeleter x tr)"
  by (cases x) (simp_all add: RpmaMRDeleter_def env_simps spares_def)

lemma observes_post:
  "ConnectionHandler_send e cb h tr = (ret, h', tr') \<Longrightarrow> observes F h tr h' tr'"
  "ConnectionHandler_recv e cb h tr = (ret, h', tr') \<Longrightarrow> observes F h tr h' tr'"
proof -
  show "observes F h tr h' tr'" if "ConnectionHandler_send e cb h tr = (ret, h', tr')"
    by (rule observes_same [OF same_send [OF that]])
      (use that in \<open>auto simp: ConnectionHandler_send_def new_op_def env_simps obj_defs spares_def apart_names\<close>)
  show "observes F h tr h' tr'" if "ConnectionHandler_recv e cb h tr = (ret, h', tr')"
    by (rule observes_same [OF same_recv [OF that]])
      (use that in \<open>auto simp: ConnectionHandler_recv_def new_op_def env_simps obj_defs spares_def apart_names\<close>)
qed

lemma observes_message: "put_message bl h = (r, h') \<Longrightarrow> observes F h tr h' tr"
  by (rule observes_same [OF same_put_message]) simp_all

text \<open>Managers release their own block and take a block that nobody holds.\<close>

lemma sparing_release:
  assumes "set_option (mm_data m) \<inter> dom (fp_blocks F) = {}"
  shows "MemoryManager_destroy m tr = (m', tr') \<Longrightarrow> sparing F tr tr' \<and> mm_data m' = None"
    and "MemoryManager_close_and_remove e m tr = (ret, m', tr') \<Longrightarrow> sparing F tr tr' \<and> mm_data m' = None"
  using assms
  by (auto simp: MemoryManager_destroy_def MemoryManager_close_and_remove_def mm_release_def env_simps spares_def split: option.splits)

lemma survives_free: "survives F tr \<Longrightarrow> live_blocks tr a = None \<Longrightarrow> fp_blocks F a = None"
  by (auto simp: survives_def map_le_def dom_def)

lemma sparing_pmem:
  assumes fresh: "alloc_fresh e" and cov: "survives F tr" and run: "MemoryManager_get_memory_from_pmem e path m tr = (d, m', tr')"
  shows "sparing F tr tr' \<and> set_option d \<inter> dom (fp_blocks F) = {}"
proof -
  have "fp_blocks F a = None" if "e_pmem_map_file (mem_of e) (tr @ [Mem (Ev_access q b)]) p n k = (Some a, len, pm)" for q b p n k a len pm
    using survives_free [OF cov] alloc_freshD(2) [OF fresh that] by simp
  with run show ?thesis
    by (auto simp: MemoryManager_get_memory_from_pmem_def env_simps spares_def Let_def split: prod.splits if_splits option.splits)
qed

lemma sparing_dram:
  assumes fresh: "alloc_fresh e" and cov: "survives F tr" and run: "MemoryManager_get_memory_from_dram e m tr = (d, m', tr')"
  shows "sparing F tr tr' \<and> set_option d \<inter> dom (fp_blocks F) = {}"
proof -
  have "fp_blocks F a = None" if "d = Some a" for a
    using survives_free [OF cov dram_blocks(3) [OF fresh run that]] .
  with run show ?thesis by (cases d) (auto simp: MemoryManager_get_memory_from_dram_def env_simps spares_def)
qed

lemma sparing_init:
  assumes fresh: "alloc_fresh e" and cov: "survives F tr" and run: "MemoryManager_init e sz path m tr = (r, m', tr')"
  shows "sparing F tr tr' \<and> set_option (mm_data m') \<inter> dom (fp_blocks F) = {}"
proof -
  let ?p = "''/mnt/pmem/'' @ path"
  obtain d1 m1 tr1 where p: "MemoryManager_get_memory_from_pmem e ?p (m\<lparr>mm_path := ?p, mm_size := sz\<rparr>) tr = (d1, m1, tr1)"
    by (metis prod_cases3)
  note s1 = sparing_pmem [OF fresh cov p]
  obtain d2 m3 tr2 where q: "MemoryManager_get_memory_from_dram e (m1\<lparr>mm_data := d1, mm_is_pmem := False\<rparr>) tr1 = (d2, m3, tr2)"
    by (metis prod_cases3)
  note s2 = sparing_dram [OF fresh sparing_survives [OF cov conjunct1 [OF s1]] q]
  have "sparing F tr tr2" using s1 s2 sparing_trans by blast
  with run p q s1 s2 show ?thesis
    unfolding MemoryManager_init_def mm_acquire_def by (auto simp: Let_def split: if_splits)
qed

subsection \<open>Requests\<close>

lemma spares_peer_cfg: "append_pcfg e pm sz ds tr = (r, tr') \<Longrightarrow> sparing F tr tr'"
  by (auto simp: append_pcfg_def env_simps spares_def Let_def split: prod.splits if_splits sum.splits)

lemma sparing_build:
  assumes "set_option mr \<inter> fp_mrs F = {}" and "build_descriptor e junk opk pm mr tr = (r, tr')"
  shows "sparing F tr tr'"
  using assms
  by (auto simp: build_descriptor_def env_simps spares_def Let_def split: prod.splits if_splits sum.splits
      dest!: spares_peer_cfg [of _ _ _ _ _ _ _ F] intro: sparing_trans [rotated])

lemma observes_register:
  assumes fresh: "objects_fresh e" and run: "RPMAHandler_register_mr_to_descriptor e c junk opk h tr = (r, h', tr')"
  shows "observes F h tr h' tr'"
  unfolding observes_def
proof (intro impI)
  assume pre: "survives F tr \<and> apart F h"
  let ?m = "data_manager h"
  let ?u = "mr_usage opk (mm_is_pmem ?m)"
  obtain ret mr where reg: "e_mr_reg (mr_of e) tr (ch_peer h) (mm_data ?m) (mm_size ?m) ?u = (ret, mr)" by (metis prod.exhaust)
  let ?tr1 = "tr @ [Mr (Ev_mr_reg (ch_peer h) (mm_data ?m) (mm_size ?m) ?u (ret, mr))]"
  let ?tr2 = "unique_delete RpmaMRDeleter (data_mr h) ?tr1"
  obtain x tr3 where b: "build_descriptor e junk opk (mm_is_pmem ?m) mr ?tr2 = (x, tr3)" by (metis prod.exhaust)
  have mr: "set_option mr \<inter> fp_mrs F = {}"
    using objects_freshD(1) [OF fresh reg] pre by (auto simp: survives_def split: if_splits)
  then have s1: "sparing F tr ?tr1" using pre by (simp add: spares_def apart_names)
  have "sparing F ?tr1 ?tr2" using pre by (intro sparing_dereg) (simp add: apart_names)
  then have s3: "sparing F tr tr3" using s1 sparing_build [OF mr b] sparing_trans by blast
  have h: "apart F (h\<lparr>data_mr := mr\<rparr>)" using pre mr by (cases mr) (auto simp: apart_def buffer_mrs_def)
  have "apart F h2" if "put_message bl (h\<lparr>data_mr := mr\<rparr>) = (q, h2)" for bl q h2
    using apart_same [OF same_put_message [OF that]] h by simp
  with run reg b pre s1 s3 h show "sparing F tr tr' \<and> apart F h'"
    by (auto simp: RPMAHandler_register_mr_to_descriptor_def MemoryManager_get_pointer_def env_simps Let_def
        simp del: appends_append split: if_splits sum.splits prod.splits)
qed

lemma observes_close:
  assumes run: "RPMAHandler_close e c h tr = (r, h', tr')"
  shows "observes F h tr h' tr'"
proof -
  let ?tr1 = "unique_delete RpmaMRDeleter (data_mr h) tr"
  obtain ret m tr2 where cl: "MemoryManager_close_and_remove e (data_manager h) ?tr1 = (ret, m, tr2)" by (metis prod_cases3)
  let ?h2 = "h\<lparr>data_mr := None, data_manager := m\<rparr>"
  have "observes F h tr ?h2 tr2"
    unfolding observes_def
  proof (intro impI)
    assume pre: "survives F tr \<and> apart F h"
    then have "sparing F tr ?tr1" by (intro sparing_dereg) (simp add: apart_names)
    moreover have m: "sparing F ?tr1 tr2 \<and> mm_data m = None" using pre by (intro sparing_release(2) [OF _ cl]) (simp add: apart_names)
    ultimately have "sparing F tr tr2" using sparing_trans by blast
    with m pre show "sparing F tr tr2 \<and> apart F ?h2" by (auto simp: apart_def buffer_mrs_def)
  qed
  moreover obtain h3 where w: "put_message (RwlReplicaRequest_encode c
      \<lparr>type_of = (if ret \<noteq> 0 then RWL_REPLICA_FINISHED_FAILED else RWL_REPLICA_FINISHED_SUCCCESSED)\<rparr>) ?h2 = (map_sum id (\<lambda>_. ()) r, h3)"
      "h' = h3 \<and> tr' = tr2 \<or> (\<exists>x. ConnectionHandler_send e No_callback h3 tr2 = (x, h', tr'))"
    using run cl by (auto simp: RPMAHandler_close_def Let_def split: prod.splits sum.splits)
  have "observes F h3 tr2 h' tr'" using w(2) observes_post(1) [of e No_callback h3] observes_same [of h3 h3 F tr2 tr2] by (auto simp: same_resources_def)
  then have "observes F ?h2 tr2 h' tr'" by (rule observes_trans [OF observes_message [OF w(1)]])
  ultimately show ?thesis by (rule observes_trans)
qed

lemma observes_write_request:
  assumes fresh: "alloc_fresh e" "objects_fresh e" and run: "RPMAHandler_get_descriptor_for_write e c junk h tr = (r, h', tr')"
  shows "observes F h tr h' tr'"
proof -
  have init: "observes F h tr (h\<lparr>data_manager := m\<rparr>) t"
    if "MemoryManager_init e sz path (data_manager h) tr = (q, m, t)" for sz path q m t
    using sparing_init [OF fresh(1) _ that, of F] by (auto simp: observes_def apart_def buffer_mrs_def)
  show ?thesis
    using run init observes_trans [OF init observes_register [OF fresh(2)]] observes_register [OF fresh(2)] observes_same [of h h F tr tr]
    by (auto simp: RPMAHandler_get_descriptor_for_write_def same_resources_def Let_def
        split: option.splits prod.splits sum.splits if_splits)
qed

lemma observes_deal_require:
  assumes fresh: "alloc_fresh e" "objects_fresh e" and run: "RPMAHandler_deal_require e c junk h tr = (r, h', tr')"
  shows "observes F h tr h' tr'"
proof -
  obtain r1 h1 tr1 where g: "RPMAHandler_get_descriptor e c junk h tr = (r1, h1, tr1)" by (metis prod_cases3)
  obtain ret h2 tr2 where v: "ConnectionHandler_recv e Deal_require h1 tr1 = (ret, h2, tr2)" by (metis prod_cases3)
  have o1: "observes F h tr h1 tr1"
    using g observes_write_request [OF fresh] observes_close observes_same [of h h F tr tr]
    by (auto simp: RPMAHandler_get_descriptor_def same_resources_def split: option.splits if_splits)
  have "observes F h2 tr2 h2 (tr2 @ [Post (Ev_send (rc_conn (ch_conn h2)) (send_mr h2) 0 msg_len RPMA_F_COMPLETION_ALWAYS None x)])" for x
    by (rule observes_same) (simp_all add: same_resources_def spares_def apart_names)
  then show ?thesis
    using run g v o1 observes_trans [OF observes_trans [OF o1 observes_post(2) [OF v]]]
    by (auto simp: RPMAHandler_deal_require_def env_simps obj_defs split: sum.splits)
qed

subsection \<open>Events\<close>

text \<open>Calls on the handler's own connection and on epoll.\<close>

definition own_call :: "ptr option \<Rightarrow> event \<Rightarrow> bool" where
  "own_call q ev = (case ev of Conn x \<Rightarrow> conn_subject x = q | Poll x \<Rightarrow> True | _ \<Rightarrow> False)"

lemma own_call_simps [simp]: "own_call q (Conn x) = (conn_subject x = q)" "own_call q (Poll y)"
  by (simp_all add: own_call_def)

lemma observes_calls:
  assumes "same_resources h g" and "appends (own_call (rc_conn (ch_conn h))) tr tr'"
  shows "observes F h tr g tr'"
proof (rule observes_same [OF assms(1)])
  assume a: "apart F h"
  show "sparing F tr tr'"
    by (rule appends_mono [OF assms(2)]) (simp add: own_call_def spares_def apart_names [OF a] split: event.splits)
qed

lemma observes_callback:
  assumes fresh: "alloc_fresh e" "objects_fresh e"
    and run: "RpmaOp_do_callback (RPMAHandler_run e c junk) x (h\<lparr>callback_table := B\<rparr>) (tr @ evs) = (q, h2, tr')"
    and calls: "\<forall>ev \<in> set evs. own_call (rc_conn (ch_conn h)) ev"
  shows "observes F h tr h2 tr'"
proof -
  let ?h = "h\<lparr>callback_table := B\<rparr>"
  have "observes F h tr ?h (tr @ evs)" by (rule observes_calls) (simp_all add: same_resources_def calls)
  moreover have "observes F ?h (tr @ evs) h2 tr'"
    using run observes_deal_require [OF fresh] observes_same [of ?h ?h F "tr @ evs" "tr @ evs"]
    by (auto simp: RpmaOp_do_callback_def RPMAHandler_run_def same_resources_def split: if_splits)
  ultimately show ?thesis by (rule observes_trans)
qed

lemma observes_delete [simp]: "observes F h tr (delete_op p h') tr' = observes F h tr h' tr'"
  by (simp add: observes_def apart_def buffer_mrs_def delete_op_def)

lemma observes_completion:
  assumes fresh: "alloc_fresh e" "objects_fresh e"
    and run: "ConnectionHandler_handle_completion e (RPMAHandler_run e c junk) h tr = (r, h', tr')"
  shows "observes F h tr h' tr'"
  using run
  by (auto simp: ConnectionHandler_handle_completion_def env_simps obj_defs Let_def
      split: if_splits option.splits prod.splits dest!: observes_callback [OF fresh, where F = F]
      intro: observes_calls simp: same_resources_def)

lemma observes_connection_event:
  assumes run: "ConnectionHandler_handle_connection_event e (RPMAHandler_remove_self e i) h ro tr = (ret, h', ro', tr')"
  shows "observes F h tr h' tr'"
proof -
  have rm: "appends (own_call q) t t'" if "remove_pair e i g ro t = (x, ro1, t')" for q g t x ro1 t'
    using that by (auto simp: remove_pair_def Reactor_remove_handler_def env_simps Let_def split: option.splits prod.splits if_splits)
  have "appends (own_call (rc_conn (ch_conn h))) tr tr'" "same_resources h h'"
    using run
    by (auto dest!: rm [of _ _ _ _ _ "rc_conn (ch_conn h)"] intro: appends_trans [rotated] simp: ConnectionHandler_handle_connection_event_def RPMAHandler_remove_self_def env_simps obj_defs same_resources_def Let_def
        split: if_splits prod.splits)
  then show ?thesis by (intro observes_calls)
qed

lemma observes_handle:
  assumes "alloc_fresh e" "objects_fresh e" and "RPMAHandler_handle e c junk i et h ro tr = (r, h', ro', tr')"
  shows "observes F h tr h' tr'"
  using assms(3) observes_connection_event observes_completion [OF assms(1,2)] observes_same [of h h F tr tr]
  by (auto simp: RPMAHandler_handle_def ConnectionHandler_handle_def same_resources_def split: if_splits prod.splits)

subsection \<open>Construction and destruction\<close>

lemma sparing_base_destroy:
  assumes "set (buffer_mrs h) \<inter> fp_mrs F = {}" and "set_option (rc_conn (ch_conn h)) \<inter> fp_conns F = {}"
    and "ConnectionHandler_destroy e h tr = (r, h', tr')"
  shows "sparing F tr tr'"
proof -
  let ?tr1 = "unique_delete RpmaMRDeleter (recv_mr h) tr"
  let ?tr2 = "unique_delete RpmaMRDeleter (send_mr h) ?tr1"
  have "set_option (recv_mr h) \<inter> fp_mrs F = {}" "set_option (send_mr h) \<inter> fp_mrs F = {}"
    using assms(1) by (auto simp: buffer_mrs_def)
  then have "sparing F tr ?tr2" using sparing_trans sparing_dereg by blast
  moreover have "sparing F t t'" if "RpmaConn_destroy e (ch_conn h) t = (x', t')" for t x' t'
    using that assms(2) by (auto simp: RpmaConn_destroy_def env_simps spares_def split: option.splits)
  ultimately show ?thesis
    using assms(3) by (auto simp: ConnectionHandler_destroy_def split: if_splits prod.splits intro: sparing_trans)
qed

lemma sparing_destroy:
  assumes a: "apart F h" and run: "RPMAHandler_destroy e h tr = (r, h', tr')"
  shows "sparing F tr tr'"
proof -
  let ?tr1 = "unique_delete RpmaMRDeleter (data_mr h) tr"
  obtain m tr2 where d: "MemoryManager_destroy (data_manager h) ?tr1 = (m, tr2)" by (metis prod.exhaust)
  have "sparing F tr ?tr1" by (rule sparing_dereg) (simp add: apart_names [OF a])
  moreover have "sparing F ?tr1 tr2" using sparing_release(1) [OF _ d] apart_names(5) [OF a] by blast
  moreover have "sparing F tr2 tr'"
    by (rule sparing_base_destroy [of "h\<lparr>data_mr := None, data_manager := m\<rparr>"])
      (use a run d in \<open>auto simp: apart_def buffer_mrs_def RPMAHandler_destroy_def\<close>)
  ultimately show ?thesis using sparing_trans by blast
qed

lemma observes_buffers:
  assumes fresh: "objects_fresh e" and none: "recv_mr h = None" "send_mr h = None"
    and run: "ConnectionHandler_init_send_recv_buffer e h tr = (r, h', tr')"
  shows "observes F h tr h' tr'"
  unfolding observes_def
proof (intro impI)
  assume pre: "survives F tr \<and> apart F h"
  have buffer: "sparing F t (t @ [Mem (Ev_bufferptr n b), Mr (Ev_mr_reg p a l u (ret, mr))]) \<and> set_option mr \<inter> fp_mrs F = {}"
    if "sparing F tr t" "e_mr_reg (mr_of e) (t @ [Mem (Ev_bufferptr n b)]) p a l u = (ret, mr)" "\<not> remote_usage u" for t n b p a l u ret mr
    using objects_freshD(1) [OF fresh that(2)] sparing_survives [OF conjunct1 [OF pre] that(1)] that(3)
    by (auto simp: spares_def survives_def split: if_splits)
  obtain a bl where b1: "e_bufferptr (mem_of e) tr MSG_SIZE = (a, bl)" by (metis prod.exhaust)
  let ?ev1 = "Mem (Ev_bufferptr MSG_SIZE (a, bl))"
  obtain ret mr where m1: "e_mr_reg (mr_of e) (tr @ [?ev1]) (ch_peer h) (Some a) msg_len RPMA_MR_USAGE_RECV = (ret, mr)"
    by (metis prod.exhaust)
  let ?tr2 = "tr @ [?ev1, Mr (Ev_mr_reg (ch_peer h) (Some a) msg_len RPMA_MR_USAGE_RECV (ret, mr))]"
  note s1 = buffer [OF appends_refl m1]
  obtain a2 bl2 where b2: "e_bufferptr (mem_of e) ?tr2 MSG_SIZE = (a2, bl2)" by (metis prod.exhaust)
  let ?ev2 = "Mem (Ev_bufferptr MSG_SIZE (a2, bl2))"
  obtain ret2 mr2 where m2: "e_mr_reg (mr_of e) (?tr2 @ [?ev2]) (ch_peer h) (Some a2) msg_len RPMA_MR_USAGE_SEND = (ret2, mr2)"
    by (metis prod.exhaust)
  let ?tr4 = "?tr2 @ [?ev2, Mr (Ev_mr_reg (ch_peer h) (Some a2) msg_len RPMA_MR_USAGE_SEND (ret2, mr2))]"
  note s2 = buffer [OF conjunct1 [OF s1] m2]
  have "sparing F tr ?tr4" using s1 s2 sparing_trans by (simp only: remote_usages not_False_eq_True simp_thms) blast
  with run none pre b1 m1 b2 m2 s1 s2 show "sparing F tr tr' \<and> apart F h'"
    by (auto simp: ConnectionHandler_init_send_recv_buffer_def env_simps apart_def buffer_mrs_def Let_def opt_list_def
        split: if_splits option.splits)
qed

lemma observes_conn_fd:
  assumes "ConnectionHandler_init_conn_fd e h tr = (r, h', tr')"
  shows "observes F h tr h' tr'"
  by (rule observes_calls)
    (use assms in \<open>auto simp: ConnectionHandler_init_conn_fd_def same_resources_def env_simps obj_defs Let_def
       split: prod.splits if_splits option.splits\<close>)

text \<open>A new connection is apart from all that was there, and so was one whose constructor throws.\<close>

definition new_apart :: "footprint \<Rightarrow> trace \<Rightarrow> RPMAHandler result \<times> trace \<Rightarrow> bool" where
  "new_apart F tr x \<longleftrightarrow> sparing F tr (snd x) \<and> (\<forall>h. fst x = Inr h \<longrightarrow> apart F h)"

lemma throw_apart: "apart F h \<Longrightarrow> sparing F tr0 tr \<Longrightarrow> new_apart F tr0 (ctor_throw e f h tr)"
  using sparing_destroy [of F h e tr] sparing_trans
  by (fastforce simp: new_apart_def ctor_throw_def split: prod.splits)

lemma new_handler_apart:
  assumes fresh: "objects_fresh e" and cov: "survives F tr0"
  shows "new_apart F tr0 (RPMAHandler_new e j1 j2 jsz peer ep tr0)"
proof -
  let ?h0 = "(RPMAHandler_default j1 j2 jsz)\<lparr>ch_peer := peer\<rparr>"
  obtain r1 h1 tr1 where b: "ConnectionHandler_init_send_recv_buffer e ?h0 tr0 = (r1, h1, tr1)" by (metis prod_cases3)
  obtain ret req tr2 where q: "rpma_ep_next_conn_req e ep tr1 = ((ret, req), tr2)" by (metis prod.exhaust)
  obtain p h2 where n: "new_op RpmaReqRecv Deal_require h1 = (p, h2)" by (metis prod.exhaust)
  obtain ret2 tr3 where v: "RpmaReqRecv_call e req (recv_mr h2) 0 msg_len (Some p) tr2 = (ret2, tr3)" by (metis prod.exhaust)
  obtain ret3 req2 conn tr4 where k: "rpma_conn_req_connect e req tr3 = ((ret3, req2, conn), tr4)" by (metis prod.exhaust)
  let ?h3 = "settle_op p ret2 h2"
  let ?h4 = "?h3\<lparr>ch_conn := RpmaConn_reset conn (ch_conn ?h3)\<rparr>"
  obtain r5 h5 tr5 where f: "ConnectionHandler_init_conn_fd e ?h4 tr4 = (r5, h5, tr5)" by (metis prod_cases3)
  have h0: "apart F ?h0" "recv_mr ?h0 = None" "send_mr ?h0 = None"
    by (simp_all add: apart_def buffer_mrs_def RPMAHandler_default_def ConnectionHandler.extend_def ConnectionHandler_new_def
        MemoryManager_default_def RpmaConn_default_def)
  then have s1: "sparing F tr0 tr1" "apart F h1" using observes_buffers [OF fresh h0(2,3) b, of F] cov by (simp_all add: observes_def)
  have h3: "apart F ?h3" "recv_mr h2 = recv_mr h1"
    using s1(2) n by (auto simp: apart_def buffer_mrs_def new_op_def settle_op_def delete_op_def)
  have s2: "sparing F tr0 tr2" using sparing_snoc [OF s1(1)] q by (auto simp: env_simps spares_def)
  have s3: "sparing F tr0 tr3"
    using sparing_snoc [OF s2] v h3(2) apart_names(2) [OF s1(2)] by (auto simp: env_simps obj_defs spares_def)
  have conn: "set_option conn \<inter> fp_conns F = {}"
    using k objects_freshD(2) [OF fresh, of tr3 req ret3 req2 conn] sparing_survives [OF cov s3]
    by (auto simp: env_simps survives_def split: if_splits)
  then have s4: "sparing F tr0 tr4" using sparing_snoc [OF s3] k by (auto simp: env_simps spares_def)
  have "apart F ?h4" using h3(1) conn by (simp add: apart_def buffer_mrs_def RpmaConn_reset_def)
  then have s5: "sparing F tr0 tr5" "apart F h5"
    using observes_conn_fd [OF f, of F] sparing_survives [OF cov s4] sparing_trans [OF s4] by (simp_all add: observes_def)
  have "new_apart F tr0 (case r5 of Inl f \<Rightarrow> ctor_throw e f h5 tr5 | Inr _ \<Rightarrow> (Inr h5, tr5))"
    using s5 throw_apart [OF s5(2,1)] by (cases r5) (simp_all, simp add: new_apart_def)
  then show ?thesis
    using s1 s2 s3 s4 h3 v k f sparing_snoc
    by (cases r1; cases "ret2 = 0"; cases "ret3 = 0")
      (simp_all add: RPMAHandler_new_def b q n Let_def throw_apart log_event_def sparing_snoc spares_def)
qed

subsection \<open>Every dispatched event\<close>

text \<open>What belongs to one connection.\<close>

definition belongings :: "RPMAHandler \<Rightarrow> footprint" where
  "belongings g = \<lparr>fp_blocks = mm_gain (data_manager g) Map.empty,
     fp_mrs = set (opt_list (data_mr g) @ buffer_mrs g), fp_conns = set_option (rc_conn (ch_conn g))\<rparr>"

definition within :: "footprint \<Rightarrow> footprint \<Rightarrow> bool" where
  "within G F \<longleftrightarrow> fp_blocks G \<subseteq>\<^sub>m fp_blocks F \<and> fp_mrs G \<subseteq> fp_mrs F \<and> fp_conns G \<subseteq> fp_conns F"

lemma sparing_within:
  assumes "within G F" and "sparing F tr tr'"
  shows "sparing G tr tr'"
proof -
  have "dom (fp_blocks G) \<subseteq> dom (fp_blocks F)" using assms(1) by (simp add: within_def map_le_implies_dom_le)
  with assms(1) have "spares G ev" if "spares F ev" for ev
    using that unfolding within_def spares_def by blast
  with assms(2) show ?thesis by (rule appends_mono)
qed

lemma holdings_within: "holdings B H F \<Longrightarrow> H j = Some g \<Longrightarrow> within (belongings g) F"
proof -
  assume "holdings B H F" "H j = Some g"
  then obtain F' where "held_by F' g F" using holdings_take by blast
  then show ?thesis by (auto simp: held_by_def within_def belongings_def mm_gain_def map_le_def split: option.splits)
qed

lemma within_survives: "within G (footprint tr) = survives G tr"
  by (simp add: within_def survives_def)

lemma sparing_release_handler:
  assumes "\<forall>h. sv_handlers s i = Some h \<longrightarrow> apart F h" and "release_handler e i s tr = (s', tr')"
  shows "sparing F tr tr'"
  using assms sparing_destroy by (auto simp: release_handler_def split: if_splits option.splits prod.splits)

lemma event_spares:
  assumes fresh: "alloc_fresh e" "objects_fresh e" and hold: "holdings B (sv_handlers s) (footprint tr)"
    and i: "i \<noteq> 0" and h: "sv_handlers s i = Some h" and run: "server_dispatch e c w i et s tr = (x, s', tr')"
  obtains F where "holdings B ((sv_handlers s)(i := None)) F" and "sparing F tr tr'"
proof -
  obtain F where F: "holdings B ((sv_handlers s)(i := None)) F" "held_by F h (footprint tr)" using holdings_take [OF hold h] by blast
  have cov: "survives F tr" "apart F h"
    using F(2) by (auto simp: held_by_def survives_def apart_def map_le_def mm_gain_def split: option.splits)
  let ?h0 = "case w_recv w tr i of None \<Rightarrow> h | Some msg \<Rightarrow> h\<lparr>recv_bl := msg\<rparr>"
  have "apart F ?h0" using cov(2) apart_same [of h ?h0] by (simp add: same_resources_def split: option.splits)
  moreover obtain y h1 ro tr1 where g: "RPMAHandler_handle e c (sj_pcfg (w_junk w tr)) i et ?h0 (Some (sv_reactor s)) tr = (y, h1, ro, tr1)"
    by (metis prod.exhaust)
  ultimately have o: "sparing F tr tr1" "apart F h1" using observes_handle [OF fresh g, of F] cov(1) by (simp_all add: observes_def)
  let ?s = "s\<lparr>sv_reactor := case ro of None \<Rightarrow> sv_reactor s | Some r \<Rightarrow> r, sv_handlers := (sv_handlers s)(i \<mapsto> h1)\<rparr>"
  obtain s2 tr2 where rel: "release_handler e i ?s tr1 = (s2, tr2)" by (metis prod.exhaust)
  have "tr' = tr2" using run i h g rel by (simp add: server_dispatch_def Let_def)
  with sparing_trans [OF o(1) sparing_release_handler [OF _ rel]] o(2) that [OF F(1)] show ?thesis by simp
qed

lemma sparing_reactor:
  "Reactor_register_handler e gh i et r tr = (ret, r', tr') \<Longrightarrow> sparing F tr tr'"
  "Reactor_remove_handler e gh i et r tr = (ret, r', tr') \<Longrightarrow> sparing F tr tr'"
  by (auto simp: reactor_defs env_simps spares_def Let_def split: if_splits prod.splits option.splits)

lemma sparing_register: "register_pair e i h ro tr = (ret, ro', tr') \<Longrightarrow> sparing F tr tr'"
  by (auto simp: register_pair_def Let_def split: if_splits prod.splits option.splits
      dest!: sparing_reactor [where F = F] intro: sparing_trans)

lemma accept_spares:
  assumes fresh: "objects_fresh e" and run: "AcceptorHandler_handle e w et s tr = (x, s', tr')"
  shows "sparing (footprint tr) tr tr'"
proof -
  let ?F = "footprint tr" and ?j = "w_junk w tr" and ?a = "sv_acceptor s" and ?i = "sv_next s"
  obtain y tr1 where n: "RPMAHandler_new e (sj_conn_fd ?j) (sj_comp_fd ?j) (sj_size ?j) (ac_peer ?a) (ac_ep ?a) tr = (y, tr1)"
    by (metis prod.exhaust)
  have "survives ?F tr" by (simp add: survives_def)
  then have "new_apart ?F tr (y, tr1)" using new_handler_apart [OF fresh] n by metis
  then have new: "sparing ?F tr tr1" "y = Inr h \<Longrightarrow> apart ?F h" for h by (simp_all add: new_apart_def)
  show ?thesis
  proof (cases y)
    case (Inl f)
    with new(1) run n show ?thesis by (auto simp: AcceptorHandler_handle_def split: if_splits failure.splits)
  next
    case (Inr h)
    obtain ret ro tr2 where g: "register_pair e ?i h (Some (sv_reactor s)) tr1 = (ret, ro, tr2)" by (metis prod_cases3)
    let ?s = "s\<lparr>sv_reactor := case ro of None \<Rightarrow> sv_reactor s | Some r \<Rightarrow> r, sv_handlers := (sv_handlers s)(?i \<mapsto> h), sv_next := Suc ?i\<rparr>"
    obtain s3 tr3 where rel: "release_handler e ?i ?s tr2 = (s3, tr3)" by (metis prod.exhaust)
    have "sparing ?F tr2 tr3" by (rule sparing_release_handler [OF _ rel]) (use new(2) [OF Inr] in simp)
    then have "sparing ?F tr tr3" using sparing_trans [OF new(1) sparing_register [OF g]] sparing_trans by blast
    with run n Inr g rel show ?thesis
      by (auto simp: AcceptorHandler_handle_def RPMAHandler_register_self_def Let_def split: if_splits)
  qed
qed

text \<open>The record of another connection is not written.\<close>

lemma dispatch_others:
  assumes "server_dispatch e c w i et s tr = (x, s', tr')" and "j \<noteq> i" and "j < sv_next s"
  shows "sv_handlers s' j = sv_handlers s j"
proof -
  have rel: "sv_handlers s2 j = sv_handlers s1 j" if "release_handler e k s1 t = (s2, t')" "j \<noteq> k" for k s1 t s2 t'
    using release_outcome [OF that(1)] that(2) by simp
  show ?thesis
    using assms
    by (auto simp: server_dispatch_def AcceptorHandler_handle_def Let_def
        split: if_splits option.splits prod.splits sum.splits failure.splits dest!: rel)
qed

lemma dispatch_keeps_entries:
  assumes env: "epoll_ok e" "conn_fds_fresh e" "alloc_fresh e" "objects_fresh e" and hold: "server_holds B s tr"
    and view: "reactor_view (sv_reactor s) fd = Some (et, i)" and run: "server_dispatch e c w i et s tr = (x, s', tr')"
    and g: "sv_handlers s j = Some g" "j \<noteq> i"
  shows "handler_ok j g (sv_reactor s')"
proof -
  have ok: "server_ok s tr" and H: "holdings B (sv_handlers s) (footprint tr)" using hold by (simp_all add: server_holds_def)
  have j: "j < sv_next s" "handler_ok j g (sv_reactor s)" using server_okD(4) [OF ok g(1)] by simp_all
  show ?thesis
  proof (cases x)
    case (Inr v)
    have "server_ok s' tr'" by (rule dispatch_ok [OF env(1,2) ok view run [unfolded Inr]])
    moreover have "sv_handlers s' j = Some g" using dispatch_others [OF run g(2) j(1)] g(1) by simp
    ultimately show ?thesis using server_okD(4) by blast
  next
    case (Inl f)
    have "i \<noteq> 0"
    proof
      assume "i = 0"
      then have "et = ACCEPT_EVENT" and "AcceptorHandler_handle e w et s tr = (Inl f, s', tr')"
        using view server_okD(2) [OF ok] run Inl by (simp_all add: server_dispatch_def)
      with accept_no_failure [OF env(2), of w s tr] show False by simp
    qed
    then obtain h where "sv_handlers s i = Some h" using server_okD(3) [OF ok view] by blast
    from event_holdings(2) [OF env(3,4) ok H this run Inl] j(2) show ?thesis by simp
  qed
qed

lemma dispatch_spares:
  assumes fresh: "alloc_fresh e" "objects_fresh e" and hold: "server_holds B s tr"
    and view: "reactor_view (sv_reactor s) fd = Some (et, i)" and run: "server_dispatch e c w i et s tr = (x, s', tr')"
    and g: "sv_handlers s j = Some g" "j \<noteq> i"
  shows "sparing (belongings g) tr tr'"
proof -
  have ok: "server_ok s tr" and H: "holdings B (sv_handlers s) (footprint tr)" using hold by (simp_all add: server_holds_def)
  show ?thesis
  proof (cases "i = 0")
    case True
    then have "sparing (footprint tr) tr tr'" using run accept_spares [OF fresh(2)] by (simp add: server_dispatch_def)
    then show ?thesis by (rule sparing_within [OF holdings_within [OF H g(1)]])
  next
    case False
    then obtain h where "sv_handlers s i = Some h" using server_okD(3) [OF ok view] by blast
    then obtain F where F: "holdings B ((sv_handlers s)(i := None)) F" "sparing F tr tr'"
      using event_spares [OF fresh H False _ run] by blast
    have "((sv_handlers s)(i := None)) j = Some g" using g by simp
    from sparing_within [OF holdings_within [OF F(1) this] F(2)] show ?thesis .
  qed
qed

subsection \<open>Properties\<close>


text \<open>Two clients: the first has been given a region, the second sends its init request.\<close>

definition client_end :: "nat \<Rightarrow> RPMAHandler" where
  "client_end k = (waiting_server demo_init_msg)\<lparr>conn_fd := 9 + 2 * int k, comp_fd := 10 + 2 * int k,
     recv_mr := Some (2 * k), send_mr := Some (2 * k + 1), ch_conn := RpmaConn_new (Some k),
     op_heap := [0 \<mapsto> \<lparr>op_class = RpmaReqRecv, func = Deal_require\<rparr>], callback_table := {0}, op_next := 1\<rparr>"

definition first_client :: RPMAHandler where
  "first_client = (client_end 1)\<lparr>data_manager := (MemoryManager_default 64)\<lparr>mm_data := Some 100\<rparr>, data_mr := Some 20\<rparr>"

definition two_clients :: server where
  "two_clients = (listening 10)\<lparr>
     sv_reactor := \<lparr>epoll = 3, event_table = [
       (11, \<lparr>eh_node = 1, eh_type = CONNECTION_EVENT, eh_handler = 1\<rparr>), (12, \<lparr>eh_node = 2, eh_type = COMPLETION_EVENT, eh_handler = 1\<rparr>),
       (13, \<lparr>eh_node = 3, eh_type = CONNECTION_EVENT, eh_handler = 2\<rparr>), (14, \<lparr>eh_node = 4, eh_type = COMPLETION_EVENT, eh_handler = 2\<rparr>)],
       next_node = 5\<rparr>,
     sv_handlers := [1 \<mapsto> first_client, 2 \<mapsto> client_end 2], sv_next := 3\<rparr>"

definition two_clients_trace :: trace where
  "two_clients_trace = map (\<lambda>m. Mr (Ev_mr_reg (Some 1) (Some (m + 200)) msg_len RPMA_MR_USAGE_RECV (0, Some m))) [2, 3, 4, 5] @
     map (\<lambda>q. Setup (Ev_conn_req_connect (Some q) (0, None, Some q))) [1, 2] @
     map (\<lambda>k. Poll (Ev_epoll_add (10 + int k) k (0, 0))) [1, 2, 3, 4] @
     [Mem (Ev_malloc 64 (Some 100)), Mr (Ev_mr_reg (Some 1) (Some 100) 64 (mr_usage RPMA_OP_FLUSH False) (0, Some 20))]"

lemma client_end_simps [simp]:
  "conn_fd (client_end k) = 9 + 2 * int k" "comp_fd (client_end k) = 10 + 2 * int k" "rc_conn (ch_conn (client_end k)) = Some k"
  "recv_mr (client_end k) = Some (2 * k)" "send_mr (client_end k) = Some (2 * k + 1)" "data_mr (client_end k) = None"
  "mm_data (data_manager (client_end k)) = None" "ops_inv {} (client_end k)"
  by (simp_all add: client_end_def RpmaConn_new_def ops_inv_def)

lemma first_client_simps [simp]:
  "conn_fd first_client = 11" "comp_fd first_client = 12" "rc_conn (ch_conn first_client) = Some 1"
  "recv_mr first_client = Some 2" "send_mr first_client = Some 3" "data_mr first_client = Some 20"
  "data_manager first_client = (MemoryManager_default 64)\<lparr>mm_data := Some 100\<rparr>" "ops_inv {} first_client"
  using client_end_simps [of 1] by (simp_all add: first_client_def)

lemma two_clients_alive:
  "live_blocks two_clients_trace = [100 \<mapsto> Heap 64]" "live_mrs two_clients_trace = {2, 3, 4, 5, 20}"
  "live_conns two_clients_trace = {1, 2}" "interest two_clients_trace = [11 \<mapsto> 1, 12 \<mapsto> 2, 13 \<mapsto> 3, 14 \<mapsto> 4]"
  "(20, 100) \<in> exposed two_clients_trace"
  by (auto simp: two_clients_trace_def live_blocks_def live_mrs_def live_conns_def interest_def exposed_def)

lemma two_clients_hold: "server_holds (footprint []) two_clients two_clients_trace"
proof -
  have "server_ok two_clients two_clients_trace"
    by (intro server_okI)
      (auto simp: two_clients_def reactor_inv_def reactor_view_def entry_ok_def handler_ok_def two_clients_alive split: if_splits)
  moreover have "holdings (footprint []) [1 \<mapsto> first_client, 2 \<mapsto> client_end 2] (footprint two_clients_trace)"
  proof (rule holdings.another)
    show "holdings (footprint []) [1 \<mapsto> first_client] \<lparr>fp_blocks = [100 \<mapsto> Heap 64], fp_mrs = {2, 3, 20}, fp_conns = {1}\<rparr>"
      by (rule holdings.another [OF holdings.nothing])
        (auto simp: held_by_def mm_gain_def mm_block_def MemoryManager_default_def buffer_mrs_def live_blocks_def live_mrs_def live_conns_def)
  qed (auto simp: held_by_def mm_gain_def buffer_mrs_def two_clients_alive)
  ultimately show ?thesis by (simp add: server_holds_def two_clients_def)
qed


end
