(* ===== verification/Server_Region.thy ===== *)
theory Server_Region
  imports Server_Isolation
begin

text \<open>
  The contract a client relies on: the region of a connection as an abstract machine, refined by
  the handler and kept by the whole server until the client gives the region up or leaves.
\<close>

subsection \<open>The abstract machine\<close>

datatype request = Init_request u64 | Finish_request | Other_request

text \<open>No region; memory without a registered region; a region the client may write to.\<close>

datatype replica = Idle | Reserved addr u64 | Offered addr u64 ptr

inductive replica_step :: "request \<Rightarrow> replica \<Rightarrow> replica \<Rightarrow> bool" where
  exhausted: "replica_step (Init_request n) Idle Idle"
| reserve: "replica_step (Init_request n) Idle (Reserved a n)"
| first_offer: "replica_step (Init_request n) Idle (Offered a n m)"
| refuse: "replica_step (Init_request n) (Reserved a k) (Reserved a k)"
| late_offer: "replica_step (Init_request n) (Reserved a k) (Offered a k m)"
| renew: "replica_step (Init_request n) (Offered a k m) (Offered a k m')"
| finish: "replica_step Finish_request s Idle"
| ignore: "replica_step Other_request s s"

inductive_cases replica_stepE: "replica_step q s s'"

text \<open>The memory and the size that were offered stay, whatever else is asked for.\<close>

lemma offer_stays: "replica_step q (Offered a n m) s \<Longrightarrow> q \<noteq> Finish_request \<Longrightarrow> \<exists>m'. s = Offered a n m'"
  by (erule replica_stepE) auto

subsection \<open>What a handler refines\<close>

definition request_of :: "ceph_codec \<Rightarrow> bytes \<Rightarrow> request" where
  "request_of c bl =
     (case RwlReplicaRequest_decode c bl of
        None \<Rightarrow> Other_request
      | Some (r, _) \<Rightarrow>
          if type_of r = RWL_REPLICA_INIT_REQUEST
          then (case RwlReplicaInitRequest_decode c bl of
                  None \<Rightarrow> Other_request
                | Some (i, _) \<Rightarrow> Init_request (cache_size (info i)))
          else if type_of r = RWL_REPLICA_FINISHED_REQUEST then Finish_request
          else Other_request)"

definition replica_of :: "RPMAHandler \<Rightarrow> replica" where
  "replica_of h =
     (case mm_data (data_manager h) of
        None \<Rightarrow> Idle
      | Some a \<Rightarrow> (case data_mr h of
                    None \<Rightarrow> Reserved a (mm_size (data_manager h))
                  | Some m \<Rightarrow> Offered a (mm_size (data_manager h)) m))"

text \<open>A region the handler holds covers its memory and is open to the client.\<close>

definition offers :: "RPMAHandler \<Rightarrow> trace \<Rightarrow> bool" where
  "offers h tr \<longleftrightarrow> (\<forall>m. data_mr h = Some m \<longrightarrow> (\<exists>a. mm_data (data_manager h) = Some a \<and> (m, a) \<in> exposed tr))"

lemma replica_same: "same_resources h h' \<Longrightarrow> replica_of h' = replica_of h"
  by (simp add: replica_of_def same_resources_def split: option.split)

lemma offers_quiet: "offers h tr \<Longrightarrow> same_resources h h' \<Longrightarrow> quiet tr tr' \<Longrightarrow> offers h' tr'"
  using exposure_quiet by (simp add: offers_def same_resources_def)

lemma region_register:
  assumes fresh: "objects_fresh e" and inv: "session_inv F h tr" and off: "offers h tr" and a: "mm_data (data_manager h) = Some a"
    and run: "RPMAHandler_register_mr_to_descriptor e c junk RPMA_OP_FLUSH h tr = (r, h', tr')"
  shows "offers h' tr' \<and> (replica_of h' = replica_of h \<or> (\<exists>m. replica_of h' = Offered a (mm_size (data_manager h)) m))"
proof -
  let ?m = "data_manager h"
  let ?u = "mr_usage RPMA_OP_FLUSH (mm_is_pmem ?m)"
  obtain ret mr where reg: "e_mr_reg (mr_of e) tr (ch_peer h) (mm_data ?m) (mm_size ?m) ?u = (ret, mr)" by (metis prod.exhaust)
  let ?ev = "Mr (Ev_mr_reg (ch_peer h) (mm_data ?m) (mm_size ?m) ?u (ret, mr))"
  let ?tr2 = "unique_delete RpmaMRDeleter (data_mr h) (tr @ [?ev])"
  show ?thesis
  proof (cases "ret = 0")
    case False
    then have "mr = None" using objects_freshD(1) [OF fresh reg] by simp
    with False run reg have "h' = h" "tr' = tr @ [?ev]" and "exposed (tr @ [?ev]) = exposed tr"
      by (auto simp: RPMAHandler_register_mr_to_descriptor_def MemoryManager_get_pointer_def env_simps Let_def)
    with off show ?thesis by (simp add: offers_def)
  next
    case True
    then obtain x where x: "mr = Some x" "x \<notin> live_mrs tr" using objects_freshD(1) [OF fresh reg] by auto
    then have "data_mr h \<noteq> Some x" using inv by (auto simp: session_inv_def holds_mrs_def)
    then have "offers (h\<lparr>data_mr := mr\<rparr>) ?tr2" using x(1) a unfolding offers_def exposed_delete(1) by simp
    moreover obtain d tr3 where b: "build_descriptor e junk RPMA_OP_FLUSH (mm_is_pmem ?m) mr ?tr2 = (d, tr3)" by (metis prod.exhaust)
    moreover have "same_resources (h\<lparr>data_mr := mr\<rparr>) h' \<and> tr' = tr3"
      using True run reg b
      by (auto simp: RPMAHandler_register_mr_to_descriptor_def MemoryManager_get_pointer_def env_simps Let_def same_resources_def
          split: prod.splits sum.splits dest!: same_put_message)
    ultimately have "offers h' tr'" "replica_of h' = replica_of (h\<lparr>data_mr := mr\<rparr>)"
      using offers_quiet quiet_build_descriptor replica_same by blast+
    then show ?thesis using x(1) a by (simp add: replica_of_def)
  qed
qed

lemma region_close:
  assumes run: "RPMAHandler_close e c h tr = (r, h', tr')"
  shows "offers h' tr' \<and> replica_of h' = Idle"
proof -
  let ?tr1 = "unique_delete RpmaMRDeleter (data_mr h) tr"
  obtain ret m tr2 where cl: "MemoryManager_close_and_remove e (data_manager h) ?tr1 = (ret, m, tr2)" by (metis prod_cases3)
  let ?h2 = "h\<lparr>data_mr := None, data_manager := m\<rparr>"
  have "mm_data m = None" using close_and_remove_clears [OF cl] by simp
  moreover have "same_resources ?h2 h'"
    using run cl
    by (auto simp: RPMAHandler_close_def Let_def same_resources_def split: prod.splits sum.splits dest!: same_put_message same_send)
  ultimately show ?thesis by (simp add: offers_def replica_of_def same_resources_def)
qed

lemma region_write_request:
  assumes fresh: "alloc_fresh e" "objects_fresh e" and inv: "session_inv F h tr" and off: "offers h tr"
    and run: "RPMAHandler_get_descriptor_for_write e c junk h tr = (r, h', tr')"
    and dec: "RwlReplicaInitRequest_decode c (recv_bl h) = Some (i, rest)"
  shows "offers h' tr' \<and> replica_step (Init_request (cache_size (info i))) (replica_of h) (replica_of h')"
proof (cases "mm_data (data_manager h)")
  case (Some a)
  with run dec have "RPMAHandler_register_mr_to_descriptor e c junk RPMA_OP_FLUSH h tr = (r, h', tr')"
    by (simp add: RPMAHandler_get_descriptor_for_write_def MemoryManager_get_pointer_def Let_def)
  from region_register [OF fresh(2) inv off Some this] Some show ?thesis
    by (auto simp: replica_of_def split: option.splits intro: replica_step.intros)
next
  case None
  then have none: "data_mr h = None" using off by (auto simp: offers_def)
  obtain q m tr1 where m: "MemoryManager_init e (cache_size (info i)) (replica_path (info i)) (data_manager h) tr = (q, m, tr1)"
    by (metis prod_cases3)
  note acq = acquire_outcome [OF fresh(1) _ m [unfolded MemoryManager_init_def], simplified, OF None]
  let ?h1 = "h\<lparr>data_manager := m\<rparr>"
  have h1: "session_inv F ?h1 tr1" "offers ?h1 tr1"
    using session_init [OF fresh(1) inv None m] none by (simp_all add: offers_def)
  show ?thesis
  proof (cases q)
    case (Inl f)
    then have "h' = ?h1" "tr' = tr1" "mm_data m = None"
      using run dec None m acq
      by (simp_all add: RPMAHandler_get_descriptor_for_write_def MemoryManager_get_pointer_def Let_def)
    with h1(2) None show ?thesis by (simp add: replica_of_def replica_step.exhausted)
  next
    case (Inr u)
    then obtain a where a: "mm_data m = Some a" "mm_size m = cache_size (info i)" using acq by auto
    have "RPMAHandler_register_mr_to_descriptor e c junk RPMA_OP_FLUSH ?h1 tr1 = (r, h', tr')"
      using run dec None m Inr by (simp add: RPMAHandler_get_descriptor_for_write_def MemoryManager_get_pointer_def Let_def)
    from region_register [OF fresh(2) h1 _ this, of a] a None none show ?thesis
      by (auto simp: replica_of_def intro: replica_step.intros)
  qed
qed

lemma region_request:
  assumes fresh: "alloc_fresh e" "objects_fresh e" and inv: "session_inv F h tr" and off: "offers h tr"
    and run: "RPMAHandler_get_descriptor e c junk h tr = (r, h', tr')"
  shows "offers h' tr' \<and> replica_step (request_of c (recv_bl h)) (replica_of h) (replica_of h')"
  using run off region_write_request [OF fresh inv off] region_close
  by (auto simp: RPMAHandler_get_descriptor_def RPMAHandler_get_descriptor_for_write_def request_of_def
      split: option.splits if_splits intro: replica_step.intros)

lemma region_deal_require:
  assumes fresh: "alloc_fresh e" "objects_fresh e" and inv: "session_inv F h tr" and off: "offers h tr"
    and run: "RPMAHandler_deal_require e c junk h tr = (r, h', tr')"
  shows "offers h' tr' \<and> replica_step (request_of c (recv_bl h)) (replica_of h) (replica_of h')"
proof -
  obtain r1 h1 tr1 where g: "RPMAHandler_get_descriptor e c junk h tr = (r1, h1, tr1)" by (metis prod_cases3)
  note req = region_request [OF fresh inv off g]
  obtain ret h2 tr2 where v: "ConnectionHandler_recv e Deal_require h1 tr1 = (ret, h2, tr2)" by (metis prod_cases3)
  have "same_resources h1 h' \<and> quiet tr1 tr'"
    using run g v same_recv [OF v] quiet_recv [OF v]
    by (auto simp: RPMAHandler_deal_require_def env_simps same_resources_def split: sum.splits intro: quiet_snoc)
  then show ?thesis using req offers_quiet replica_same by metis
qed

text \<open>The events that change resources: a completed receive, whose request is dealt with.\<close>

lemma handle_inversion:
  assumes run: "RPMAHandler_handle e c junk i et h ro tr = (r, h', ro', tr')"
  obtains (still) "same_resources h h'" "quiet tr tr'"
  | (request) B evs q h2 p where "et = COMPLETION_EVENT" "\<forall>ev \<in> set evs. quiet_event ev"
      "RPMAHandler_deal_require e c junk (h\<lparr>callback_table := B\<rparr>) (tr @ evs) = (q, h2, tr')" "h' = delete_op p h2"
proof -
  define outcome where "outcome g t \<longleftrightarrow> same_resources h g \<and> quiet tr t \<or>
      (\<exists>B evs q h2 p. (\<forall>ev \<in> set evs. quiet_event ev) \<and> g = delete_op p h2 \<and>
         RPMAHandler_deal_require e c junk (h\<lparr>callback_table := B\<rparr>) (tr @ evs) = (q, h2, t))" for g t
  have cb: "\<forall>p. outcome (delete_op p h2) t"
    if "RpmaOp_do_callback (RPMAHandler_run e c junk) x (h\<lparr>callback_table := B\<rparr>) (tr @ evs) = (q, h2, t)" "\<forall>ev \<in> set evs. quiet_event ev"
    for x B evs q h2 t
  proof -
    have "outcome (delete_op p h2) t" if "RPMAHandler_deal_require e c junk (h\<lparr>callback_table := B\<rparr>) (tr @ evs) = (q, h2, t)" for p
      using that \<open>\<forall>ev \<in> set evs. quiet_event ev\<close> unfolding outcome_def by blast
    moreover have "outcome (delete_op p (h\<lparr>callback_table := B\<rparr>)) (tr @ evs)" for p
      using that(2) by (simp add: outcome_def same_resources_def delete_op_def)
    ultimately show ?thesis using that(1) by (auto simp: RpmaOp_do_callback_def RPMAHandler_run_def split: if_splits)
  qed
  have same: "outcome g (tr @ evs)" if "same_resources h g" "\<forall>ev \<in> set evs. quiet_event ev" for g evs
    using that by (simp add: outcome_def)
  have "outcome h' tr'" if "ConnectionHandler_handle_completion e (RPMAHandler_run e c junk) h tr = (r, h', tr')"
    using that
    by (auto simp: ConnectionHandler_handle_completion_def env_simps obj_defs Let_def
        split: if_splits option.splits prod.splits dest!: cb simp: same same_resources_def)
  moreover have "same_resources h h' \<and> quiet tr tr'" if "et \<noteq> COMPLETION_EVENT"
    using run that
    by (auto simp: RPMAHandler_handle_def ConnectionHandler_handle_def same_resources_def
        ConnectionHandler_handle_connection_event_def RPMAHandler_remove_self_def env_simps obj_defs Let_def
        split: prod.splits if_splits dest!: quiet_remove_pair intro: quiet_trans [rotated])
  ultimately show ?thesis
    using run still request
    by (cases "et = COMPLETION_EVENT") (auto simp: outcome_def RPMAHandler_handle_def ConnectionHandler_handle_def split: prod.splits)
qed

lemma region_handle:
  assumes fresh: "alloc_fresh e" "objects_fresh e" and inv: "session_inv F h tr" and off: "offers h tr"
    and run: "RPMAHandler_handle e c junk i et h ro tr = (r, h', ro', tr')"
  shows "offers h' tr' \<and>
    (replica_of h' = replica_of h \<or> et = COMPLETION_EVENT \<and> replica_step (request_of c (recv_bl h)) (replica_of h) (replica_of h'))"
  using run
proof (cases rule: handle_inversion)
  case still
  then show ?thesis using offers_quiet [OF off] replica_same by blast
next
  case (request B evs q h2 p)
  let ?h = "h\<lparr>callback_table := B\<rparr>"
  have s: "same_resources h ?h" "quiet tr (tr @ evs)" using request(2) by (simp_all add: same_resources_def)
  note step = region_deal_require [OF fresh session_inv_quiet [OF inv s] offers_quiet [OF off s] request(3)]
  have h': "same_resources h2 h'" using request(4) by (simp add: same_resources_def delete_op_def)
  have "offers h' tr'" using offers_quiet [OF _ h' quiet_refl] step by blast
  then show ?thesis using step request(1) replica_same [OF s(1)] replica_same [OF h'] by simp
qed

subsection \<open>The receive buffer\<close>

text \<open>Handling an event reads the receive buffer and does not write it.\<close>

lemma buffer_post:
  "ConnectionHandler_send e cb h tr = (ret, h', tr') \<Longrightarrow> recv_bl h' = recv_bl h"
  "ConnectionHandler_recv e cb h tr = (ret, h', tr') \<Longrightarrow> recv_bl h' = recv_bl h"
  by (auto simp: ConnectionHandler_send_def ConnectionHandler_recv_def new_op_def settle_op_def delete_op_def Let_def split: prod.splits)

lemma buffer_message: "put_message bl h = (r, h') \<Longrightarrow> recv_bl h' = recv_bl h"
  by (auto simp: put_message_def split: if_splits)

lemma buffer_register: "RPMAHandler_register_mr_to_descriptor e c junk opk h tr = (r, h', tr') \<Longrightarrow> recv_bl h' = recv_bl h"
  by (auto simp: RPMAHandler_register_mr_to_descriptor_def Let_def split: prod.splits if_splits sum.splits dest: buffer_message)

lemma buffer_close: "RPMAHandler_close e c h tr = (r, h', tr') \<Longrightarrow> recv_bl h' = recv_bl h"
  by (auto simp: RPMAHandler_close_def Let_def split: prod.splits sum.splits dest!: buffer_message buffer_post)

lemma buffer_deal_require:
  assumes "RPMAHandler_deal_require e c junk h tr = (r, h', tr')"
  shows "recv_bl h' = recv_bl h"
proof -
  have "recv_bl h1 = recv_bl h" if "RPMAHandler_get_descriptor e c junk h tr = (q, h1, t)" for q h1 t
    using that
    by (auto simp: RPMAHandler_get_descriptor_def RPMAHandler_get_descriptor_for_write_def Let_def
        split: option.splits prod.splits if_splits sum.splits dest!: buffer_register buffer_close)
  with assms show ?thesis
    by (auto simp: RPMAHandler_deal_require_def Let_def split: prod.splits sum.splits dest!: buffer_post)
qed

lemma buffer_handle:
  assumes "RPMAHandler_handle e c junk i et h ro tr = (r, h', ro', tr')"
  shows "recv_bl h' = recv_bl h"
proof -
  have cb: "recv_bl h2 = recv_bl g" if "RpmaOp_do_callback (RPMAHandler_run e c junk) x g t = (q, h2, t')" for x g t q h2 t'
    using that buffer_deal_require by (auto simp: RpmaOp_do_callback_def RPMAHandler_run_def split: if_splits)
  show ?thesis
    using assms
    by (auto simp: RPMAHandler_handle_def ConnectionHandler_handle_def ConnectionHandler_handle_completion_def
        ConnectionHandler_handle_connection_event_def obj_defs delete_op_def Let_def
        split: prod.splits if_splits option.splits dest!: cb)
qed

subsection \<open>All connections of the server\<close>

definition server_offers :: "footprint \<Rightarrow> server \<Rightarrow> trace \<Rightarrow> bool" where
  "server_offers B s tr \<longleftrightarrow> server_holds B s tr \<and> (\<forall>j g. sv_handlers s j = Some g \<longrightarrow> offers g tr)"

text \<open>What an event of connection \<open>i\<close> does to the region of connection \<open>j\<close>.\<close>

lemma offers_others:
  assumes "offers g tr" and "sparing (belongings g) tr tr'"
  shows "offers g tr'"
proof -
  have "m \<in> fp_mrs (belongings g)" if "data_mr g = Some m" for m using that by (simp add: belongings_def)
  with assms(1) sparing_exposed [OF assms(2)] show ?thesis unfolding offers_def by blast
qed

lemma event_region:
  assumes fresh: "alloc_fresh e" "objects_fresh e" and off: "server_offers B s tr"
    and i: "i \<noteq> 0" and h: "sv_handlers s i = Some h" and run: "server_dispatch e c w i et s tr = (x, s', tr')"
    and h': "sv_handlers s' i = Some h'"
  defines "msg \<equiv> case w_recv w tr i of None \<Rightarrow> recv_bl h | Some m \<Rightarrow> m"
  shows "offers h' tr' \<and> recv_bl h' = msg \<and> (replica_of h' = replica_of h \<or> replica_step (request_of c msg) (replica_of h) (replica_of h'))"
proof -
  have H: "holdings B (sv_handlers s) (footprint tr)" and o: "offers h tr"
    using off h by (auto simp: server_offers_def server_holds_def)
  obtain F where F: "session_inv F h tr" using holdings_take [OF H h] by (auto simp: session_held)
  let ?h0 = "case w_recv w tr i of None \<Rightarrow> h | Some msg \<Rightarrow> h\<lparr>recv_bl := msg\<rparr>"
  have same: "same_resources h ?h0" and msg: "recv_bl ?h0 = msg" by (simp_all add: same_resources_def msg_def split: option.splits)
  obtain y h1 ro tr1 where g: "RPMAHandler_handle e c (sj_pcfg (w_junk w tr)) i et ?h0 (Some (sv_reactor s)) tr = (y, h1, ro, tr1)"
    by (metis prod.exhaust)
  let ?s = "s\<lparr>sv_reactor := case ro of None \<Rightarrow> sv_reactor s | Some r \<Rightarrow> r, sv_handlers := (sv_handlers s)(i \<mapsto> h1)\<rparr>"
  obtain s2 tr2 where rel: "release_handler e i ?s tr1 = (s2, tr2)" by (metis prod.exhaust)
  have "s' = s2" "tr' = tr2" using run i h g rel by (simp_all add: server_dispatch_def Let_def)
  with rel h' have "h' = h1" "tr' = tr1" by (auto simp: release_handler_def split: if_splits prod.splits)
  moreover note region_handle [OF fresh session_inv_quiet [OF F same quiet_refl] offers_quiet [OF o same quiet_refl] g]
  ultimately show ?thesis using replica_same [OF same] buffer_handle [OF g] msg by auto
qed

lemma accept_new_region:
  assumes "AcceptorHandler_handle e w et s tr = (x, s', tr')" and "sv_handlers s' j = Some g" and "sv_handlers s j = None"
  shows "data_mr g = None"
proof -
  have new: "data_mr h = None" if "RPMAHandler_new e j1 j2 jsz peer ep tr = (Inr h, t)" for j1 j2 jsz peer ep h t
    using harmless_new [of tr e j1 j2 jsz peer ep] that by (simp add: new_exposes_nothing_def)
  show ?thesis
    using assms
    by (auto simp: AcceptorHandler_handle_def Let_def split: if_splits prod.splits sum.splits failure.splits
        dest!: release_outcome new)
qed

text \<open>A slot that is left is not used again.\<close>

lemma dispatch_next:
  assumes "server_dispatch e c w i et s tr = (x, s', tr')"
  shows "sv_next s \<le> sv_next s'"
  using assms
  by (auto simp: server_dispatch_def AcceptorHandler_handle_def Let_def
      split: if_splits option.splits prod.splits sum.splits failure.splits dest!: release_outcome)

context server_machine
begin

lemma dispatch_offers:
  assumes off: "server_offers B s tr" and view: "reactor_view (sv_reactor s) fd = Some (et, i)"
    and run: "server_dispatch e c w i et s tr = (Inr v, s', tr')"
  shows "server_offers B s' tr'"
proof -
  have hold: "server_holds B s tr" using off by (simp add: server_offers_def)
  have hold': "server_holds B s' tr'" by (rule owned.disp_ok [OF hold view run])
  have ok: "server_ok s tr" and ok': "server_ok s' tr'" using hold hold' by (simp_all add: server_holds_def)
  have "offers g tr'" if g: "sv_handlers s' j = Some g" for j g
  proof (cases "j = i")
    case True
    then have "i \<noteq> 0" using server_okD(4) [OF ok' g] by simp
    moreover from this obtain h where "sv_handlers s i = Some h" using server_okD(3) [OF ok view] by blast
    ultimately show ?thesis using event_region [OF blocks objects off _ _ run] g True by blast
  next
    case False
    show ?thesis
    proof (cases "sv_handlers s j")
      case None
      have "i = 0"
      proof (rule ccontr)
        assume "i \<noteq> 0"
        then have "sv_handlers s' j = sv_handlers s j"
          using run False by (auto simp: server_dispatch_def Let_def split: option.splits prod.splits dest!: release_outcome)
        with g None show False by simp
      qed
      with run accept_new_region [OF _ g None] show ?thesis by (simp add: server_dispatch_def offers_def)
    next
      case (Some g')
      then have "g' = g" using dispatch_others [OF run False] server_okD(4) [OF ok Some] g by simp
      with off Some have "offers g tr" by (simp add: server_offers_def)
      then show ?thesis by (rule offers_others [OF _ dispatch_spares [OF blocks objects hold view run Some [unfolded \<open>g' = g\<close>] False]])
    qed
  qed
  with hold' show ?thesis by (simp add: server_offers_def)
qed

end

subsection \<open>An offer lasts\<close>

text \<open>
  Connection \<open>j\<close> has gone, or its region still covers the \<open>n\<close> bytes at \<open>a\<close> and
  the request in its buffer is not one to finish.
\<close>

definition offer_lasts :: "footprint \<Rightarrow> ceph_codec \<Rightarrow> hid \<Rightarrow> addr \<Rightarrow> u64 \<Rightarrow> server \<Rightarrow> trace \<Rightarrow> bool" where
  "offer_lasts B c j a n s tr \<longleftrightarrow> server_offers B s tr \<and> j < sv_next s \<and>
     (\<forall>g. sv_handlers s j = Some g \<longrightarrow> (\<exists>m. replica_of g = Offered a n m) \<and> request_of c (recv_bl g) \<noteq> Finish_request)"

text \<open>A client that does not finish.\<close>

locale lasting_client = server_machine +
  fixes c :: ceph_codec and w :: world and j :: hid
  assumes unfinished: "w_recv w t j = Some msg \<Longrightarrow> request_of c msg \<noteq> Finish_request"
begin

lemma dispatch_lasts:
  assumes lasts: "offer_lasts B c j a n s tr" and view: "reactor_view (sv_reactor s) fd = Some (et, i)"
    and run: "server_dispatch e c w i et s tr = (Inr v, s', tr')"
  shows "offer_lasts B c j a n s' tr'"
proof -
  have off: "server_offers B s tr" and j: "j < sv_next s" using lasts by (simp_all add: offer_lasts_def)
  have off': "server_offers B s' tr'" by (rule dispatch_offers [OF off view run])
  have "(\<exists>m. replica_of g = Offered a n m) \<and> request_of c (recv_bl g) \<noteq> Finish_request" if g: "sv_handlers s' j = Some g" for g
  proof (cases "j = i")
    case False
    with dispatch_others [OF run False j] g lasts show ?thesis by (simp add: offer_lasts_def)
  next
    case True
    have "j \<noteq> 0" using off' g server_okD(4) [of s' tr' j g] by (simp add: server_offers_def server_holds_def)
    moreover from this obtain h where h: "sv_handlers s j = Some h"
      using server_okD(3) [of s tr fd et i] view off True by (auto simp: server_offers_def server_holds_def)
    let ?msg = "case w_recv w tr j of None \<Rightarrow> recv_bl h | Some m \<Rightarrow> m"
    have "request_of c ?msg \<noteq> Finish_request" "\<exists>m. replica_of h = Offered a n m"
      using lasts h unfinished by (auto simp: offer_lasts_def split: option.splits)
    with event_region [OF blocks objects off _ h run [folded True] g] \<open>j \<noteq> 0\<close> offer_stays show ?thesis by metis
  qed
  with off' j dispatch_next [OF run] show ?thesis by (simp add: offer_lasts_def)
qed

end

sublocale lasting_client \<subseteq> lasting: event_loop e sv_reactor "server_dispatch e c w" "offer_lasts B c j a n" for B a n
proof unfold_locales
  show "epoll_ok e" by (rule polls)
  show "offer_lasts B c j a n s tr \<Longrightarrow> reactor_inv (sv_reactor s) tr" for s tr
    by (simp add: offer_lasts_def server_offers_def server_holds_def server_okD(1))
  show "offer_lasts B c j a n s tr \<Longrightarrow> offer_lasts B c j a n s (tr @ [Poll (Ev_epoll_wait x)])" for s tr x
    using owned.ok_wait by (auto simp: offer_lasts_def server_offers_def offers_def exposed_def)
  show "\<lbrakk>offer_lasts B c j a n s tr; reactor_view (sv_reactor s) fd = Some (et, i); server_dispatch e c w i et s tr = (Inr v, s', tr')\<rbrakk>
      \<Longrightarrow> offer_lasts B c j a n s' tr'" for s tr fd et i v s' tr'
    by (rule dispatch_lasts)
qed

context lasting_client
begin

lemmas lasting_loop = lasting.event_loop_axioms

end

interpretation machine_lasting: lasting_client machine_env ceph_le demo_world j for j
  by unfold_locales (simp add: demo_world_def)

subsection \<open>Properties\<close>


lemma demo_init_request: "request_of ceph_le demo_init_msg = Init_request (cache_size demo_info)"
proof -
  let ?q = "\<lparr>type_of = RWL_REPLICA_INIT_REQUEST, info = demo_info\<rparr>"
  have "RwlReplicaInitRequest_decode ceph_le demo_init_msg = Some (?q, [])"
    using ceph_le.init_request_roundtrip [of ?q "[]"] by (simp add: ceph_le.init_request_length demo_info_def)
  moreover have "\<exists>rest. RwlReplicaRequest_decode ceph_le demo_init_msg = Some (\<lparr>type_of = RWL_REPLICA_INIT_REQUEST\<rparr>, rest)"
    using ceph_le.peek_init_request [of ?q "[]"] by (simp add: ceph_le.init_request_length demo_info_def)
  ultimately show ?thesis by (auto simp: request_of_def)
qed



text \<open>A machine that reports one event, the establishment of the second client's connection.\<close>

definition link_env :: env where
  "link_env = machine_env\<lparr>poll_of := kernel_poll\<lparr>e_epoll_wait :=
     (\<lambda>tr. if \<not> has_waited tr \<and> interest tr 13 = Some 3 then (1, Some 3) else (0, None))\<rparr>\<rparr>"

lemma link_env_ok: "epoll_ok link_env" "conn_fds_fresh link_env" "alloc_fresh link_env" "objects_fresh link_env"
  using machine_env_ok
  by (auto simp: epoll_ok_def link_env_def kernel_poll_def demo_poll_def ran_def conn_fds_fresh_def alloc_fresh_def objects_fresh_def split: if_splits)

lemma link_event:
  "\<exists>s' tr'. Reactor_handle_events link_env sv_reactor (server_dispatch link_env ceph_le request_world) 2 two_clients two_clients_trace =
       Some (Inr 0, s', tr') \<and> sv_handlers s' 1 = Some first_client \<and> (\<exists>g. sv_handlers s' 2 = Some g \<and> ConnectionHandler.connected g)"
proof -
  have w: "e_epoll_wait (poll_of link_env) two_clients_trace = (1, Some 3)"
    by (simp add: link_env_def two_clients_alive has_waited_def) (simp add: two_clients_trace_def)
  have w2: "e_epoll_wait (poll_of link_env) t = (0, None)" if "has_waited t" for t using that by (simp add: link_env_def)
  have n: "e_conn_next_event (conn_of link_env) t q = (0, RPMA_CONN_ESTABLISHED)" for t q
    by (simp add: link_env_def machine_env_def demo_conn_def)
  show ?thesis
    using w w2 n
    by (simp add: numeral_2_eq_2 env_simps two_clients_def Reactor_deref_def server_dispatch_def request_world_def Let_def
        RPMAHandler_handle_def ConnectionHandler_handle_def ConnectionHandler_handle_connection_event_def obj_defs
        release_handler_def referenced_def Reactor_empty_def has_waited_def)
qed


end
