(* ===== verification/Server_Slots.thy ===== *)
theory Server_Slots
  imports Resources
begin

text \<open>
  The outstanding operations of a server connection: each receive carries the closure that deals
  with a request, each send carries none, and at most one receive is outstanding, so that no
  request can overwrite another in the one receive buffer of the connection.
\<close>

definition receive_class :: "op_class \<Rightarrow> bool" where
  "receive_class k = (k \<in> {RpmaRecv, RpmaReqRecv})"

definition server_op :: "RpmaOp \<Rightarrow> bool" where
  "server_op x = (if receive_class (op_class x) then func x = Deal_require else op_class x = RpmaSend \<and> func x = No_callback)"

definition ops_typed :: "'z ConnectionHandler_scheme \<Rightarrow> bool" where
  "ops_typed h = (\<forall>x \<in> ran (op_heap h). server_op x)"

definition receives :: "'z ConnectionHandler_scheme \<Rightarrow> ptr set" where
  "receives h = {p \<in> callback_table h. case op_heap h p of None \<Rightarrow> False | Some x \<Rightarrow> receive_class (op_class x)}"

text \<open>A step that may have posted the receive \<open>q\<close> and no other.\<close>

definition slots_step :: "ptr option \<Rightarrow> 'z ConnectionHandler_scheme \<Rightarrow> 'z ConnectionHandler_scheme \<Rightarrow> bool" where
  "slots_step q h h' \<longleftrightarrow> receives h' \<subseteq> set_option q \<union> receives h \<and> (ops_typed h \<longrightarrow> ops_typed h')"

lemma slots_refl [simp]: "slots_step None h h"
  by (simp add: slots_step_def)

lemma slots_trans: "slots_step None h1 h2 \<Longrightarrow> slots_step q h2 h3 \<Longrightarrow> slots_step q h1 h3"
  by (auto simp: slots_step_def)

lemma slots_same: "op_heap h' = op_heap h \<Longrightarrow> callback_table h' = callback_table h \<Longrightarrow> slots_step None h h'"
  by (simp add: slots_step_def receives_def ops_typed_def)

lemma slots_delete: "slots_step None h (delete_op p h)"
  by (auto simp: slots_step_def receives_def ops_typed_def delete_op_def ran_def split: if_splits)

lemma receives_iff: "q \<in> receives h \<longleftrightarrow> q \<in> callback_table h \<and> (\<exists>x. op_heap h q = Some x \<and> receive_class (op_class x))"
  by (auto simp: receives_def split: option.splits)

lemma slots_post:
  assumes n: "new_op k cb h = (p, h1)" and op: "server_op \<lparr>op_class = k, func = cb\<rparr>"
  shows "slots_step (if receive_class k then Some p else None) h (settle_op p ret h1)"
proof -
  let ?h = "settle_op p ret h1"
  have new: "callback_table ?h \<subseteq> insert p (callback_table h)"
      "op_heap ?h q = (if q = p then (if ret = 0 then Some \<lparr>op_class = k, func = cb\<rparr> else None) else op_heap h q)" for q
    using n by (auto simp: new_op_def settle_op_def delete_op_def)
  have "q \<in> receives h \<or> q = p \<and> receive_class k" if "q \<in> receives ?h" for q
    using that new(1) by (cases "q = p") (auto simp: receives_iff new(2) split: if_splits)
  moreover have "ops_typed ?h" if "ops_typed h"
    using that op by (auto simp: ops_typed_def ran_def new(2) split: if_splits)
  ultimately show ?thesis by (auto simp: slots_step_def)
qed

lemma slots_send: "ConnectionHandler_send e No_callback h tr = (ret, h', tr') \<Longrightarrow> slots_step None h h'"
  using slots_post [of RpmaSend No_callback h]
  by (auto simp: ConnectionHandler_send_def server_op_def receive_class_def Let_def split: prod.splits)

lemma slots_recv: "ConnectionHandler_recv e Deal_require h tr = (ret, h', tr') \<Longrightarrow> \<exists>q. slots_step (Some q) h h'"
  using slots_post [of RpmaRecv Deal_require h]
  by (auto simp: ConnectionHandler_recv_def server_op_def receive_class_def Let_def split: prod.splits)

lemma slots_put_message: "put_message bl h = (r, h') \<Longrightarrow> slots_step None h h'"
  by (auto simp: put_message_def split: if_splits intro: slots_same)

lemma slots_register:
  "RPMAHandler_register_mr_to_descriptor e c junk opk h tr = (r, h', tr') \<Longrightarrow> slots_step None h h'"
  by (auto simp: RPMAHandler_register_mr_to_descriptor_def Let_def split: prod.splits if_splits sum.splits
      dest!: slots_put_message intro: slots_same slots_trans [OF slots_same, rotated 2])

lemma slots_close: "RPMAHandler_close e c h tr = (r, h', tr') \<Longrightarrow> slots_step None h h'"
  by (auto simp: RPMAHandler_close_def Let_def split: prod.splits sum.splits
      dest!: slots_put_message slots_send intro: slots_trans slots_trans [OF slots_same, rotated 2])

lemma slots_get_descriptor: "RPMAHandler_get_descriptor e c junk h tr = (r, h', tr') \<Longrightarrow> slots_step None h h'"
  by (auto simp: RPMAHandler_get_descriptor_def RPMAHandler_get_descriptor_for_write_def Let_def
      split: option.splits prod.splits if_splits sum.splits
      dest!: slots_register slots_close intro: slots_same slots_trans [OF slots_same, rotated 2])

lemma slots_run:
  assumes "RPMAHandler_run e c junk cb h tr = (r, h', tr')"
  shows "\<exists>q. slots_step q h h' \<and> (cb \<noteq> Deal_require \<longrightarrow> q = None)"
proof (cases "cb = Deal_require")
  case True
  obtain r1 h1 tr1 where g: "RPMAHandler_get_descriptor e c junk h tr = (r1, h1, tr1)" by (metis prod_cases3)
  obtain ret h2 tr2 where v: "ConnectionHandler_recv e Deal_require h1 tr1 = (ret, h2, tr2)" by (metis prod_cases3)
  have "h' = h1 \<or> h' = h2"
    using assms True g v by (auto simp: RPMAHandler_run_def RPMAHandler_deal_require_def split: prod.splits sum.splits)
  then show ?thesis using True slots_get_descriptor [OF g] slots_recv [OF v] slots_trans by metis
next
  case False
  with assms show ?thesis by (auto simp: RPMAHandler_run_def)
qed

text \<open>The invariant and that every event keeps it.\<close>

definition slots_ok :: "'z ConnectionHandler_scheme \<Rightarrow> bool" where
  "slots_ok h \<longleftrightarrow> ops_typed h \<and> (\<exists>q. receives h \<subseteq> {q})"

lemma slots_ok_step: "slots_step None h h' \<Longrightarrow> slots_ok h \<Longrightarrow> slots_ok h'"
  by (auto simp: slots_ok_def slots_step_def)

lemma slots_callback:
  assumes ok: "slots_ok h" and p: "p \<in> callback_table h" "op_heap h p = Some x"
    and run: "RpmaOp_do_callback (RPMAHandler_run e c junk) x (h\<lparr>callback_table := callback_table h - {p}\<rparr>) tr = (r, h', tr')"
  shows "slots_ok (delete_op p h')"
proof -
  let ?h1 = "h\<lparr>callback_table := callback_table h - {p}\<rparr>"
  have less: "receives ?h1 = receives h - {p}" "ops_typed ?h1 = ops_typed h"
    by (auto simp: receives_def ops_typed_def)
  have x: "server_op x" using ok p(2) by (auto simp: slots_ok_def ops_typed_def ran_def)
  obtain q where q: "slots_step q ?h1 h'" "func x \<noteq> Deal_require \<longrightarrow> q = None"
    using run slots_run by (cases "func x = No_callback") (auto simp: RpmaOp_do_callback_def, blast)
  have "\<exists>z. receives h' \<subseteq> {z}"
  proof (cases "func x = Deal_require")
    case True
    then have "p \<in> receives h" using x p by (auto simp: receives_def server_op_def split: if_splits)
    with ok less have "receives ?h1 = {}" by (auto simp: slots_ok_def)
    with q(1) show ?thesis by (cases q) (auto simp: slots_step_def)
  next
    case False
    with q ok less show ?thesis by (auto simp: slots_ok_def slots_step_def)
  qed
  moreover have "ops_typed h'" using q(1) ok less by (simp add: slots_step_def slots_ok_def)
  ultimately have "slots_ok h'" by (simp add: slots_ok_def)
  then show ?thesis by (rule slots_ok_step [OF slots_delete])
qed

lemma slots_completion:
  assumes inv: "ops_inv {} h" and ok: "completion_ok e h tr" and slots: "slots_ok h"
    and run: "ConnectionHandler_handle_completion e (RPMAHandler_run e c junk) h tr = (r, h', tr')"
  shows "slots_ok h'"
proof -
  let ?c = "rc_conn (ch_conn h)"
  obtain ret cmpl where g: "e_conn_completion_get (conn_of e) (tr @ [Conn (Ev_conn_completion_wait ?c 0)]) ?c = (ret, cmpl)"
    by (metis prod.exhaust)
  show ?thesis
  proof (cases "e_conn_completion_wait (conn_of e) tr ?c = 0 \<and> ret = 0 \<and> op_status cmpl = IBV_WC_SUCCESS \<and> op_context cmpl \<noteq> None")
    case False
    then have "op_heap h' = op_heap h \<and> callback_table h' = callback_table h"
      using run g
      by (auto simp: ConnectionHandler_handle_completion_def Let_def env_simps obj_defs split: if_splits option.splits)
    then show ?thesis using slots_ok_step [OF slots_same] slots by blast
  next
    case True
    then obtain p where p: "op_context cmpl = Some p" "p \<in> callback_table h"
      using ok g by (auto simp: completion_ok_def Let_def)
    obtain x where x: "op_heap h p = Some x" using ops_inv_take [OF inv p(2)] by blast
    let ?tr2 = "tr @ [Conn (Ev_conn_completion_wait ?c 0), Conn (Ev_conn_completion_get ?c (0, cmpl))]"
    obtain r2 h2 tr3 where d: "RpmaOp_do_callback (RPMAHandler_run e c junk) x (h\<lparr>callback_table := callback_table h - {p}\<rparr>) ?tr2 = (r2, h2, tr3)"
      by (metis prod_cases3)
    have "h' = delete_op p h2"
      using run True g p(1) x d by (auto simp: ConnectionHandler_handle_completion_def Let_def env_simps obj_defs)
    with slots_callback [OF slots p(2) x d] show ?thesis by simp
  qed
qed

lemma slots_handle:
  assumes "ops_inv {} h" and "completion_ok e h tr" and slots: "slots_ok h"
    and run: "RPMAHandler_handle e c junk i et h ro tr = (r, h', ro', tr')"
  shows "slots_ok h'"
proof (cases "et = COMPLETION_EVENT")
  case True
  then show ?thesis
    using run slots_completion [OF assms(1-3)]
    by (auto simp: RPMAHandler_handle_def ConnectionHandler_handle_def split: prod.splits)
next
  case False
  then have "op_heap h' = op_heap h \<and> callback_table h' = callback_table h"
    using run
    by (auto simp: RPMAHandler_handle_def ConnectionHandler_handle_def ConnectionHandler_handle_connection_event_def
        env_simps obj_defs Let_def split: prod.splits if_splits)
  then show ?thesis using slots_ok_step [OF slots_same] slots by blast
qed

lemma buffers_slots:
  "ConnectionHandler_init_send_recv_buffer e h tr = (r, h', tr') \<Longrightarrow> slots_step None h h'"
  "ConnectionHandler_init_conn_fd e h tr = (r, h', tr') \<Longrightarrow> slots_step None h h'"
  by (rule slots_same; auto simp: ConnectionHandler_init_send_recv_buffer_def ConnectionHandler_init_conn_fd_def Let_def
      split: prod.splits if_splits option.splits)+

lemma new_handler_slots:
  assumes run: "RPMAHandler_new e j1 j2 jsz peer ep tr = (Inr h, tr')"
  shows "slots_ok h"
proof -
  let ?h0 = "(RPMAHandler_default j1 j2 jsz)\<lparr>ch_peer := peer\<rparr>"
  obtain r1 h1 tr1 where b: "ConnectionHandler_init_send_recv_buffer e ?h0 tr = (r1, h1, tr1)" by (metis prod_cases3)
  obtain p h2 where n: "new_op RpmaReqRecv Deal_require h1 = (p, h2)" by (metis prod.exhaust)
  have empty: "receives ?h0 = {}" "ops_typed ?h0"
    by (simp_all add: receives_def ops_typed_def RPMAHandler_default_def ConnectionHandler.extend_def ConnectionHandler_new_def)
  have "slots_step (Some p) h1 (settle_op p 0 h2)"
    using slots_post [OF n, of 0] by (simp add: server_op_def receive_class_def)
  then have "slots_step (Some p) ?h0 (settle_op p 0 h2)" using slots_trans buffers_slots(1) [OF b] by blast
  with empty have h3: "slots_ok (settle_op p 0 h2)" by (auto simp: slots_ok_def slots_step_def)
  obtain conn tr4 x tr5 where "ConnectionHandler_init_conn_fd e ((settle_op p 0 h2)\<lparr>ch_conn := conn\<rparr>) tr4 = (x, h, tr5)"
    using run b n by (auto simp: RPMAHandler_new_def ctor_throw_def Let_def split: prod.splits sum.splits if_splits)
  from slots_trans [OF slots_same buffers_slots(2) [OF this]] have "slots_step None (settle_op p 0 h2) h" by simp
  then show ?thesis using h3 by (rule slots_ok_step)
qed

text \<open>
  C16: The operations of a server connection are well typed and its receive buffer has one user.
  Throughout any session, every outstanding receive carries the closure that deals with a
  request, every other operation object is a send without closure, and at most one receive is
  outstanding: the next request is awaited only after the previous one has been dealt with.
\<close>

theorem server_one_receive:
  assumes "server_session e c tr0 h tr"
  shows "(\<forall>p x. op_heap h p = Some x \<longrightarrow> p \<in> callback_table h \<and>
       (if op_class x \<in> {RpmaRecv, RpmaReqRecv} then func x = Deal_require else op_class x = RpmaSend \<and> func x = No_callback)) \<and>
     card {p. \<exists>x. op_heap h p = Some x \<and> op_class x \<in> {RpmaRecv, RpmaReqRecv}} \<le> 1"
proof -
  have slots: "slots_ok h" using assms
  proof (induction rule: server_session.induct)
    case (start j1 j2 jsz peer ep h tr)
    then show ?case by (rule new_handler_slots)
  next
    case (deliver h tr msg)
    then show ?case using slots_ok_step [OF slots_same, of "h\<lparr>recv_bl := msg\<rparr>" h] by simp
  next
    case (step h tr junk i et ro r h' ro' tr')
    then show ?case using slots_handle [OF server_session_ops] by blast
  qed
  have own: "p \<in> callback_table h" if "op_heap h p = Some x" for p x
    using server_session_ops [OF assms] that by (auto simp: ops_inv_def)
  have "{p. \<exists>x. op_heap h p = Some x \<and> op_class x \<in> {RpmaRecv, RpmaReqRecv}} = receives h"
    using own by (auto simp: receives_iff receive_class_def)
  moreover obtain q where "receives h \<subseteq> {q}" using slots by (auto simp: slots_ok_def)
  then have "card (receives h) \<le> card {q}" by (rule card_mono [rotated]) simp
  moreover have "server_op x" if "op_heap h p = Some x" for p x
    using slots that by (auto simp: slots_ok_def ops_typed_def ran_def)
  ultimately show ?thesis using own by (auto simp: server_op_def receive_class_def)
qed

theorem server_one_receive_witness:
  "\<exists>h tr. server_session (tracked_env True) ceph_le [] h tr \<and>
     card {p. \<exists>x. op_heap h p = Some x \<and> op_class x \<in> {RpmaRecv, RpmaReqRecv}} \<le> 1"
proof -
  obtain h tr where n: "RPMAHandler_new (tracked_env True) 0 0 0 (Some 1) (Some 2) [] = (Inr h, tr)"
    using tracked_new by blast
  have s: "server_session (tracked_env True) ceph_le [] h tr" by (rule server_session.start [OF n])
  from server_one_receive [OF s] s show ?thesis by blast
qed

end
