(* ===== verification/Client_Handler.thy ===== *)
theory Client_Handler
  imports Resources
begin

text \<open>
  \<open>ClientHandler\<close> of \<open>EventOp.h\<close> and \<open>EventOp.cc\<close>: the client's end of a connection.
  It asks the server for a region, learns the region's descriptors from the reply, writes and
  flushes, and asks the server to give the region up.

  Two threads work on a client: the application's, which calls the operations, and the one that
  runs the reactor, which runs the callbacks. \<open>init_replica\<close> and \<open>close_replica\<close> wait
  in a loop for a callback that captures locals of their stack frame by reference; the frames that
  are alive are part of the state, and a callback that writes to a frame that is gone is a use
  after free. What the reactor's thread does while the application's thread waits is a parameter of
  the loop.
\<close>

text \<open>The captured locals of one call.\<close>

record frame =
  fr_completed :: bool
  fr_successed :: bool

record ClientHandler = ConnectionHandler +
  cl_flush_type :: rpma_flush_type
  cl_address :: string
  cl_port :: string
  cl_data_header :: "addr option"
  cl_data_mr :: "ptr option"
  cl_image_size :: u64
  cl_image_mr :: "ptr option"
  cl_image_name :: string
  cl_frames :: "nat \<rightharpoonup> frame"
  cl_next_frame :: nat

subsection \<open>Life of a client\<close>

definition ClientHandler_destroy ::
    "env \<Rightarrow> ClientHandler \<Rightarrow> trace \<Rightarrow> unit result \<times> ClientHandler \<times> trace" where
  "ClientHandler_destroy e h tr =
     (let tr1 = unique_delete RpmaMRDeleter (cl_data_mr h) tr;
          (r, h1, tr2) = ConnectionHandler_destroy e (h\<lparr>cl_data_mr := None\<rparr>) tr1
      in (r, h1\<lparr>ch_peer := None\<rparr>, unique_delete RpmaPeerDeleter (ch_peer h1) tr2))"

definition client_throw :: "env \<Rightarrow> failure \<Rightarrow> ClientHandler \<Rightarrow> trace \<Rightarrow> ClientHandler result \<times> trace" where
  "client_throw e f h tr = (let (_, _, tr1) = ClientHandler_destroy e h tr in (Inl f, tr1))"

text \<open>
  The members that have no initialiser keep arbitrary values, given by the record \<open>junk\<close>.
\<close>

record client_junk =
  j_conn_fd :: fd
  j_comp_fd :: fd
  j_flush_type :: rpma_flush_type
  j_data_header :: "addr option"
  j_image_size :: u64
  j_image_mr :: "ptr option"

definition ClientHandler_default :: "client_junk \<Rightarrow> string \<Rightarrow> string \<Rightarrow> ClientHandler" where
  "ClientHandler_default j addr port =
     ConnectionHandler.extend (ConnectionHandler_new (j_conn_fd j) (j_comp_fd j))
       \<lparr>cl_flush_type = j_flush_type j, cl_address = addr, cl_port = port, cl_data_header = j_data_header j,
        cl_data_mr = None, cl_image_size = j_image_size j, cl_image_mr = j_image_mr j, cl_image_name = [],
        cl_frames = Map.empty, cl_next_frame = 0\<rparr>"

text \<open>
  The connection request of the constructor: a configuration with 200 entries per queue, the
  request, and the configuration deleted whatever became of the request.
\<close>

definition client_conn_req ::
    "env \<Rightarrow> ptr option \<Rightarrow> string \<Rightarrow> string \<Rightarrow> trace \<Rightarrow> ptr option result \<times> trace" where
  "client_conn_req e peer addr port tr =
     (let ((ret, cfg), tr1) = rpma_conn_cfg_new e tr
      in if ret \<noteq> 0 then (Inl (Runtime_error ''new cfg failed''), tr1)
         else
           let tr2 = log_event (Setup (Ev_conn_cfg_set_sq_size cfg 200)) tr1;
               tr3 = log_event (Setup (Ev_conn_cfg_set_rq_size cfg 200)) tr2;
               tr4 = log_event (Setup (Ev_conn_cfg_set_cq_size cfg 200)) tr3;
               ((ret2, req), tr5) = rpma_conn_req_new e peer addr port cfg tr4;
               tr6 = log_event (Setup (Ev_conn_cfg_delete cfg)) tr5
           in if ret2 \<noteq> 0 then (Inl (Runtime_error ''create a new outgoing connection request object failed''), tr6)
              else (Inr req, tr6))"

text \<open>The end of the constructor: the request is connected and the descriptors are asked for.\<close>

definition client_connect_req :: "env \<Rightarrow> ptr option \<Rightarrow> ClientHandler \<Rightarrow> trace \<Rightarrow> ClientHandler result \<times> trace" where
  "client_connect_req e req h tr =
     (let ((ret, req2, conn), tr1) = rpma_conn_req_connect e req tr
      in if ret \<noteq> 0
         then client_throw e (Runtime_error ''initiate processing the connection request'') h
                (if req2 \<noteq> None then log_event (Setup (Ev_conn_req_delete req2)) tr1 else tr1)
         else
           let h1 = h\<lparr>ch_conn := RpmaConn_reset conn (ch_conn h)\<rparr>;
               (r, h2, tr2) = ConnectionHandler_init_conn_fd e h1 tr1
           in case r of Inl f \<Rightarrow> client_throw e f h2 tr2 | Inr _ \<Rightarrow> (Inr h2, tr2))"

definition ClientHandler_new ::
    "env \<Rightarrow> client_junk \<Rightarrow> string \<Rightarrow> string \<Rightarrow> trace \<Rightarrow> ClientHandler result \<times> trace" where
  "ClientHandler_new e j addr port tr =
     (let h0 = ClientHandler_default j addr port;
          ((ret, peer), tr1) = common_peer_via_address e addr RPMA_UTIL_IBV_CONTEXT_REMOTE tr
      in if ret \<noteq> 0
         then client_throw e (Runtime_error ''lookup an ibv_context via the address and create a new peer using it failed'')
                h0 tr1
         else
           let h1 = h0\<lparr>ch_peer := peer\<rparr>;
               (r2, h2, tr2) = ConnectionHandler_init_send_recv_buffer e h1 tr1
           in case r2 of
                Inl f \<Rightarrow> client_throw e f h2 tr2
              | Inr _ \<Rightarrow>
                  let (q, tr3) = client_conn_req e peer addr port tr2
                  in (case q of
                        Inl f \<Rightarrow> client_throw e f h2 tr3
                      | Inr req \<Rightarrow> client_connect_req e req h2 tr3))"

definition ClientHandler_register_self ::
    "env \<Rightarrow> hid \<Rightarrow> ClientHandler \<Rightarrow> Reactor option \<Rightarrow> trace \<Rightarrow> int \<times> Reactor option \<times> trace" where
  "ClientHandler_register_self e i h ro tr = register_pair e i h ro tr"

definition ClientHandler_remove_self ::
    "env \<Rightarrow> hid \<Rightarrow> ClientHandler \<Rightarrow> Reactor option \<Rightarrow> trace \<Rightarrow> int \<times> Reactor option \<times> trace" where
  "ClientHandler_remove_self e i h ro tr = remove_pair e i h ro tr"

subsection \<open>The reply to an init request\<close>

text \<open>
  A library call reads \<open>n\<close> bytes of a string from index \<open>i\<close>; the terminating NUL may be
  read, beyond it is undefined behaviour.
\<close>

definition str_read :: "bytes \<Rightarrow> nat \<Rightarrow> nat \<Rightarrow> bytes result" where
  "str_read s i n =
     (if i + n \<le> Suc (length s) then Inr (take n (drop i (s @ [CHR 0x00]))) else Inl Out_of_range)"

text \<open>The remote peer's configuration: whether it declared direct writes to persistent memory.\<close>

definition apply_remote_pcfg ::
    "env \<Rightarrow> RpmaConfigDescriptor \<Rightarrow> ClientHandler \<Rightarrow> trace \<Rightarrow> bool result \<times> trace" where
  "apply_remote_pcfg e d h tr =
     (if pcfg_desc_size d = 0 then (Inr False, tr)
      else
        (case str_read (descriptors d) (unat (mr_desc_size d)) (unat (pcfg_desc_size d)) of
           Inl f \<Rightarrow> (Inl f, tr)
         | Inr bs \<Rightarrow>
             let ((_, pcfg), tr1) = rpma_peer_cfg_from_descriptor e bs tr;
                 ((_, direct), tr2) = rpma_peer_cfg_get_direct_write_to_pmem e pcfg tr1;
                 tr3 = log_event (Conn (Ev_conn_apply_remote_peer_cfg (RpmaConn_get (ch_conn h)) pcfg)) tr2;
                 tr4 = log_event (Mr (Ev_peer_cfg_delete pcfg)) tr3
             in (Inr (case direct of None \<Rightarrow> False | Some b \<Rightarrow> b), tr4)))"

text \<open>
  \<open>get_remote_descriptor\<close>. The return code of \<open>rpma_mr_remote_from_descriptor\<close> is
  overwritten by that of \<open>rpma_mr_remote_get_size\<close>; the size is compared also after a failure.
\<close>

definition ClientHandler_get_remote_descriptor ::
    "env \<Rightarrow> ceph_codec \<Rightarrow> ClientHandler \<Rightarrow> trace \<Rightarrow> int result \<times> ClientHandler \<times> trace" where
  "ClientHandler_get_remote_descriptor e c h tr =
     (case RwlReplicaInitRequestReply_decode c (recv_bl h) of
        None \<Rightarrow> (Inl Buffer_error, h, tr)
      | Some (reply, _) \<Rightarrow>
          if type_of reply \<noteq> RWL_REPLICA_INIT_SUCCESSED then (Inr 0, h, tr)
          else
            let d = desc reply;
                (dw, tr1) = apply_remote_pcfg e d h tr
            in case dw of
                 Inl f \<Rightarrow> (Inl f, h, tr1)
               | Inr direct \<Rightarrow>
                   (case str_read (descriptors d) 0 (unat (mr_desc_size d)) of
                      Inl f \<Rightarrow> (Inl f, h, tr1)
                    | Inr bs \<Rightarrow>
                        let ((_, mr), tr2) = rpma_mr_remote_from_descriptor e bs tr1;
                            h1 = (case mr of None \<Rightarrow> h | Some m \<Rightarrow> h\<lparr>cl_image_mr := Some m\<rparr>);
                            ((ret, sz), tr3) = rpma_mr_remote_get_size e (cl_image_mr h1) tr2
                        in if sz < cl_image_size h1 then (Inr (-1), h1, tr3)
                           else (Inr ret, h1\<lparr>cl_flush_type := (if direct then RPMA_FLUSH_TYPE_PERSISTENT
                                                          else RPMA_FLUSH_TYPE_VISIBILITY)\<rparr>, tr3)))"

subsection \<open>Callbacks\<close>

definition set_completed :: "nat \<Rightarrow> (frame \<Rightarrow> frame) \<Rightarrow> ClientHandler \<Rightarrow> unit result \<times> ClientHandler" where
  "set_completed i upd h =
     (case cl_frames h i of
        None \<Rightarrow> (Inl Use_after_free, h)
      | Some fr \<Rightarrow> (Inr (), h\<lparr>cl_frames := (cl_frames h)(i \<mapsto> (upd fr)\<lparr>fr_completed := True\<rparr>)\<rparr>))"

definition ClientHandler_run ::
    "env \<Rightarrow> ceph_codec \<Rightarrow> callback \<Rightarrow> ClientHandler \<Rightarrow> trace \<Rightarrow> unit result \<times> ClientHandler \<times> trace" where
  "ClientHandler_run e c cb h tr =
     (case cb of
        Init_replica_done i \<Rightarrow>
          (let (r, h1, tr1) = ClientHandler_get_remote_descriptor e c h tr
           in case r of
                Inl f \<Rightarrow> (Inl f, h1, tr1)
              | Inr _ \<Rightarrow> let (r2, h2) = set_completed i id h1 in (r2, h2, tr1))
      | Close_replica_done i \<Rightarrow>
          (case RwlReplicaRequest_decode c (recv_bl h) of
             None \<Rightarrow> (Inl Buffer_error, h, tr)
           | Some (reply, _) \<Rightarrow>
               let (r2, h2) = set_completed i
                     (\<lambda>fr. fr\<lparr>fr_successed := (type_of reply = RWL_REPLICA_FINISHED_SUCCCESSED)\<rparr>) h
               in (r2, h2, tr))
      | User_callback i \<Rightarrow> (let (r2, h2) = set_completed i id h in (r2, h2, tr))
      | _ \<Rightarrow> (Inr (), h, tr))"

definition ClientHandler_handle ::
    "env \<Rightarrow> ceph_codec \<Rightarrow> hid \<Rightarrow> EventType \<Rightarrow> ClientHandler \<Rightarrow> Reactor option \<Rightarrow> trace
     \<Rightarrow> int result \<times> ClientHandler \<times> Reactor option \<times> trace" where
  "ClientHandler_handle e c i et h ro tr =
     ConnectionHandler_handle e (ClientHandler_remove_self e i) (ClientHandler_run e c) et h ro tr"

subsection \<open>Waiting\<close>

text \<open>
  The waiting loop of \<open>init_replica\<close> and \<open>close_replica\<close>. In iteration \<open>k\<close> the
  other thread turns the shared state by \<open>sched k\<close> and the clock shows \<open>clk k\<close>
  microseconds since the start. The loop first compares \<open>cost_time\<close> before it was ever
  assigned: its initial value is an argument. The loop may run for ever when the clock stands
  still, so it has fuel.
\<close>

definition TIMEOUT_US :: int where "TIMEOUT_US = 10000000"

fun wait_loop ::
    "(nat \<Rightarrow> 's \<Rightarrow> 's) \<Rightarrow> (nat \<Rightarrow> int) \<Rightarrow> ('s \<Rightarrow> bool) \<Rightarrow> nat \<Rightarrow> nat \<Rightarrow> int \<Rightarrow> 's \<Rightarrow> 's option" where
  "wait_loop sched clk completed 0 k cost s = None"
| "wait_loop sched clk completed (Suc n) k cost s =
     (if \<not> completed s \<and> cost < TIMEOUT_US
      then wait_loop sched clk completed n (Suc k) (clk k) (sched k s)
      else Some s)"

type_synonym client_state = "ClientHandler \<times> trace"

text \<open>\<open>std::atomic<bool> wait_established\<close>: the loop that waits for the first event.\<close>

fun wait_established :: "(nat \<Rightarrow> client_state \<Rightarrow> client_state) \<Rightarrow> nat \<Rightarrow> nat \<Rightarrow> client_state \<Rightarrow> client_state option" where
  "wait_established sched 0 k s = None"
| "wait_established sched (Suc n) k s =
     (if connected (fst s) then Some s else wait_established sched n (Suc k) (sched k s))"

definition frame_completed :: "nat \<Rightarrow> client_state \<Rightarrow> bool" where
  "frame_completed i s = (case cl_frames (fst s) i of None \<Rightarrow> False | Some fr \<Rightarrow> fr_completed fr)"

definition frame_successed :: "nat \<Rightarrow> client_state \<Rightarrow> bool" where
  "frame_successed i s = (case cl_frames (fst s) i of None \<Rightarrow> False | Some fr \<Rightarrow> fr_successed fr)"

definition push_frame :: "ClientHandler \<Rightarrow> nat \<times> ClientHandler" where
  "push_frame h =
     (cl_next_frame h,
      h\<lparr>cl_frames := (cl_frames h)(cl_next_frame h \<mapsto> \<lparr>fr_completed = False, fr_successed = False\<rparr>),
        cl_next_frame := Suc (cl_next_frame h)\<rparr>)"

definition pop_frame :: "nat \<Rightarrow> ClientHandler \<Rightarrow> ClientHandler" where
  "pop_frame i h = h\<lparr>cl_frames := (cl_frames h)(i := None)\<rparr>"

text \<open>What both operations do before they wait: message, frame, receive, send.\<close>

definition post_request ::
    "env \<Rightarrow> bytes \<Rightarrow> (nat \<Rightarrow> callback) \<Rightarrow> ClientHandler \<Rightarrow> trace \<Rightarrow> nat result \<times> ClientHandler \<times> trace" where
  "post_request e bl cb h tr =
     (let (r, h1) = put_message bl h
      in case r of
           Inl f \<Rightarrow> (Inl f, h1, tr)
         | Inr _ \<Rightarrow>
             let (i, h2) = push_frame h1;
                 (_, h3, tr3) = ConnectionHandler_recv e (cb i) h2 tr;
                 (_, h4, tr4) = ConnectionHandler_send e No_callback h3 tr3
             in (Inr i, h4, tr4))"

definition init_request :: "u32 \<Rightarrow> u64 \<Rightarrow> string \<Rightarrow> string \<Rightarrow> RwlReplicaInitRequest" where
  "init_request cid csize pool img =
     \<lparr>type_of = RWL_REPLICA_INIT_REQUEST,
      info = \<lparr>cache_id = cid, cache_size = csize, pool_name = pool, image_name = img\<rparr>\<rparr>"

definition ClientHandler_init_replica ::
    "env \<Rightarrow> ceph_codec \<Rightarrow> (nat \<Rightarrow> client_state \<Rightarrow> client_state) \<Rightarrow> (nat \<Rightarrow> int) \<Rightarrow> nat \<Rightarrow> int
     \<Rightarrow> u32 \<Rightarrow> u64 \<Rightarrow> string \<Rightarrow> string \<Rightarrow> ClientHandler \<Rightarrow> trace \<Rightarrow> (int result \<times> ClientHandler \<times> trace) option" where
  "ClientHandler_init_replica e c sched clk fuel cost cid csize pool img h tr =
     (let (r, h1, tr1) = post_request e (RwlReplicaInitRequest_encode c (init_request cid csize pool img))
                           Init_replica_done (h\<lparr>cl_image_size := csize\<rparr>) tr
      in case r of
           Inl f \<Rightarrow> Some (Inl f, h1, tr1)
         | Inr i \<Rightarrow>
             (case wait_loop sched clk (frame_completed i) fuel 0 cost (h1, tr1) of
                None \<Rightarrow> None
              | Some s \<Rightarrow> Some (Inr (if frame_completed i s then 0 else -1), pop_frame i (fst s), snd s)))"

definition ClientHandler_close_replica ::
    "env \<Rightarrow> ceph_codec \<Rightarrow> (nat \<Rightarrow> client_state \<Rightarrow> client_state) \<Rightarrow> (nat \<Rightarrow> int) \<Rightarrow> nat \<Rightarrow> int
     \<Rightarrow> ClientHandler \<Rightarrow> trace \<Rightarrow> (int result \<times> ClientHandler \<times> trace) option" where
  "ClientHandler_close_replica e c sched clk fuel cost h tr =
     (let (r, h1, tr1) = post_request e (RwlReplicaRequest_encode c \<lparr>type_of = RWL_REPLICA_FINISHED_REQUEST\<rparr>)
                           Close_replica_done h tr
      in case r of
           Inl f \<Rightarrow> Some (Inl f, h1, tr1)
         | Inr i \<Rightarrow>
             (case wait_loop sched clk (frame_completed i) fuel 0 cost (h1, tr1) of
                None \<Rightarrow> None
              | Some s \<Rightarrow> Some (Inr (if frame_completed i s \<and> frame_successed i s then 0 else -1),
                                pop_frame i (fst s), snd s)))"

subsection \<open>Remote memory access\<close>

definition ClientHandler_disconnect :: "env \<Rightarrow> ClientHandler \<Rightarrow> trace \<Rightarrow> int \<times> ClientHandler \<times> trace" where
  "ClientHandler_disconnect e h tr =
     (let (ret, x, tr1) = RpmaConn_disconnect e (ch_conn h) tr in (ret, h\<lparr>ch_conn := x\<rparr>, tr1))"

definition ClientHandler_set_head ::
    "env \<Rightarrow> addr option \<Rightarrow> u64 \<Rightarrow> ClientHandler \<Rightarrow> trace \<Rightarrow> int \<times> ClientHandler \<times> trace" where
  "ClientHandler_set_head e head sz h tr =
     (let h1 = h\<lparr>cl_data_header := head\<rparr>;
          ((ret, mr), tr1) = rpma_mr_reg e (ch_peer h1) head sz RPMA_MR_USAGE_WRITE_SRC tr
      in if ret \<noteq> 0 then (ret, h1, tr1)
         else (0, h1\<lparr>cl_data_mr := mr\<rparr>, unique_delete RpmaMRDeleter (cl_data_mr h1) tr1))"

definition MAX_WRITE :: u64 where "MAX_WRITE = 1024 * 1024 * 1024"

definition ClientHandler_write ::
    "env \<Rightarrow> u64 \<Rightarrow> u64 \<Rightarrow> callback \<Rightarrow> ClientHandler \<Rightarrow> trace \<Rightarrow> int result \<times> ClientHandler \<times> trace" where
  "ClientHandler_write e offset len cb h tr =
     (if cl_data_mr h = None \<or> \<not> len \<le> MAX_WRITE then (Inl Assertion_failed, h, tr)
      else
        let (p, h1) = new_op RpmaWrite cb h;
            (ret, tr1) = RpmaWrite_call e (RpmaConn_get (ch_conn h1)) (cl_image_mr h1) offset (cl_data_mr h1) offset
                           len RPMA_F_COMPLETION_ALWAYS (Some p) tr
        in (Inr ret, settle_op p ret h1, tr1))"

definition ClientHandler_flush ::
    "env \<Rightarrow> u64 \<Rightarrow> u64 \<Rightarrow> callback \<Rightarrow> ClientHandler \<Rightarrow> trace \<Rightarrow> int result \<times> ClientHandler \<times> trace" where
  "ClientHandler_flush e offset len cb h tr =
     (if cl_data_mr h = None then (Inl Assertion_failed, h, tr)
      else
        let (p, h1) = new_op RpmaFlush cb h;
            (ret, tr1) = RpmaFlush_call e (RpmaConn_get (ch_conn h1)) (cl_image_mr h1) offset len (cl_flush_type h1)
                           RPMA_F_COMPLETION_ALWAYS (Some p) tr
        in (Inr ret, settle_op p ret h1, tr1))"

subsection \<open>Ownership of the operations\<close>

lemma ops_inv_client [simp]:
  "ops_inv B (h\<lparr>cl_data_mr := x\<rparr>) = ops_inv B h"
  "ops_inv B (h\<lparr>cl_image_mr := x\<rparr>) = ops_inv B h"
  "ops_inv B (h\<lparr>cl_image_size := n\<rparr>) = ops_inv B h"
  "ops_inv B (h\<lparr>cl_flush_type := ty\<rparr>) = ops_inv B h"
  "ops_inv B (h\<lparr>cl_data_header := a\<rparr>) = ops_inv B h"
  "ops_inv B (h\<lparr>cl_frames := fs\<rparr>) = ops_inv B h"
  "ops_inv B (h\<lparr>cl_next_frame := i\<rparr>) = ops_inv B h"
  by (simp_all add: ops_inv_def)

lemma get_remote_descriptor_ops:
  assumes "ClientHandler_get_remote_descriptor e c h tr = (r, h', tr')"
  shows "ops_inv B h' = ops_inv B h"
  using assms
  by (auto simp: ClientHandler_get_remote_descriptor_def Let_def
      split: option.splits prod.splits if_splits sum.splits)

lemma set_completed_ops: "set_completed i upd h = (r, h') \<Longrightarrow> ops_inv B h' = ops_inv B h"
  by (auto simp: set_completed_def split: option.splits)

lemma client_run_ops: "ClientHandler_run e c cb h tr = (r, h', tr') \<Longrightarrow> ops_inv B h' = ops_inv B h"
  by (auto simp: ClientHandler_run_def Let_def split: callback.splits option.splits prod.splits sum.splits
      dest!: get_remote_descriptor_ops [where B = B] set_completed_ops [where B = B])

interpretation client_callbacks: callback_runner "ClientHandler_run e c" for e c
  by unfold_locales (simp add: client_run_ops)

lemma push_frame_ops: "push_frame h = (i, h') \<Longrightarrow> ops_inv B h' = ops_inv B h"
  by (auto simp: push_frame_def)

lemma post_request_ops:
  "ops_inv B h \<Longrightarrow> post_request e bl cb h tr = (r, h', tr') \<Longrightarrow> ops_inv B h'"
  by (auto simp: post_request_def Let_def split: prod.splits sum.splits
      dest!: put_message_ops [where B = B] push_frame_ops [where B = B] intro: ops_inv_recv ops_inv_send)

lemma write_ops:
  "ops_inv B h \<Longrightarrow> ClientHandler_write e off len cb h tr = (r, h', tr') \<Longrightarrow> ops_inv B h'"
  by (auto simp: ClientHandler_write_def Let_def split: prod.splits if_splits intro: ops_inv_post)

lemma flush_ops:
  "ops_inv B h \<Longrightarrow> ClientHandler_flush e off len cb h tr = (r, h', tr') \<Longrightarrow> ops_inv B h'"
  by (auto simp: ClientHandler_flush_def Let_def split: prod.splits if_splits intro: ops_inv_post)

end
