(* ===== verification/Client_Session.thy ===== *)
theory Client_Session
  imports Client_Handler
begin

text \<open>
  What the client's operations achieve: the outcome of the handshake, the writes and flushes that
  are posted, the end of the waiting loops, and the ownership of operations, stack frames and
  library objects over the life of a client.
\<close>

subsection \<open>Frames captured by callbacks\<close>

fun frame_of :: "callback \<Rightarrow> nat option" where
  "frame_of (Init_replica_done i) = Some i"
| "frame_of (Close_replica_done i) = Some i"
| "frame_of (User_callback i) = Some i"
| "frame_of cb = None"

definition refs :: "ClientHandler \<Rightarrow> (ptr \<times> nat) set" where
  "refs h = {(p, i). \<exists>x. op_heap h p = Some x \<and> frame_of (func x) = Some i}"

definition waiting :: "ClientHandler \<Rightarrow> nat set" where
  "waiting h = {i. \<exists>fr. cl_frames h i = Some fr \<and> \<not> fr_completed fr}"

text \<open>
  An operation whose callback captures a frame is the only one to do so, and the frame is alive
  and has not been marked as completed.
\<close>

definition frames_inv :: "ClientHandler \<Rightarrow> bool" where
  "frames_inv h \<longleftrightarrow>
     snd ` refs h \<subseteq> waiting h \<and> inj_on snd (refs h) \<and> dom (cl_frames h) \<subseteq> {..<cl_next_frame h}"

lemma refs_mono:
  assumes "frames_inv h" and "refs h' \<subseteq> refs h" and "cl_frames h' = cl_frames h" "cl_next_frame h' = cl_next_frame h"
  shows "frames_inv h'"
  using assms unfolding frames_inv_def by (auto simp: waiting_def intro: inj_on_subset)

lemma refs_post:
  assumes "new_op k cb h = (p, h1)"
  shows "refs (settle_op p ret h1) \<subseteq> refs h \<union> {(p, i) | i. frame_of cb = Some i}"
    and "cl_frames (settle_op p ret h1) = cl_frames h" and "cl_next_frame (settle_op p ret h1) = cl_next_frame h"
  using assms by (auto simp: refs_def new_op_def settle_op_def delete_op_def split: if_splits)

text \<open>Posting an operation with no frame, or with a frame that was just pushed.\<close>

lemma frames_inv_post_none:
  assumes "frames_inv h" and "frame_of cb = None" and "new_op k cb h = (p, h1)"
  shows "frames_inv (settle_op p ret h1)"
  by (rule refs_mono [OF assms(1)]) (use refs_post [OF assms(3), of ret] assms(2) in auto)

lemma pushed_frame:
  assumes "push_frame h = (i, h1)"
  shows "i = cl_next_frame h" "refs h1 = refs h" "waiting h1 = insert i (waiting h)"
    "dom (cl_frames h1) = insert i (dom (cl_frames h))" "cl_next_frame h1 = Suc i"
  using assms by (auto simp: push_frame_def refs_def waiting_def split: if_splits)

lemma frames_inv_pushed:
  assumes "frames_inv h" and "push_frame h = (i, h1)"
  shows "frames_inv h1"
  using assms(1) pushed_frame [OF assms(2)] by (auto simp: frames_inv_def)

lemma frames_inv_push:
  assumes inv: "frames_inv h" and push: "push_frame h = (i, h1)" and cb: "frame_of cb = Some i"
    and post: "new_op k cb h1 = (p, h2)"
  shows "frames_inv (settle_op p ret h2)"
proof -
  let ?h = "settle_op p ret h2"
  note i = pushed_frame [OF push]
  have "i \<notin> snd ` refs h"
    using inv by (auto simp: frames_inv_def waiting_def i(1))
  moreover have sub: "refs ?h \<subseteq> insert (p, i) (refs h)"
    using refs_post(1) [OF post, of ret] cb i(2) by auto
  ultimately have "inj_on snd (refs ?h)"
    using inv by (intro inj_on_subset [OF _ sub]) (auto simp: frames_inv_def)
  moreover have "snd ` refs ?h \<subseteq> insert i (waiting h)"
    using image_mono [OF sub, of snd] inv by (auto simp: frames_inv_def)
  moreover have "waiting ?h = waiting h1"
    using refs_post(2) [OF post, of ret] by (simp add: waiting_def)
  ultimately show ?thesis
    using inv refs_post(2,3) [OF post, of ret] i by (auto simp: frames_inv_def)
qed

lemma frames_inv_send:
  assumes "frames_inv h" and "ConnectionHandler_send e No_callback h tr = (ret, h', tr')"
  shows "frames_inv h'"
  using assms frames_inv_post_none [of h No_callback]
  by (auto simp: ConnectionHandler_send_def Let_def split: prod.splits)

lemma frames_inv_message:
  assumes "frames_inv h" and "put_message bl h = (r, h')"
  shows "frames_inv h'"
  by (rule refs_mono [OF assms(1)]) (use assms(2) in \<open>auto simp: put_message_def refs_def split: if_splits\<close>)

lemma frames_inv_request:
  assumes "frames_inv h" and "\<And>i. frame_of (cb i) = Some i" and "post_request e bl cb h tr = (r, h', tr')"
  shows "frames_inv h'"
proof -
  obtain r1 h1 where m: "put_message bl h = (r1, h1)" by (metis prod.exhaust)
  have i1: "frames_inv h1" using frames_inv_message [OF assms(1) m] .
  obtain i h2 where q: "push_frame h1 = (i, h2)" by (metis prod.exhaust)
  have "frames_inv h3" if "ConnectionHandler_recv e (cb i) h2 tr = (ret, h3, tr3)" for ret h3 tr3
    using that frames_inv_push [OF i1 q assms(2)]
    by (auto simp: ConnectionHandler_recv_def Let_def split: prod.splits)
  with i1 m q assms(3) show ?thesis
    by (auto simp: post_request_def split: prod.splits sum.splits dest: frames_inv_send)
qed

text \<open>
  A completed operation: its callback finds the frame alive; after the operation is deleted
  nothing refers to the frame, so the function that waits may return.
\<close>

lemma refs_delete: "refs (delete_op p h) = {(q, i) \<in> refs h. q \<noteq> p}"
  by (auto simp: refs_def delete_op_def split: if_splits)

lemma delete_op_frames [simp]:
  "cl_frames (delete_op p h) = cl_frames h" "cl_next_frame (delete_op p h) = cl_next_frame h"
  by (simp_all add: delete_op_def)

lemma frames_inv_delete: "frames_inv h \<Longrightarrow> frames_inv (delete_op p h)"
  by (rule refs_mono) (auto simp: refs_delete)

lemma set_completed_frames:
  assumes inv: "frames_inv h" and p: "(p, i) \<in> refs h" and run: "set_completed i upd h = (r, h')"
  shows "r = Inr () \<and> frames_inv (delete_op p h')"
proof -
  obtain fr where fr: "cl_frames h i = Some fr"
    using inv p by (force simp: frames_inv_def waiting_def)
  then have h': "h' = h\<lparr>cl_frames := (cl_frames h)(i \<mapsto> (upd fr)\<lparr>fr_completed := True\<rparr>)\<rparr>" and r: "r = Inr ()"
    using run by (simp_all add: set_completed_def)
  let ?h = "delete_op p h'"
  have refs: "refs ?h = {(q, j) \<in> refs h. q \<noteq> p}"
    by (simp add: refs_delete) (simp add: h' refs_def)
  then have "i \<notin> snd ` refs ?h"
    using inv p by (force simp: frames_inv_def inj_on_def)
  moreover have "waiting ?h = waiting h - {i}"
    by (auto simp: waiting_def h' delete_op_def split: if_splits)
  ultimately have "snd ` refs ?h \<subseteq> waiting ?h"
    using inv refs by (auto simp: frames_inv_def)
  moreover have "inj_on snd (refs ?h)"
    using inv refs by (auto simp: frames_inv_def intro: inj_on_subset)
  moreover have "dom (cl_frames ?h) \<subseteq> {..<cl_next_frame ?h}"
    using inv fr by (auto simp: frames_inv_def h' delete_op_def split: if_splits)
  ultimately show ?thesis using r by (simp add: frames_inv_def)
qed

lemma frames_inv_leave:
  assumes "frames_inv h" and "i \<notin> waiting h"
  shows "frames_inv (pop_frame i h)"
proof -
  have "refs (pop_frame i h) = refs h" and "waiting (pop_frame i h) = waiting h - {i}"
    by (auto simp: pop_frame_def refs_def waiting_def split: if_splits)
  then show ?thesis
    using assms by (auto simp: frames_inv_def pop_frame_def split: if_splits)
qed

subsection \<open>Events of a client\<close>

lemma get_remote_descriptor_frames:
  assumes "ClientHandler_get_remote_descriptor e c h tr = (r, h', tr')"
  shows "op_heap h' = op_heap h \<and> cl_frames h' = cl_frames h \<and> cl_next_frame h' = cl_next_frame h"
  using assms
  by (auto simp: ClientHandler_get_remote_descriptor_def Let_def
      split: option.splits prod.splits if_splits sum.splits)

lemma get_remote_descriptor_failure:
  assumes "ClientHandler_get_remote_descriptor e c h tr = (Inl f, h', tr')"
  shows "f \<in> {Buffer_error, Out_of_range}"
  using assms
  by (auto simp: ClientHandler_get_remote_descriptor_def apply_remote_pcfg_def str_read_def Let_def
      split: option.splits prod.splits if_splits sum.splits)

text \<open>
  Running the callback of an operation of the heap: it fails only when the message is
  malformed, and once the operation is deleted the invariant holds again.
\<close>

lemma client_callback_frames:
  assumes inv: "frames_inv h" and p: "op_heap h p = Some x"
    and run: "RpmaOp_do_callback (ClientHandler_run e c) x h tr = (r, h', tr')"
  shows "frames_inv (delete_op p h') \<and> (\<forall>f. r = Inl f \<longrightarrow> f \<in> {Buffer_error, Out_of_range})"
proof (cases "func x")
  case (Init_replica_done i)
  obtain r1 h1 tr1 where g: "ClientHandler_get_remote_descriptor e c h tr = (r1, h1, tr1)"
    by (metis prod_cases3)
  note fr = get_remote_descriptor_frames [OF g]
  have i1: "frames_inv h1" and r1: "(p, i) \<in> refs h1"
    using refs_mono [OF inv, of h1] fr p Init_replica_done by (auto simp: refs_def)
  show ?thesis
  proof (cases r1)
    case (Inl f)
    then have "r = Inl f" and "h' = h1"
      using run Init_replica_done g by (simp_all add: RpmaOp_do_callback_def ClientHandler_run_def)
    with get_remote_descriptor_failure [OF g [unfolded Inl]] frames_inv_delete [OF i1] show ?thesis by simp
  next
    case (Inr v)
    obtain r2 h2 where s: "set_completed i id h1 = (r2, h2)" by (metis prod.exhaust)
    with run Init_replica_done g Inr have "r = r2" and "h' = h2"
      by (simp_all add: RpmaOp_do_callback_def ClientHandler_run_def)
    with set_completed_frames [OF i1 r1 s] show ?thesis by simp
  qed
next
  case (Close_replica_done i)
  then have rp: "(p, i) \<in> refs h" using p by (auto simp: refs_def)
  show ?thesis
    using run Close_replica_done frames_inv_delete [OF inv]
    by (auto simp: RpmaOp_do_callback_def ClientHandler_run_def split: option.splits prod.splits
        dest!: set_completed_frames [OF inv rp])
next
  case (User_callback i)
  then have rp: "(p, i) \<in> refs h" using p by (auto simp: refs_def)
  show ?thesis
    using run User_callback
    by (auto simp: RpmaOp_do_callback_def ClientHandler_run_def split: prod.splits
        dest!: set_completed_frames [OF inv rp])
qed (use run inv frames_inv_delete in \<open>auto simp: RpmaOp_do_callback_def ClientHandler_run_def\<close>)

lemma client_completion_frames:
  assumes inv: "frames_inv h" and ops: "ops_inv {} h" and ok: "completion_ok e h tr"
    and run: "ConnectionHandler_handle_completion e (ClientHandler_run e c) h tr = (r, h', tr')"
  shows "frames_inv h' \<and> (\<forall>f. r = Inl f \<longrightarrow> f \<in> {Buffer_error, Out_of_range})"
proof -
  let ?c = "rc_conn (ch_conn h)"
  obtain ret cmpl where g: "e_conn_completion_get (conn_of e) (tr @ [Conn (Ev_conn_completion_wait ?c 0)]) ?c = (ret, cmpl)"
    by (metis prod.exhaust)
  have same: "frames_inv h2" if "op_heap h2 = op_heap h" "cl_frames h2 = cl_frames h" "cl_next_frame h2 = cl_next_frame h" for h2
    using refs_mono [OF inv, of h2] that by (simp add: refs_def)
  show ?thesis
  proof (cases "e_conn_completion_wait (conn_of e) tr ?c = 0 \<and> ret = 0 \<and> op_status cmpl = IBV_WC_SUCCESS \<and>
      op_context cmpl \<noteq> None")
    case False
    then show ?thesis
      using run g inv same
      by (auto simp: ConnectionHandler_handle_completion_def env_simps obj_defs split: if_splits option.splits)
  next
    case True
    then obtain p where p: "op_context cmpl = Some p" "p \<in> callback_table h"
      using ok g by (auto simp: completion_ok_def Let_def)
    then obtain x where x: "op_heap h p = Some x" using ops by (auto simp: ops_inv_def)
    let ?h1 = "h\<lparr>callback_table := callback_table h - {p}\<rparr>"
    let ?tr2 = "tr @ [Conn (Ev_conn_completion_wait ?c 0), Conn (Ev_conn_completion_get ?c (0, cmpl))]"
    obtain r2 h2 tr3 where d: "RpmaOp_do_callback (ClientHandler_run e c) x ?h1 ?tr2 = (r2, h2, tr3)"
      by (metis prod_cases3)
    have "r = map_sum id (\<lambda>_. 0) r2" and "h' = delete_op p h2"
      using run True g p(1) x d
      by (auto simp: ConnectionHandler_handle_completion_def env_simps obj_defs)
    moreover have "frames_inv ?h1" and "op_heap ?h1 p = Some x"
      using same [of ?h1] x by simp_all
    ultimately show ?thesis
      using client_callback_frames [OF _ _ d] by (cases r2) auto
  qed
qed

subsection \<open>Resources of a client\<close>

definition client_inv :: "footprint \<Rightarrow> ClientHandler \<Rightarrow> trace \<Rightarrow> bool" where
  "client_inv F h tr \<longleftrightarrow>
     live_blocks tr = fp_blocks F \<and>
     holds_mrs F (opt_list (cl_data_mr h) @ buffer_mrs h) tr \<and>
     holds_conn F (rc_conn (ch_conn h)) tr"

definition same_client :: "ClientHandler \<Rightarrow> ClientHandler \<Rightarrow> bool" where
  "same_client h h' \<longleftrightarrow>
     cl_data_mr h' = cl_data_mr h \<and> recv_mr h' = recv_mr h \<and> send_mr h' = send_mr h \<and>
     rc_conn (ch_conn h') = rc_conn (ch_conn h)"

lemma client_inv_quiet:
  assumes "client_inv F h tr" and "same_client h h'" and "quiet tr tr'"
  shows "client_inv F h' tr'"
  using assms holds_quiet [OF assms(3)] quiet_live [OF assms(3)]
  by (simp add: client_inv_def same_client_def buffer_mrs_def)

lemma same_client_trans: "same_client h1 h2 \<Longrightarrow> same_client h2 h3 \<Longrightarrow> same_client h1 h3"
  by (simp add: same_client_def)

lemma same_client_settle: "new_op k cb h = (p, h1) \<Longrightarrow> same_client h (settle_op p ret h1)"
  by (auto simp: same_client_def new_op_def settle_op_def delete_op_def)

lemma request_quiet:
  assumes "post_request e bl cb h tr = (r, h', tr')"
  shows "same_client h h' \<and> quiet tr tr'"
  using assms
  by (auto simp: post_request_def put_message_def push_frame_def ConnectionHandler_recv_def
      ConnectionHandler_send_def new_op_def settle_op_def delete_op_def same_client_def env_simps
      split: if_splits)

lemma access_quiet:
  "ClientHandler_write e off len cb h tr = (r, h', tr') \<Longrightarrow> same_client h h' \<and> quiet tr tr'"
  "ClientHandler_flush e off len cb h tr = (r, h', tr') \<Longrightarrow> same_client h h' \<and> quiet tr tr'"
  by (auto simp: ClientHandler_write_def ClientHandler_flush_def new_op_def settle_op_def delete_op_def
      same_client_def env_simps split: if_splits)

lemma quiet_appendI: "quiet tr tr1 \<Longrightarrow> \<forall>ev \<in> set evs. quiet_event ev \<Longrightarrow> quiet tr (tr1 @ evs)"
  by (auto simp: quiet_def)

lemma apply_remote_pcfg_quiet: "apply_remote_pcfg e d h tr = (dw, tr1) \<Longrightarrow> quiet tr tr1"
  by (auto simp: apply_remote_pcfg_def env_simps split: if_splits sum.splits prod.splits)

lemma get_remote_descriptor_quiet:
  assumes "ClientHandler_get_remote_descriptor e c h tr = (r, h', tr')"
  shows "same_client h h' \<and> quiet tr tr'"
  using assms
  by (auto simp: ClientHandler_get_remote_descriptor_def same_client_def env_simps Let_def
      split: option.splits prod.splits if_splits sum.splits
      dest!: apply_remote_pcfg_quiet intro!: quiet_appendI)

lemma client_run_quiet:
  assumes "ClientHandler_run e c cb h tr = (r, h', tr')"
  shows "same_client h h' \<and> quiet tr tr'"
proof -
  have "same_client h1 h2" if "set_completed i upd h1 = (q, h2)" for i upd h1 q h2
    using that by (auto simp: set_completed_def same_client_def split: option.splits)
  then show ?thesis
    using assms get_remote_descriptor_quiet same_client_trans
    by (cases cb) (fastforce simp: ClientHandler_run_def same_client_def split: option.splits prod.splits sum.splits)+
qed

lemma client_completion_quiet:
  assumes "ConnectionHandler_handle_completion e (ClientHandler_run e c) h tr = (r, h', tr')"
  shows "same_client h h' \<and> quiet tr tr'"
proof -
  have step: "same_client h1 (delete_op p h2) \<and> quiet tr1 tr2"
    if "RpmaOp_do_callback (ClientHandler_run e c) x h1 tr1 = (q, h2, tr2)" for x h1 tr1 q h2 tr2 p
    using that client_run_quiet
    by (auto simp: RpmaOp_do_callback_def same_client_def delete_op_def split: if_splits)
  show ?thesis
    using assms
    by (auto simp: ConnectionHandler_handle_completion_def env_simps obj_defs Let_def same_client_def
        split: if_splits option.splits prod.splits dest!: step intro: quiet_trans [rotated])
qed

lemma client_handle_quiet:
  assumes "ClientHandler_handle e c i et h ro tr = (r, h', ro', tr')"
  shows "same_client h h' \<and> quiet tr tr'"
  using assms
  by (auto simp: ClientHandler_handle_def ConnectionHandler_handle_def same_client_def
      ConnectionHandler_handle_connection_event_def ClientHandler_remove_self_def env_simps obj_defs Let_def
      split: prod.splits if_splits dest!: quiet_remove_pair client_completion_quiet intro: quiet_trans [rotated])

lemma client_destroy_releases:
  assumes "ops_inv {} h" and inv: "client_inv F h tr" and run: "ClientHandler_destroy e h tr = (r, h', tr')"
  shows "all_released F tr' \<and> r = Inr () \<and> op_heap h' = Map.empty \<and> callback_table h' = {}"
proof -
  let ?h1 = "h\<lparr>cl_data_mr := None\<rparr>"
  let ?tr1 = "unique_delete RpmaMRDeleter (cl_data_mr h) tr"
  obtain r1 h1 tr2 where d: "ConnectionHandler_destroy e ?h1 ?tr1 = (r1, h1, tr2)" by (metis prod_cases3)
  have "holds_mrs F (buffer_mrs h) ?tr1"
    using inv by (auto simp: client_inv_def intro: holds_mrs_dereg)
  then have "all_released F tr2"
    using base_destroy_releases [OF _ _ _ _ d, of F] assms(1) inv
    by (simp add: client_inv_def buffer_mrs_def holds_conn_def)
  moreover have "quiet tr2 tr'"
    using run d by (cases "ch_peer h1") (auto simp: ClientHandler_destroy_def RpmaPeerDeleter_def env_simps)
  moreover have "ops_inv {} ?h1" using assms(1) by simp
  ultimately show ?thesis
    using destroy_frees_ops [OF _ d] quiet_live run d by (auto simp: all_released_def ClientHandler_destroy_def)
qed

definition client_outcome :: "footprint \<Rightarrow> ClientHandler result \<times> trace \<Rightarrow> bool" where
  "client_outcome F x =
     (case x of (Inr h, tr) \<Rightarrow> client_inv F h tr \<and> ops_inv {} h \<and> frames_inv h | (Inl f, tr) \<Rightarrow> all_released F tr)"

lemma client_outcome_throw:
  assumes "ops_inv {} h" and "client_inv F h tr"
  shows "client_outcome F (client_throw e f h tr)"
  using client_destroy_releases [OF assms, of e]
  by (auto simp: client_outcome_def client_throw_def split: prod.splits)

lemma client_conn_req_quiet: "client_conn_req e peer addr port tr = (q, tr') \<Longrightarrow> quiet tr tr'"
  by (auto simp: client_conn_req_def env_simps Let_def split: if_splits prod.splits)

lemma client_connect:
  assumes "objects_fresh e" and "client_inv F h tr" and "rc_conn (ch_conn h) = None"
    and "rpma_conn_req_connect e q tr = ((ret, q', conn), tr')"
  shows "if ret = 0 then client_inv F (h\<lparr>ch_conn := RpmaConn_reset conn (ch_conn h)\<rparr>) tr'
         else client_inv F h tr'"
proof -
  have r: "e_conn_req_connect (setup_of e) tr q = (ret, q', conn)"
      "tr' = tr @ [Setup (Ev_conn_req_connect q (ret, q', conn))]"
    using assms(4) by (auto simp: env_simps)
  have "live_conns tr = fp_conns F"
    using assms(2,3) by (simp add: client_inv_def holds_conn_def)
  with assms(2,3) objects_freshD(2) [OF assms(1) r(1)] show ?thesis
    by (cases conn) (auto simp: r(2) client_inv_def holds_conn_def holds_mrs_def
        buffer_mrs_def RpmaConn_reset_def)
qed

lemma client_buffers_frame:
  assumes "ConnectionHandler_init_send_recv_buffer e h tr = (r, h', tr')"
  shows "cl_data_mr h' = cl_data_mr h \<and> ch_conn h' = ch_conn h \<and> op_heap h' = op_heap h \<and>
         cl_frames h' = cl_frames h \<and> cl_next_frame h' = cl_next_frame h"
  using assms by (auto simp: ConnectionHandler_init_send_recv_buffer_def Let_def split: prod.splits if_splits)

lemma client_conn_fd_quiet:
  assumes "ConnectionHandler_init_conn_fd e h tr = (r, h', tr')"
  shows "same_client h h' \<and> quiet tr tr' \<and> op_heap h' = op_heap h \<and>
         cl_frames h' = cl_frames h \<and> cl_next_frame h' = cl_next_frame h"
  using assms
  by (auto simp: ConnectionHandler_init_conn_fd_def env_simps same_client_def Let_def
      split: if_splits option.splits prod.splits)

lemma peer_quiet: "common_peer_via_address e addr ty tr = (r, tr') \<Longrightarrow> quiet tr tr'"
  by (auto simp: common_peer_via_address_def env_simps split: if_splits prod.splits)

lemma client_connect_outcome:
  assumes fresh: "objects_fresh e" and inv: "client_inv F h tr" and ops: "ops_inv {} h" and fr: "frames_inv h"
    and none: "rc_conn (ch_conn h) = None"
  shows "client_outcome F (client_connect_req e req h tr)"
proof -
  obtain ret req2 conn tr1 where k: "rpma_conn_req_connect e req tr = ((ret, req2, conn), tr1)"
    by (metis prod.exhaust)
  note i1 = client_connect [OF fresh inv none k]
  let ?h1 = "h\<lparr>ch_conn := RpmaConn_reset conn (ch_conn h)\<rparr>"
  obtain r h2 tr2 where f: "ConnectionHandler_init_conn_fd e ?h1 tr1 = (r, h2, tr2)" by (metis prod_cases3)
  note q = client_conn_fd_quiet [OF f]
  have o2: "ops_inv {} h2" using init_conn_fd_ops [OF f] ops by simp
  have f2: "frames_inv h2" by (rule refs_mono [OF fr]) (use q in \<open>auto simp: refs_def\<close>)
  have i2: "client_inv F h2 tr2" if "ret = 0"
    using client_inv_quiet [of F ?h1 tr1 h2 tr2] i1 q that by simp
  have drop: "client_inv F h (tr1 @ [Setup (Ev_conn_req_delete req2)])" if "ret \<noteq> 0"
    by (rule client_inv_quiet [of F h tr1]) (use i1 that in \<open>simp_all add: same_client_def\<close>)
  have "client_outcome F (case r of Inl f \<Rightarrow> client_throw e f h2 tr2 | Inr _ \<Rightarrow> (Inr h2, tr2))" if "ret = 0"
    using i2 [OF that] o2 f2 by (cases r) (simp_all add: client_outcome_throw, simp add: client_outcome_def)
  with i1 ops drop show ?thesis
    by (auto simp: client_connect_req_def k f log_event_def client_outcome_throw)
qed

lemma new_client_outcome:
  assumes fresh: "objects_fresh e"
  shows "client_outcome (footprint tr0) (ClientHandler_new e j addr port tr0)"
proof -
  let ?h0 = "ClientHandler_default j addr port"
  obtain ret peer tr1 where p: "common_peer_via_address e addr RPMA_UTIL_IBV_CONTEXT_REMOTE tr0 = ((ret, peer), tr1)"
    by (metis prod.exhaust)
  let ?h1 = "?h0\<lparr>ch_peer := peer\<rparr>"
  have h0: "cl_data_mr ?h0 = None" "rc_conn (ch_conn ?h0) = None" "recv_mr ?h0 = None" "send_mr ?h0 = None"
      "op_heap ?h0 = Map.empty" "cl_frames ?h0 = Map.empty" "callback_table ?h0 = {}"
    by (simp_all add: ClientHandler_default_def ConnectionHandler.extend_def ConnectionHandler_new_def
        RpmaConn_default_def)
  have o0: "ops_inv {} ?h0" "ops_inv {} ?h1" using h0 by (simp_all add: ops_inv_def)
  have i0: "client_inv (footprint tr0) ?h0 tr1" "holds_mrs (footprint tr0) [] tr1"
    using h0 holds_quiet [OF peer_quiet [OF p]] quiet_live [OF peer_quiet [OF p]]
    by (simp_all add: client_inv_def buffer_mrs_def)
  obtain r2 h2 tr2 where b: "ConnectionHandler_init_send_recv_buffer e ?h1 tr1 = (r2, h2, tr2)"
    by (metis prod_cases3)
  have none: "recv_mr ?h1 = None" "send_mr ?h1 = None" using h0 by simp_all
  note fr = client_buffers_frame [OF b]
  have i2: "client_inv (footprint tr0) h2 tr2" and o2: "ops_inv {} h2"
    using buffers_held [OF fresh i0(2) none b] fr h0 i0(1) init_buffer_ops [OF b] o0
    by (simp_all add: client_inv_def holds_conn_def)
  obtain q tr3 where k: "client_conn_req e peer addr port tr2 = (q, tr3)" by (metis prod.exhaust)
  have i3: "client_inv (footprint tr0) h2 tr3"
    by (rule client_inv_quiet [OF i2 _ client_conn_req_quiet [OF k]]) (simp add: same_client_def)
  have "frames_inv h2" using fr h0 by (simp add: frames_inv_def refs_def)
  then have "client_outcome (footprint tr0) (client_connect_req e req h2 tr3)" for req
    using client_connect_outcome [OF fresh i3 o2] fr h0 by simp
  with i0 i2 i3 o0 o2 show ?thesis
    by (cases r2; cases q) (simp_all add: ClientHandler_new_def p b k Let_def client_outcome_throw)
qed

lemma set_head_inv:
  assumes fresh: "objects_fresh e" and inv: "client_inv F h tr"
    and run: "ClientHandler_set_head e head sz h tr = (r, h', tr')"
  shows "client_inv F h' tr'"
proof -
  obtain ret mr where g: "e_mr_reg (mr_of e) tr (ch_peer h) head sz RPMA_MR_USAGE_WRITE_SRC = (ret, mr)"
    by (metis prod.exhaust)
  let ?tr1 = "tr @ [Mr (Ev_mr_reg (ch_peer h) head sz RPMA_MR_USAGE_WRITE_SRC (ret, mr))]"
  have m1: "holds_mrs F (opt_list mr @ opt_list (cl_data_mr h) @ buffer_mrs h) ?tr1"
    using holds_mrs_reg [OF fresh _ g] inv by (simp add: client_inv_def)
  then have "holds_mrs F (opt_list (cl_data_mr h) @ opt_list mr @ buffer_mrs h) ?tr1"
    by (rule holds_mrs_perm [THEN iffD1, rotated 2]) auto
  then have m2: "holds_mrs F (opt_list mr @ buffer_mrs h) (unique_delete RpmaMRDeleter (cl_data_mr h) ?tr1)"
    by (rule holds_mrs_dereg)
  have rest: "live_blocks ?tr1 = fp_blocks F" "holds_conn F (rc_conn (ch_conn h)) ?tr1"
    using inv by (cases mr; simp add: client_inv_def holds_conn_def)+
  have "ret \<noteq> 0 \<Longrightarrow> mr = None" using objects_freshD(1) [OF fresh g] by simp
  then show ?thesis
    using run g m1 m2 rest
    by (auto simp: ClientHandler_set_head_def env_simps client_inv_def buffer_mrs_def holds_conn_def Let_def
        split: if_splits)
qed

subsection \<open>The life of a client\<close>

text \<open>
  What the two threads of a client do, interleaved in any order: the reactor's thread handles
  events; the application registers its buffer, posts accesses with a callback that captures a
  new frame, posts requests, leaves a function whose frame nobody waits for any more, and
  disconnects.
\<close>

inductive client_session :: "env \<Rightarrow> ceph_codec \<Rightarrow> trace \<Rightarrow> ClientHandler \<Rightarrow> trace \<Rightarrow> bool" for e c tr0 where
  start: "ClientHandler_new e j addr port tr0 = (Inr h, tr) \<Longrightarrow> client_session e c tr0 h tr"
| deliver: "client_session e c tr0 h tr \<Longrightarrow> client_session e c tr0 (h\<lparr>recv_bl := msg\<rparr>) tr"
| event: "\<lbrakk>client_session e c tr0 h tr; completion_ok e h tr;
     ClientHandler_handle e c i et h ro tr = (r, h', ro', tr')\<rbrakk> \<Longrightarrow> client_session e c tr0 h' tr'"
| head: "\<lbrakk>client_session e c tr0 h tr; ClientHandler_set_head e p sz h tr = (v, h', tr')\<rbrakk>
     \<Longrightarrow> client_session e c tr0 h' tr'"
| post_write: "\<lbrakk>client_session e c tr0 h tr; push_frame h = (i, h1);
     ClientHandler_write e off len (User_callback i) h1 tr = (r, h', tr')\<rbrakk> \<Longrightarrow> client_session e c tr0 h' tr'"
| post_flush: "\<lbrakk>client_session e c tr0 h tr; push_frame h = (i, h1);
     ClientHandler_flush e off len (User_callback i) h1 tr = (r, h', tr')\<rbrakk> \<Longrightarrow> client_session e c tr0 h' tr'"
| post_init: "\<lbrakk>client_session e c tr0 h tr;
     post_request e bl Init_replica_done (h\<lparr>cl_image_size := n\<rparr>) tr = (q, h', tr')\<rbrakk> \<Longrightarrow> client_session e c tr0 h' tr'"
| post_close: "\<lbrakk>client_session e c tr0 h tr; post_request e bl Close_replica_done h tr = (q, h', tr')\<rbrakk>
     \<Longrightarrow> client_session e c tr0 h' tr'"
| leave: "\<lbrakk>client_session e c tr0 h tr; i \<notin> waiting h\<rbrakk> \<Longrightarrow> client_session e c tr0 (pop_frame i h) tr"
| disconnect: "\<lbrakk>client_session e c tr0 h tr; ClientHandler_disconnect e h tr = (v, h', tr')\<rbrakk>
     \<Longrightarrow> client_session e c tr0 h' tr'"

inductive_cases client_sessionE: "client_session e c tr0 h tr"

definition client_ok :: "footprint \<Rightarrow> ClientHandler \<Rightarrow> trace \<Rightarrow> bool" where
  "client_ok F h tr \<longleftrightarrow> client_inv F h tr \<and> ops_inv {} h \<and> frames_inv h"

text \<open>A step that neither posts nor completes anything.\<close>

lemma client_ok_fields:
  assumes "client_ok F h tr" and "client_inv F h' tr'" and "op_heap h' = op_heap h"
    and "callback_table h' = callback_table h" and "op_next h' = op_next h"
    and "cl_frames h' = cl_frames h" and "cl_next_frame h' = cl_next_frame h"
  shows "client_ok F h' tr'"
proof -
  have "refs h' = refs h" by (simp add: refs_def assms(3))
  then have "frames_inv h'" using refs_mono [of h h'] assms(1,6,7) by (simp add: client_ok_def)
  moreover have "ops_inv {} h'" using assms(1) by (simp add: client_ok_def ops_inv_def assms(3-5))
  ultimately show ?thesis using assms(2) by (simp add: client_ok_def)
qed

lemma client_ok_frame:
  assumes "client_ok F h tr" and "same_client h h'" and "quiet tr tr'" and "op_heap h' = op_heap h"
    and "callback_table h' = callback_table h" and "op_next h' = op_next h"
    and "cl_frames h' = cl_frames h" and "cl_next_frame h' = cl_next_frame h"
  shows "client_ok F h' tr'"
proof (rule client_ok_fields [OF assms(1) _ assms(4-8)])
  show "client_inv F h' tr'"
    using client_inv_quiet [OF _ assms(2,3)] assms(1) by (simp add: client_ok_def)
qed

lemma client_ok_access:
  assumes ok: "client_ok F h tr" and push: "push_frame h = (i, h1)"
  shows "ClientHandler_write e off len (User_callback i) h1 tr = (r, h', tr') \<Longrightarrow> client_ok F h' tr'"
    and "ClientHandler_flush e off len (User_callback i) h1 tr = (r, h', tr') \<Longrightarrow> client_ok F h' tr'"
proof -
  have ops: "ops_inv {} h1" and frames: "frames_inv h1"
    using ok push_frame_ops [OF push, of "{}"] frames_inv_pushed [OF _ push] by (simp_all add: client_ok_def)
  have same: "same_client h h1"
    using push by (auto simp: push_frame_def same_client_def)
  have post: "frames_inv (settle_op p ret h2)" if "new_op k (User_callback i) h1 = (p, h2)" for k p h2 ret
    using frames_inv_push [OF _ push _ that] ok by (simp add: client_ok_def)
  {
    assume w: "ClientHandler_write e off len (User_callback i) h1 tr = (r, h', tr')"
    have "frames_inv h'"
      using w frames post by (auto simp: ClientHandler_write_def Let_def split: if_splits prod.splits)
    moreover have "client_inv F h' tr'"
      using ok client_inv_quiet same_client_trans [OF same] access_quiet(1) [OF w]
      by (auto simp: client_ok_def)
    ultimately show "client_ok F h' tr'"
      using write_ops [OF ops w] by (simp add: client_ok_def)
  next
    assume w: "ClientHandler_flush e off len (User_callback i) h1 tr = (r, h', tr')"
    have "frames_inv h'"
      using w frames post by (auto simp: ClientHandler_flush_def Let_def split: if_splits prod.splits)
    moreover have "client_inv F h' tr'"
      using ok client_inv_quiet same_client_trans [OF same] access_quiet(2) [OF w]
      by (auto simp: client_ok_def)
    ultimately show "client_ok F h' tr'"
      using flush_ops [OF ops w] by (simp add: client_ok_def)
  }
qed

lemma client_ok_request:
  assumes "client_ok F h tr" and "\<And>i. frame_of (cb i) = Some i" and "post_request e bl cb h tr = (q, h', tr')"
  shows "client_ok F h' tr'"
  using assms(1) frames_inv_request [OF _ assms(2,3)] post_request_ops [OF _ assms(3)] request_quiet [OF assms(3)]
    client_inv_quiet
  by (auto simp: client_ok_def)

lemma client_ok_event:
  assumes ok: "client_ok F h tr" and cok: "completion_ok e h tr"
    and run: "ClientHandler_handle e c i et h ro tr = (r, h', ro', tr')"
  shows "client_ok F h' tr' \<and> (\<forall>f. r = Inl f \<longrightarrow> f \<in> {Buffer_error, Out_of_range})"
proof -
  have inv: "client_inv F h' tr'"
    using ok client_handle_quiet [OF run] client_inv_quiet by (auto simp: client_ok_def)
  show ?thesis
  proof (cases "et = COMPLETION_EVENT")
    case True
    then have q: "ConnectionHandler_handle_completion e (ClientHandler_run e c) h tr = (r, h', tr')"
      using run by (auto simp: ClientHandler_handle_def ConnectionHandler_handle_def split: prod.splits)
    have "ops_inv {} h" and "frames_inv h" using ok by (simp_all add: client_ok_def)
    with client_callbacks.completion_ops [OF _ cok q] client_completion_frames [OF _ _ cok q] inv
    show ?thesis by (simp add: client_ok_def)
  next
    case False
    then have "op_heap h' = op_heap h \<and> callback_table h' = callback_table h \<and> op_next h' = op_next h \<and>
        cl_frames h' = cl_frames h \<and> cl_next_frame h' = cl_next_frame h \<and> (\<exists>v. r = Inr v)"
      using run
      by (auto simp: ClientHandler_handle_def ConnectionHandler_handle_def Let_def
          ConnectionHandler_handle_connection_event_def split: prod.splits if_splits)
    with client_ok_frame [OF ok] client_handle_quiet [OF run] show ?thesis by auto
  qed
qed

lemma client_session_ok:
  assumes fresh: "objects_fresh e" and "client_session e c tr0 h tr"
  shows "client_ok (footprint tr0) h tr"
  using assms(2)
proof (induction rule: client_session.induct)
  case (start j addr port h tr)
  then show ?case
    using new_client_outcome [OF fresh, of tr0 j addr port] by (simp add: client_outcome_def client_ok_def)
next
  case (deliver h tr msg)
  show ?case
    by (rule client_ok_frame [OF deliver.IH]) (simp_all add: same_client_def)
next
  case (event h tr i et ro r h' ro' tr')
  then show ?case using client_ok_event by blast
next
  case (head h tr p sz v h' tr')
  have "client_inv (footprint tr0) h' tr'"
    using set_head_inv [OF fresh _ head(2)] head.IH by (simp add: client_ok_def)
  moreover have "op_heap h' = op_heap h \<and> callback_table h' = callback_table h \<and> op_next h' = op_next h \<and>
      cl_frames h' = cl_frames h \<and> cl_next_frame h' = cl_next_frame h"
    using head(2) by (auto simp: ClientHandler_set_head_def Let_def split: prod.splits if_splits)
  ultimately show ?case
    using client_ok_fields [OF head.IH, of h' tr'] by simp
next
  case (post_write h tr i h1 off len r h' tr')
  show ?case by (rule client_ok_access(1) [OF post_write.IH post_write(2,3)])
next
  case (post_flush h tr i h1 off len r h' tr')
  show ?case by (rule client_ok_access(2) [OF post_flush.IH post_flush(2,3)])
next
  case (post_init h tr bl n q h' tr')
  have "client_ok (footprint tr0) (h\<lparr>cl_image_size := n\<rparr>) tr"
    by (rule client_ok_frame [OF post_init.IH]) (simp_all add: same_client_def)
  then show ?case by (rule client_ok_request [OF _ _ post_init(2)]) simp
next
  case (post_close h tr bl q h' tr')
  show ?case by (rule client_ok_request [OF post_close.IH _ post_close(2)]) simp
next
  case (leave h tr i)
  have "client_inv (footprint tr0) (pop_frame i h) tr"
    using client_inv_quiet [of "footprint tr0" h tr "pop_frame i h" tr] leave
    by (simp add: client_ok_def same_client_def pop_frame_def)
  then show ?case
    using leave frames_inv_leave by (simp add: client_ok_def pop_frame_def)
next
  case (disconnect h tr v h' tr')
  show ?case
    by (rule client_ok_frame [OF disconnect.IH])
      (use disconnect(2) in \<open>auto simp: ClientHandler_disconnect_def same_client_def env_simps obj_defs\<close>)
qed

subsection \<open>Safety\<close>

text \<open>
  C17: Whatever the application and the reactor's thread of a client do, in any interleaving of
  whole operations, and whatever the server sends: handling an event fails only when the decoder
  rejects a message or the descriptor sizes in a reply exceed the descriptors; no callback
  touches a destroyed operation or the frame of a function that has returned, as long as the
  functions that wait return only after their frame is no longer waiting.
\<close>

theorem client_event_failures:
  assumes "objects_fresh e" and "client_session e c tr0 h tr" and "completion_ok e h tr"
    and "ClientHandler_handle e c i et h ro tr = (Inl f, h', ro', tr')"
  shows "f \<in> {Buffer_error, Out_of_range}"
  using client_ok_event [OF client_session_ok [OF assms(1,2)] assms(3,4)] by blast

definition demo_junk :: client_junk where
  "demo_junk = \<lparr>j_conn_fd = 0, j_comp_fd = 0, j_flush_type = RPMA_FLUSH_TYPE_VISIBILITY, j_data_header = None,
     j_image_size = 0, j_image_mr = None\<rparr>"

lemmas client_new_defs =
  ClientHandler_new_def client_conn_req_def client_connect_req_def common_peer_via_address_def
  ConnectionHandler_init_send_recv_buffer_def ConnectionHandler_init_conn_fd_def

lemma garbled_fresh: "objects_fresh garbled_env"
  using tracked_env_fresh(1) [of True] by (simp add: garbled_env_def objects_fresh_def)

lemma garbled_client:
  "\<exists>h tr. ClientHandler_new garbled_env demo_junk ''a'' ''p'' [] = (Inr h, tr) \<and> callback_table h = {} \<and> op_next h = 0"
  by (simp add: client_new_defs ClientHandler_default_def ConnectionHandler.extend_def ConnectionHandler_new_def
      garbled_env_def tracked_defs env_simps Let_def)

theorem client_event_failures_witness:
  "\<exists>h tr f h' ro' tr'. client_session garbled_env ceph_le [] h tr \<and>
     ClientHandler_handle garbled_env ceph_le 1 COMPLETION_EVENT h None tr = (Inl f, h', ro', tr') \<and>
     f \<in> {Buffer_error, Out_of_range}"
proof -
  obtain h0 tr0 where n: "ClientHandler_new garbled_env demo_junk ''a'' ''p'' [] = (Inr h0, tr0)"
    and h0: "callback_table h0 = {}" "op_next h0 = 0"
    using garbled_client by blast
  obtain q h1 tr where p: "post_request garbled_env [] Init_replica_done (h0\<lparr>cl_image_size := 0\<rparr>) tr0 = (q, h1, tr)"
    by (metis prod_cases3)
  then have h1: "0 \<in> callback_table h1" "\<exists>i. op_heap h1 0 = Some \<lparr>op_class = RpmaRecv, func = Init_replica_done i\<rparr>"
    using h0 by (auto simp: post_request_def put_message_def MSG_SIZE_def push_frame_def ConnectionHandler_recv_def
        ConnectionHandler_send_def new_op_def settle_op_def garbled_env_def tracked_defs env_simps Let_def)
  let ?h = "h1\<lparr>recv_bl := ''abc''\<rparr>"
  have s: "client_session garbled_env ceph_le [] ?h tr"
    by (intro client_session.deliver client_session.post_init [OF client_session.start [OF n] p])
  have ok: "completion_ok garbled_env ?h tr"
    using h1(1) by (simp add: completion_ok_def garbled_env_def)
  have "RwlReplicaInitRequestReply_decode ceph_le ''abc'' = None"
    by (simp add: RwlReplicaInitRequestReply_decode_def ceph_le_def le_decode_start_def le_decode_def)
  then have "fst (ClientHandler_handle garbled_env ceph_le 1 COMPLETION_EVENT ?h None tr) = Inl Buffer_error"
    using h1(2)
    by (auto simp: ClientHandler_handle_def ConnectionHandler_handle_def ConnectionHandler_handle_completion_def
        garbled_env_def demo_conn_def env_simps obj_defs IBV_WC_SUCCESS_def RpmaOp_do_callback_def
        ClientHandler_run_def ClientHandler_get_remote_descriptor_def)
  then obtain h' ro' tr' where
    run: "ClientHandler_handle garbled_env ceph_le 1 COMPLETION_EVENT ?h None tr = (Inl Buffer_error, h', ro', tr')"
    by (metis prod.collapse)
  from client_event_failures [OF garbled_fresh s ok run] s run show ?thesis by blast
qed

text \<open>
  C18: A client leaks nothing: after its destructor the registered regions and the connections
  are those from before its construction, and each operation object has been deleted once.
\<close>

theorem client_no_leak:
  assumes "objects_fresh e" and "client_session e c tr0 h tr"
    and "ClientHandler_destroy e h tr = (r, h', tr')"
  shows "r = Inr () \<and> live_blocks tr' = live_blocks tr0 \<and> live_mrs tr' = live_mrs tr0 \<and>
         live_conns tr' = live_conns tr0 \<and> op_heap h' = Map.empty \<and> callback_table h' = {}"
proof -
  have "client_inv (footprint tr0) h tr" and "ops_inv {} h"
    using client_session_ok [OF assms(1,2)] by (simp_all add: client_ok_def)
  then show ?thesis
    using client_destroy_releases [OF _ _ assms(3)] by (simp add: all_released_def)
qed

theorem client_no_leak_witness:
  "\<exists>h tr r h' tr'. client_session garbled_env ceph_le [] h tr \<and>
     ClientHandler_destroy garbled_env h tr = (r, h', tr') \<and> live_mrs tr' = live_mrs [] \<and> live_conns tr' = live_conns []"
proof -
  obtain h tr where n: "ClientHandler_new garbled_env demo_junk ''a'' ''p'' [] = (Inr h, tr)"
    using garbled_client by blast
  have s: "client_session garbled_env ceph_le [] h tr" by (rule client_session.start [OF n])
  obtain r h' tr' where d: "ClientHandler_destroy garbled_env h tr = (r, h', tr')" by (metis prod_cases3)
  from client_no_leak [OF garbled_fresh s d] s d show ?thesis by blast
qed

end
