(* ===== verification/Client_Operations.thy ===== *)
theory Client_Operations
  imports Client_Session
begin

text \<open>
  The client's operations one by one: what the handshake teaches the client, what a write and
  a flush post, when the waiting loops end, and what goes wrong when a reply comes late.
\<close>

subsection \<open>Descriptors received\<close>

text \<open>Which descriptor a remote region or configuration was created from, from the trace.\<close>

fun remote_apply :: "(ptr \<rightharpoonup> bytes) \<times> (ptr \<rightharpoonup> bytes) \<Rightarrow> event \<Rightarrow> (ptr \<rightharpoonup> bytes) \<times> (ptr \<rightharpoonup> bytes)" where
  "remote_apply (M, P) (Mr (Ev_mr_remote_from_descriptor bs (ret, Some m))) = (M(m \<mapsto> bs), P)"
| "remote_apply (M, P) (Mr (Ev_peer_cfg_from_descriptor bs (ret, Some p))) = (M, P(p \<mapsto> bs))"
| "remote_apply X ev = X"

definition remote_mr :: "trace \<Rightarrow> ptr \<rightharpoonup> bytes" where
  "remote_mr tr = fst (foldl remote_apply (Map.empty, Map.empty) tr)"

definition remote_cfg :: "trace \<Rightarrow> ptr \<rightharpoonup> bytes" where
  "remote_cfg tr = snd (foldl remote_apply (Map.empty, Map.empty) tr)"

lemma remote_append:
  "remote_mr (tr @ evs) = fst (foldl remote_apply (remote_mr tr, remote_cfg tr) evs)"
  "remote_cfg (tr @ evs) = snd (foldl remote_apply (remote_mr tr, remote_cfg tr) evs)"
  by (simp_all add: remote_mr_def remote_cfg_def)

text \<open>
  The documented success behaviour on the receiving side: any descriptor gives an object, which
  tells the size of the region it describes (\<open>rsize\<close>) or whether its peer supports direct
  writes to persistent memory (\<open>rdirect\<close>).
\<close>

definition client_descriptors :: "env \<Rightarrow> (bytes \<Rightarrow> u64) \<Rightarrow> (bytes \<Rightarrow> bool) \<Rightarrow> bool" where
  "client_descriptors e rsize rdirect \<longleftrightarrow>
     (\<forall>tr bs. \<exists>m. e_mr_remote_from_descriptor (mr_of e) tr bs = (0, Some m)) \<and>
     (\<forall>tr m bs. remote_mr tr m = Some bs \<longrightarrow> e_mr_remote_get_size (mr_of e) tr (Some m) = (0, rsize bs)) \<and>
     (\<forall>tr bs. \<exists>p. e_peer_cfg_from_descriptor (mr_of e) tr bs = (0, Some p)) \<and>
     (\<forall>tr p bs. remote_cfg tr p = Some bs \<longrightarrow> e_peer_cfg_get_direct_write (mr_of e) tr (Some p) = (0, Some (rdirect bs)))"

lemma client_descriptorsD:
  assumes "client_descriptors e rsize rdirect"
  shows "\<exists>m. e_mr_remote_from_descriptor (mr_of e) tr bs = (0, Some m)"
    and "remote_mr tr m = Some bs \<Longrightarrow> e_mr_remote_get_size (mr_of e) tr (Some m) = (0, rsize bs)"
    and "\<exists>p. e_peer_cfg_from_descriptor (mr_of e) tr bs = (0, Some p)"
    and "remote_cfg tr p = Some bs \<Longrightarrow> e_peer_cfg_get_direct_write (mr_of e) tr (Some p) = (0, Some (rdirect bs))"
  using assms unfolding client_descriptors_def by blast+

lemma str_read_parts:
  "str_read (xs @ ys) 0 (length xs) = Inr xs" "str_read (xs @ ys) (length xs) (length ys) = Inr ys"
  by (simp_all add: str_read_def)

lemma apply_remote_pcfg_ok:
  assumes d: "client_descriptors e rsize rdirect"
    and ds: "descriptors d = md @ pd" "mr_desc_size d = of_nat (length md)" "pcfg_desc_size d = of_nat (length pd)"
    and small: "length md + length pd < 2 ^ 32" and pd: "pd \<noteq> []"
  shows "\<exists>tr'. apply_remote_pcfg e d h tr = (Inr (rdirect pd), tr')"
proof -
  have n: "unat (of_nat (length md) :: u32) = length md" "unat (of_nat (length pd) :: u32) = length pd"
    using small by (simp_all add: unsigned_of_nat take_bit_nat_eq_self)
  then have ne: "pcfg_desc_size d \<noteq> 0" using pd ds by (metis length_0_conv unsigned_0)
  obtain p where p: "e_peer_cfg_from_descriptor (mr_of e) tr pd = (0, Some p)"
    using client_descriptorsD(3) [OF d] by blast
  let ?tr1 = "tr @ [Mr (Ev_peer_cfg_from_descriptor pd (0, Some p))]"
  have "e_peer_cfg_get_direct_write (mr_of e) ?tr1 (Some p) = (0, Some (rdirect pd))"
    by (rule client_descriptorsD(4) [OF d]) (simp add: remote_append)
  with ne p n ds show ?thesis
    by (simp add: apply_remote_pcfg_def str_read_parts env_simps)
qed

lemma read_reply:
  assumes c: "ceph_encoding c" and reply: "recv_bl h = RwlReplicaInitRequestReply_encode c reply @ rest"
    and t: "type_of reply = RWL_REPLICA_INIT_SUCCESSED"
    and d: "client_descriptors e rsize rdirect"
    and ds: "desc reply = \<lparr>mr_desc_size = of_nat (length md), pcfg_desc_size = of_nat (length pd), descriptors = md @ pd\<rparr>"
    and small: "28 + length md + length pd < 2 ^ 32" and pd: "pd \<noteq> []"
  shows "\<exists>m tr'. remote_mr tr' m = Some md \<and> ClientHandler_get_remote_descriptor e c h tr
    = (if rsize md < cl_image_size h then (Inr (-1), h\<lparr>cl_image_mr := Some m\<rparr>, tr')
       else (Inr 0, h\<lparr>cl_image_mr := Some m, cl_flush_type := (if rdirect pd then RPMA_FLUSH_TYPE_PERSISTENT
                                                             else RPMA_FLUSH_TYPE_VISIBILITY)\<rparr>, tr'))"
proof -
  have "length (RwlReplicaInitRequestReply_encode c reply) < 2 ^ 32"
    using small ds by (simp add: ceph_encoding.init_reply_length [OF c])
  then have dec: "RwlReplicaInitRequestReply_decode c (recv_bl h) = Some (reply, rest)"
    using reply by (simp add: ceph_encoding.init_reply_roundtrip [OF c])
  have n: "unat (of_nat (length md) :: u32) = length md"
    using small by (simp add: unsigned_of_nat take_bit_nat_eq_self)
  obtain tr1 where a: "apply_remote_pcfg e (desc reply) h tr = (Inr (rdirect pd), tr1)"
    using apply_remote_pcfg_ok [OF d, of "desc reply" md pd h tr] ds small pd by auto
  obtain m where m: "e_mr_remote_from_descriptor (mr_of e) tr1 md = (0, Some m)"
    using client_descriptorsD(1) [OF d] by blast
  let ?tr2 = "tr1 @ [Mr (Ev_mr_remote_from_descriptor md (0, Some m))]"
  have r: "remote_mr ?tr2 m = Some md" by (simp add: remote_append)
  let ?tr3 = "?tr2 @ [Mr (Ev_mr_remote_get_size (Some m) (0, rsize md))]"
  have "remote_mr ?tr3 m = Some md" using r by (simp add: remote_append)
  moreover have "e_mr_remote_get_size (mr_of e) ?tr2 (Some m) = (0, rsize md)"
    by (rule client_descriptorsD(2) [OF d r])
  ultimately show ?thesis
    using dec t ds n a m
    by (intro exI [of _ m] exI [of _ ?tr3])
      (simp add: ClientHandler_get_remote_descriptor_def str_read_parts env_simps)
qed

text \<open>The client's side of the demonstration environment; every remote region has \<open>n\<close> bytes.\<close>

definition client_env :: "u64 \<Rightarrow> env" where
  "client_env n = kernel_env\<lparr>mr_of := demo_mr\<lparr>
     e_mr_remote_get_size := (\<lambda>tr m. (0, n)),
     e_peer_cfg_get_direct_write := (\<lambda>tr p. (0, Some (Option.bind p (remote_cfg tr) = Some ''P'')))\<rparr>\<rparr>"

lemma client_env_descriptors: "client_descriptors (client_env n) (\<lambda>_. n) (\<lambda>bs. bs = ''P'')"
  by (auto simp: client_descriptors_def client_env_def demo_defs)

definition demo_reply :: RwlReplicaInitRequestReply where
  "demo_reply = \<lparr>type_of = RWL_REPLICA_INIT_SUCCESSED,
     desc = \<lparr>mr_desc_size = 2, pcfg_desc_size = 1, descriptors = ''MRP''\<rparr>\<rparr>"

definition waiting_client :: "u64 \<Rightarrow> bytes \<Rightarrow> ClientHandler" where
  "waiting_client n msg =
     (ClientHandler_default demo_junk ''a'' ''p'')\<lparr>ch_conn := RpmaConn_new (Some 9), recv_bl := msg, cl_image_size := n,
        cl_frames := [0 \<mapsto> \<lparr>fr_completed = False, fr_successed = False\<rparr>], cl_next_frame := 1,
        send_bl := replicate MSG_SIZE (CHR 0x00)\<rparr>"

lemma waiting_client_simps [simp]:
  "recv_bl (waiting_client n msg) = msg" "cl_image_size (waiting_client n msg) = n"
  "cl_frames (waiting_client n msg) = [0 \<mapsto> \<lparr>fr_completed = False, fr_successed = False\<rparr>]"
  "cl_flush_type (waiting_client n msg) = RPMA_FLUSH_TYPE_VISIBILITY"
  by (simp_all add: waiting_client_def ClientHandler_default_def ConnectionHandler.extend_def
      ConnectionHandler_new_def demo_junk_def)



text \<open>
  A region smaller than the requested image is detected but not reported: the callback of
  \<open>init_replica\<close> drops the return code -1 and marks the request as completed, so the
  waiting function returns 0, and the flush type keeps its old (at first uninitialised) value.
\<close>

theorem client_small_region_unnoticed:
  assumes "ceph_encoding c" and "recv_bl h = RwlReplicaInitRequestReply_encode c reply @ rest"
    and "type_of reply = RWL_REPLICA_INIT_SUCCESSED"
    and "client_descriptors e rsize rdirect"
    and "desc reply = \<lparr>mr_desc_size = of_nat (length md), pcfg_desc_size = of_nat (length pd), descriptors = md @ pd\<rparr>"
    and "28 + length md + length pd < 2 ^ 32" and "pd \<noteq> []" and "rsize md < cl_image_size h"
    and "cl_frames h i = Some fr"
  shows "\<exists>h' tr'. fst (ClientHandler_get_remote_descriptor e c h tr) = Inr (-1) \<and>
           ClientHandler_run e c (Init_replica_done i) h tr = (Inr (), h', tr') \<and>
           frame_completed i (h', tr') \<and> cl_flush_type h' = cl_flush_type h"
  using read_reply [OF assms(1-7), of tr] assms(8,9)
  by (auto simp: ClientHandler_run_def set_completed_def frame_completed_def)

theorem client_small_region_unnoticed_witness:
  "\<exists>h' tr'. ClientHandler_run (client_env 4096) ceph_le (Init_replica_done 0)
       (waiting_client 8192 (RwlReplicaInitRequestReply_encode ceph_le demo_reply)) [] = (Inr (), h', tr') \<and>
     frame_completed 0 (h', tr') \<and> cl_flush_type h' = RPMA_FLUSH_TYPE_VISIBILITY"
  using client_small_region_unnoticed [OF ceph_le.ceph_encoding_axioms _ _ client_env_descriptors,
      of "waiting_client 8192 (RwlReplicaInitRequestReply_encode ceph_le demo_reply)" demo_reply "[]" "''MR''" "''P''" 4096
         0 "\<lparr>fr_completed = False, fr_successed = False\<rparr>" "[]"]
  by (simp add: demo_reply_def)

subsection \<open>Writing and flushing\<close>

text \<open>What the callback table and the heap of operations are after a post.\<close>

definition posted :: "op_class \<Rightarrow> callback \<Rightarrow> int \<Rightarrow> ClientHandler \<Rightarrow> ClientHandler \<Rightarrow> bool" where
  "posted k cb ret h h' \<longleftrightarrow>
     (if ret = 0
      then callback_table h' = insert (op_next h) (callback_table h) \<and>
           op_heap h' = (op_heap h)(op_next h \<mapsto> \<lparr>op_class = k, func = cb\<rparr>)
      else callback_table h' = callback_table h \<and> op_heap h' = op_heap h)"

lemma settle_posted:
  assumes "op_heap h (op_next h) = None" and "new_op k cb h = (p, h1)"
  shows "posted k cb ret h (settle_op p ret h1)"
  using assms by (auto simp: posted_def new_op_def settle_op_def delete_op_def)

lemma next_op_unused: "ops_inv B h \<Longrightarrow> op_heap h (op_next h) = None"
  by (metis ops_inv_def less_irrefl)

text \<open>
  C26: \<open>write\<close> is correct on every branch: without a registered source or with more than one
  gibibyte the assertion stops it before anything is posted; otherwise exactly one write of the
  range \<open>[offset, offset + len)\<close> of the source to the same range of the image is posted,
  asking for a completion in every case; on success the operation and its callback are in the
  table, on failure the operation is deleted and the table is as before.
\<close>

theorem client_write_posts:
  assumes "ops_inv {} h"
  shows "if cl_data_mr h = None \<or> MAX_WRITE < len
         then ClientHandler_write e off len cb h tr = (Inl Assertion_failed, h, tr)
         else \<exists>ret h'. ClientHandler_write e off len cb h tr
                = (Inr ret, h', tr @ [Post (Ev_write (rc_conn (ch_conn h)) (cl_image_mr h) off (cl_data_mr h) off len
                                       RPMA_F_COMPLETION_ALWAYS (Some (op_next h)) ret)]) \<and>
              posted RpmaWrite cb ret h h'"
proof -
  obtain p h1 where n: "new_op RpmaWrite cb h = (p, h1)" by (metis prod.exhaust)
  then have p: "p = op_next h" "ch_conn h1 = ch_conn h" "cl_image_mr h1 = cl_image_mr h" "cl_data_mr h1 = cl_data_mr h"
    by (auto simp: new_op_def)
  from settle_posted [OF next_op_unused [OF assms] n] n p show ?thesis
    by (auto simp: ClientHandler_write_def env_simps obj_defs not_le)
qed

theorem client_write_posts_witness:
  "ClientHandler_write (client_env 0) 0 (MAX_WRITE + 1) No_callback (waiting_client 0 [] \<lparr>cl_data_mr := Some 3\<rparr>) []
     = (Inl Assertion_failed, waiting_client 0 [] \<lparr>cl_data_mr := Some 3\<rparr>, [])"
  using client_write_posts [of "waiting_client 0 [] \<lparr>cl_data_mr := Some 3\<rparr>" "MAX_WRITE + 1" "client_env 0" 0 No_callback "[]"]
  by (simp add: MAX_WRITE_def ops_inv_def waiting_client_def ClientHandler_default_def ConnectionHandler.extend_def
      ConnectionHandler_new_def)

text \<open>
  \<open>flush\<close> posts a flush of the given range of the image with the type the handshake
  determined, and keeps or deletes the operation like \<open>write\<close>; it has no limit on the length.
\<close>

theorem client_flush_posts:
  assumes "ops_inv {} h"
  shows "if cl_data_mr h = None
         then ClientHandler_flush e off len cb h tr = (Inl Assertion_failed, h, tr)
         else \<exists>ret h'. ClientHandler_flush e off len cb h tr
                = (Inr ret, h', tr @ [Post (Ev_flush (rc_conn (ch_conn h)) (cl_image_mr h) off len (cl_flush_type h)
                                       RPMA_F_COMPLETION_ALWAYS (Some (op_next h)) ret)]) \<and>
              posted RpmaFlush cb ret h h'"
proof -
  obtain p h1 where n: "new_op RpmaFlush cb h = (p, h1)" by (metis prod.exhaust)
  then have p: "p = op_next h" "ch_conn h1 = ch_conn h" "cl_image_mr h1 = cl_image_mr h" "cl_flush_type h1 = cl_flush_type h"
    by (auto simp: new_op_def)
  from settle_posted [OF next_op_unused [OF assms] n] n p show ?thesis
    by (auto simp: ClientHandler_flush_def env_simps obj_defs)
qed

theorem client_flush_posts_witness:
  "\<exists>h'. ClientHandler_flush (client_env 0) 0 64 No_callback (waiting_client 0 [] \<lparr>cl_data_mr := Some 3\<rparr>) []
     = (Inr 0, h', [Post (Ev_flush (Some 9) None 0 64 RPMA_FLUSH_TYPE_VISIBILITY RPMA_F_COMPLETION_ALWAYS (Some 0) 0)]) \<and>
     callback_table h' = {0}"
proof -
  let ?h = "waiting_client 0 [] \<lparr>cl_data_mr := Some 3\<rparr>"
  have h: "ops_inv {} ?h" "op_next ?h = 0" "callback_table ?h = {}" "rc_conn (ch_conn ?h) = Some 9" "cl_image_mr ?h = None"
    by (simp_all add: ops_inv_def waiting_client_def ClientHandler_default_def ConnectionHandler.extend_def
        ConnectionHandler_new_def RpmaConn_new_def demo_junk_def)
  have "fst (ClientHandler_flush (client_env 0) 0 64 No_callback ?h []) = Inr 0"
    by (simp add: ClientHandler_flush_def new_op_def client_env_def kernel_env_def demo_env_def demo_defs env_simps)
  with client_flush_posts [OF h(1), of "client_env 0" 0 64 No_callback "[]"] h(2-5) show ?thesis
    by (auto simp: posted_def)
qed

subsection \<open>Waiting for a reply\<close>

lemma wait_loop_returns:
  assumes "TIMEOUT_US \<le> clk K" and "k \<le> K" and "Suc (Suc (K - k)) \<le> n"
  shows "wait_loop sched clk fin n k cost s \<noteq> None"
  using assms(2,3)
proof (induction n arbitrary: k cost s)
  case 0
  then show ?case by simp
next
  case (Suc n)
  show ?case
  proof (cases "k = K")
    case True
    with Suc.prems obtain n' where "n = Suc n'" by (cases n) auto
    with True assms(1) show ?thesis by auto
  next
    case False
    with Suc.prems have "Suc k \<le> K" and "Suc (Suc (K - Suc k)) \<le> n" by auto
    with Suc.IH show ?thesis by simp
  qed
qed

lemma put_message_result:
  "put_message bl h = (r, h') \<Longrightarrow> r = (if length bl < MSG_SIZE then Inr () else Inl Assertion_failed)"
  by (auto simp: put_message_def split: if_splits)

lemma request_result:
  assumes "post_request e bl cb h tr = (r, h', tr')"
  shows "r = (if length bl < MSG_SIZE then Inr (cl_next_frame h) else Inl Assertion_failed)"
  using assms
  by (auto simp: post_request_def put_message_def push_frame_def Let_def split: prod.splits if_splits)

text \<open>
  C27: \<open>init_replica\<close> and \<open>close_replica\<close> come back. If the clock reaches ten seconds in
  some iteration \<open>K\<close> of the waiting loop, then, whatever the other thread does meanwhile,
  \<open>K + 2\<close> tests of the loop condition are enough; the result is 0 or -1, unless the names
  were too long for a message, which stops the program in an assertion.
\<close>

theorem client_requests_return:
  assumes "ceph_encoding c" and "TIMEOUT_US \<le> clk K" and "K + 2 \<le> fuel"
  shows "\<exists>r h1 tr1 r2 h2 tr2.
     ClientHandler_init_replica e c sched clk fuel cost cid csize pool img h tr = Some (r, h1, tr1) \<and>
     (if 36 + length pool + length img < MSG_SIZE then r \<in> {Inr 0, Inr (-1)} else r = Inl Assertion_failed) \<and>
     ClientHandler_close_replica e c sched clk fuel cost h tr = Some (r2, h2, tr2) \<and> r2 \<in> {Inr 0, Inr (-1)}"
proof -
  have loop: "\<exists>s'. wait_loop sched clk fin fuel 0 cost s = Some s'" for fin s
    using wait_loop_returns [of clk K 0 fuel sched fin cost s] assms(2,3) by auto
  have len: "length (RwlReplicaInitRequest_encode c (init_request cid csize pool img)) = 36 + length pool + length img"
      "length (RwlReplicaRequest_encode c \<lparr>type_of = RWL_REPLICA_FINISHED_REQUEST\<rparr>) < MSG_SIZE"
    by (simp_all add: ceph_encoding.init_request_length [OF assms(1)] ceph_encoding.request_length [OF assms(1)]
        init_request_def MSG_SIZE_def)
  obtain q h1 tr1 where p: "post_request e (RwlReplicaInitRequest_encode c (init_request cid csize pool img))
      Init_replica_done (h\<lparr>cl_image_size := csize\<rparr>) tr = (q, h1, tr1)" by (metis prod_cases3)
  obtain q2 h2 tr2 where p2: "post_request e (RwlReplicaRequest_encode c \<lparr>type_of = RWL_REPLICA_FINISHED_REQUEST\<rparr>)
      Close_replica_done h tr = (q2, h2, tr2)" by (metis prod_cases3)
  obtain s where s: "wait_loop sched clk (frame_completed (cl_next_frame h)) fuel 0 cost (h1, tr1) = Some s"
    using loop by blast
  obtain s2 where s2: "wait_loop sched clk (frame_completed (cl_next_frame h)) fuel 0 cost (h2, tr2) = Some s2"
    using loop by blast
  show ?thesis
    using p p2 s s2 len request_result [OF p] request_result [OF p2]
    by (auto simp: ClientHandler_init_replica_def ClientHandler_close_replica_def split: if_splits)
qed

theorem client_requests_return_witness:
  "\<exists>r h1 tr1. ClientHandler_init_replica (client_env 0) ceph_le (\<lambda>k s. s) (\<lambda>k. 4000000 * int k) 5 0 1 64 ''RBD'' ''test''
       (waiting_client 0 []) [] = Some (r, h1, tr1) \<and> r \<in> {Inr 0, Inr (-1)}"
  using client_requests_return [OF ceph_le.ceph_encoding_axioms, of "\<lambda>k. 4000000 * int k" 3 5 "client_env 0"
      "\<lambda>k s. s" 0 1 64 "''RBD''" "''test''" "waiting_client 0 []" "[]"]
  by (auto simp: TIMEOUT_US_def MSG_SIZE_def)

text \<open>
  C37: The loop tests \<open>cost_time\<close> before assigning it. When the uninitialised value is ten
  million or more, \<open>init_replica\<close> returns -1 at once, without waiting for the reply; the
  callback it leaves behind refers to its own dead stack frame, so that the reply, when it
  arrives and can be read, is written through a dangling reference.
\<close>

theorem client_late_reply_dangles:
  assumes c: "ceph_encoding c" and fits: "36 + length pool + length img < MSG_SIZE" and junk: "TIMEOUT_US \<le> cost"
    and recv: "\<forall>t q m i n x. e_recv (post_of e) t q m i n x = 0"
  shows "\<exists>h' tr'. ClientHandler_init_replica e c sched clk (Suc n) cost cid csize pool img h tr = Some (Inr (-1), h', tr') \<and>
     op_next h \<in> callback_table h' \<and>
     op_heap h' (op_next h) = Some \<lparr>op_class = RpmaRecv, func = Init_replica_done (cl_next_frame h)\<rparr> \<and>
     (\<forall>e' msg t v h2 t2. ClientHandler_get_remote_descriptor e' c (h'\<lparr>recv_bl := msg\<rparr>) t = (Inr v, h2, t2) \<longrightarrow>
        fst (ClientHandler_run e' c (Init_replica_done (cl_next_frame h)) (h'\<lparr>recv_bl := msg\<rparr>) t) = Inl Use_after_free)"
proof -
  let ?i = "cl_next_frame h"
  have len: "length (RwlReplicaInitRequest_encode c (init_request cid csize pool img)) < MSG_SIZE"
    using fits by (simp add: ceph_encoding.init_request_length [OF c] init_request_def)
  obtain q h1 tr1 where p: "post_request e (RwlReplicaInitRequest_encode c (init_request cid csize pool img))
      Init_replica_done (h\<lparr>cl_image_size := csize\<rparr>) tr = (q, h1, tr1)" by (metis prod_cases3)
  have q: "q = Inr ?i" using request_result [OF p] len by simp
  have h1: "op_next h \<in> callback_table h1" "cl_frames h1 ?i = Some \<lparr>fr_completed = False, fr_successed = False\<rparr>"
      "op_heap h1 (op_next h) = Some \<lparr>op_class = RpmaRecv, func = Init_replica_done ?i\<rparr>"
    using p len recv
    by (auto simp: post_request_def put_message_def push_frame_def ConnectionHandler_recv_def
        ConnectionHandler_send_def new_op_def settle_op_def delete_op_def env_simps)
  have "ClientHandler_init_replica e c sched clk (Suc n) cost cid csize pool img h tr = Some (Inr (-1), pop_frame ?i h1, tr1)"
    using p q h1(2) junk by (simp add: ClientHandler_init_replica_def frame_completed_def)
  moreover have "fst (ClientHandler_run e' c (Init_replica_done ?i) ((pop_frame ?i h1)\<lparr>recv_bl := msg\<rparr>) t) = Inl Use_after_free"
    if "ClientHandler_get_remote_descriptor e' c ((pop_frame ?i h1)\<lparr>recv_bl := msg\<rparr>) t = (Inr v, h2, t2)" for e' msg t v h2 t2
  proof -
    have "cl_frames h2 ?i = None"
      using get_remote_descriptor_frames [OF that] by (simp add: pop_frame_def)
    with that show ?thesis by (simp add: ClientHandler_run_def set_completed_def)
  qed
  moreover have "op_next h \<in> callback_table (pop_frame ?i h1)"
      "op_heap (pop_frame ?i h1) (op_next h) = Some \<lparr>op_class = RpmaRecv, func = Init_replica_done ?i\<rparr>"
    using h1 by (simp_all add: pop_frame_def)
  ultimately show ?thesis by blast
qed

theorem client_late_reply_dangles_witness:
  "\<exists>h' tr'. ClientHandler_init_replica (client_env 0) ceph_le (\<lambda>k s. s) (\<lambda>k. 0) 1 20000000 1 64 ''RBD'' ''test''
       (waiting_client 0 []) [] = Some (Inr (-1), h', tr') \<and>
     op_heap h' 0 = Some \<lparr>op_class = RpmaRecv, func = Init_replica_done 1\<rparr>"
proof -
  have "\<forall>t q m i n x. e_recv (post_of (client_env 0)) t q m i n x = 0"
    by (simp add: client_env_def kernel_env_def demo_env_def demo_defs)
  moreover have "op_next (waiting_client 0 []) = 0" "cl_next_frame (waiting_client 0 []) = 1"
    by (simp_all add: waiting_client_def ClientHandler_default_def ConnectionHandler.extend_def ConnectionHandler_new_def)
  ultimately show ?thesis
    using client_late_reply_dangles [OF ceph_le.ceph_encoding_axioms, of "''RBD''" "''test''" 20000000 "client_env 0"
        "\<lambda>k s. s" "\<lambda>k. 0" 0 1 64 "waiting_client 0 []" "[]"]
    by (auto simp: TIMEOUT_US_def MSG_SIZE_def)
qed

end
