(* ===== verification/Client_Program.thy ===== *)
theory Client_Program
  imports Client_Operations
begin

text \<open>
  The program \<open>client.cc\<close>: the buffer it fills, the thread that runs the reactor, and
  \<open>main\<close>, which connects, asks for a region, writes and flushes one gibibyte and leaves.
\<close>

subsection \<open>Filling the buffer\<close>

definition client_data :: bytes where
  "client_data = ''abcdefghijklmnopqrstuvwxyzABCDEFGHIJKLMNOPQRSTUVWXYZ1234567890-'' @ [CHR 0x0A]"

text \<open>
  The loop that copies the line to the buffer again and again. Its counter is an \<open>int\<close>, compared
  with a \<open>size_t\<close> after sign extension and increased by one with truncation; a copy beyond the
  buffer is undefined behaviour. The loop runs on fuel, since a counter that wraps need not end.
\<close>

fun fill_loop :: "nat \<Rightarrow> bytes \<Rightarrow> u64 \<Rightarrow> c_int \<Rightarrow> bytes \<Rightarrow> bytes result option" where
  "fill_loop 0 data sz i buf = None"
| "fill_loop (Suc n) data sz i buf =
     (if (scast i :: u64) < sz
      then if 0 \<le> sint i \<and> nat (sint i) + length data \<le> length buf
           then fill_loop n data sz (ucast ((scast i :: u64) + of_nat (length data))) (blit buf (nat (sint i)) data)
           else Some (Inl Out_of_range)
      else Some (Inr buf))"

definition mr_size :: u64 where "mr_size = 1024 * 1024 * 1024"

lemma sint_small: "m < 2 ^ 31 \<Longrightarrow> sint (of_nat m :: c_int) = int m"
  by (simp add: signed_of_nat signed_take_bit_int_eq_self)

lemma scast_small:
  assumes "m < 2 ^ 31"
  shows "(scast (of_nat m :: c_int) :: u64) = of_nat m"
proof -
  have "(scast (of_nat m :: c_int) :: u64) = of_int (sint (of_nat m :: c_int))" by (rule scast_eq)
  with sint_small [OF assms] show ?thesis by simp
qed

lemma word_step:
  "(ucast ((of_nat m :: u64) + of_nat d) :: c_int) = of_nat (m + d)"
proof -
  have "(of_nat m :: u64) + of_nat d = of_nat (m + d)" by simp
  then show ?thesis by (simp only: unsigned_of_nat) (simp only: word_of_nat_eq_iff, simp)
qed

lemma word_less_small: "a < 2 ^ 64 \<Longrightarrow> b < 2 ^ 64 \<Longrightarrow> ((of_nat a :: u64) < of_nat b) = (a < b)"
  by (simp add: word_less_nat_alt unsigned_of_nat take_bit_nat_eq_self)

text \<open>One copy extends the part of the buffer that repeats the line, and one copy less is left.\<close>

lemma blit_repeats:
  assumes "m = length data * j" and "m + length data \<le> length buf" and "k < m + length data"
    and pre: "\<forall>k < m. buf ! k = data ! (k mod length data)"
  shows "blit buf m data ! k = data ! (k mod length data)"
proof (cases "k < m")
  case True
  with assms(2) pre show ?thesis by (simp add: blit_def nth_append)
next
  case False
  then have "k mod length data = k - m"
    using assms(1,3) by (metis add.commute le_add_diff_inverse less_diff_conv2 linorder_not_less mod_less mod_mult_self2 add_diff_inverse_nat mod_mult_self4)
  moreover have "k - m < length data" using False assms(3) by linarith
  ultimately show ?thesis using False assms(2) by (simp add: blit_def nth_append)
qed

lemma copies_left:
  assumes "m + d \<le> n" and "0 < d"
  shows "(n - m) div d = Suc ((n - (m + d)) div d)"
proof -
  have "n - m = (n - (m + d)) + d" using assms(1) by simp
  then show ?thesis using assms(2) by (metis div_add_self2 less_numeral_extra(3) add_Suc_right Suc_eq_plus1)
qed

lemma fill_loop_prefix:
  assumes data: "data \<noteq> []" and dvd: "length data dvd length buf" and small: "length buf < 2 ^ 31"
    and m: "m = length data * j" "m \<le> length buf"
    and fuel: "(length buf - m) div length data < n"
    and pre: "\<forall>k < m. buf ! k = data ! (k mod length data)"
  shows "\<exists>buf'. fill_loop n data (of_nat (length buf)) (of_nat m) buf = Some (Inr buf') \<and> length buf' = length buf \<and>
           (\<forall>k < length buf. buf' ! k = data ! (k mod length data))"
  using dvd small m fuel pre
proof (induction n arbitrary: buf m j)
  case 0
  then show ?case by simp
next
  case (Suc n)
  have m31: "m < 2 ^ 31" using Suc.prems by linarith
  have lt: "((of_nat m :: u64) < of_nat (length buf)) = (m < length buf)"
    using Suc.prems(2) m31 by (intro word_less_small) simp_all
  show ?case
  proof (cases "m < length buf")
    case False
    then have stop: "\<not> (scast (of_nat m :: c_int) :: u64) < of_nat (length buf)"
      using lt m31 by (simp add: scast_small)
    have "\<forall>k < length buf. buf ! k = data ! (k mod length data)"
      using False Suc.prems(4,6) by simp
    with stop show ?thesis by simp
  next
    case True
    obtain q where q: "length buf = length data * q" using Suc.prems(1) by (elim dvdE)
    have "j < q" using True Suc.prems(3) q data by simp
    then have room: "m + length data \<le> length buf"
      using Suc.prems(3) q by (metis Suc_leI mult_Suc_right mult_le_mono2 add.commute)
    let ?b = "blit buf m data"
    have len: "length ?b = length buf" using room by simp
    have nth: "?b ! k = data ! (k mod length data)" if "k < m + length data" for k
      by (rule blit_repeats [OF Suc.prems(3) room that Suc.prems(6)])
    have step: "(length buf - (m + length data)) div length data < n"
      using copies_left [OF room] data Suc.prems(5) by simp
    have "\<exists>buf'. fill_loop n data (of_nat (length ?b)) (of_nat (m + length data)) ?b = Some (Inr buf') \<and>
        length buf' = length ?b \<and> (\<forall>k < length ?b. buf' ! k = data ! (k mod length data))"
      by (rule Suc.IH [where j = "Suc j"]) (use Suc.prems(1,2,3) len room nth step in auto)
    with len True room lt m31 show ?thesis
      by (simp add: scast_small sint_small word_step)
  qed
qed

text \<open>The line, again and again: what the loop is meant to produce.\<close>

definition repeated :: "nat \<Rightarrow> bytes \<Rightarrow> bytes" where
  "repeated n d = concat (replicate n d)"

lemma length_repeated [simp]: "length (repeated n d) = n * length d"
  by (simp add: repeated_def length_concat map_replicate sum_list_replicate)

lemma nth_repeated: "k < n * length d \<Longrightarrow> repeated n d ! k = d ! (k mod length d)"
proof (induction n arbitrary: k)
  case (Suc n)
  have "repeated (Suc n) d ! k = d ! (k mod length d)" if "\<not> k < length d"
    using Suc.IH [of "k - length d"] Suc.prems that by (simp add: repeated_def nth_append le_mod_geq)
  then show ?case by (cases "k < length d") (simp_all add: repeated_def nth_append)
qed simp

lemma client_fill:
  assumes "length buf = unat mr_size" and "2 ^ 24 < fuel"
  shows "fill_loop fuel client_data mr_size 0 buf = Some (Inr (repeated (2 ^ 24) client_data))"
proof -
  have len: "length buf = 1073741824" "length client_data = 64" "mr_size = of_nat (length buf)"
    using assms(1) by (simp_all add: mr_size_def client_data_def)
  then have "length client_data dvd length buf" by simp
  moreover have "client_data \<noteq> []" "length buf < 2 ^ 31" "(length buf - 0) div length client_data < fuel"
    using len assms(2) by (simp_all add: client_data_def)
  ultimately obtain buf' where b: "fill_loop fuel client_data mr_size 0 buf = Some (Inr buf')" "length buf' = length buf"
      "\<forall>k < length buf. buf' ! k = client_data ! (k mod 64)"
    using fill_loop_prefix [of client_data buf 0 0 fuel] len by auto
  have "buf' = repeated (2 ^ 24) client_data"
  proof (rule nth_equalityI)
    show "length buf' = length (repeated (2 ^ 24) client_data)" using b(2) len by simp
    show "buf' ! k = repeated (2 ^ 24) client_data ! k" if "k < length buf'" for k
      using that b(2,3) len by (simp add: nth_repeated)
  qed
  with b(1) show ?thesis by simp
qed

text \<open>More fuel does not change a result.\<close>

lemma fill_loop_mono: "fill_loop n data sz i buf = Some r \<Longrightarrow> n \<le> m \<Longrightarrow> fill_loop m data sz i buf = Some r"
proof (induction n arbitrary: m i buf)
  case (Suc n)
  then obtain m' where "m = Suc m'" by (cases m) auto
  with Suc show ?case by (auto split: if_splits)
qed simp

lemma client_fill_result:
  assumes "length buf = unat mr_size" and "fill_loop fuel client_data mr_size 0 buf = Some r"
  shows "r = Inr (repeated (2 ^ 24) client_data)"
  using client_fill [OF assms(1), of "fuel + 2 ^ 24 + 1"] fill_loop_mono [OF assms(2), of "fuel + 2 ^ 24 + 1"] by simp

subsection \<open>The two threads\<close>

text \<open>
  The thread that runs the reactor. The client is handler number 1; what has arrived in its
  receive buffer when an event is handled is a parameter.
\<close>

record client_process =
  cp_reactor :: Reactor
  cp_client :: ClientHandler

definition client_dispatch :: "env \<Rightarrow> ceph_codec \<Rightarrow> (trace \<Rightarrow> bytes option) \<Rightarrow> client_process dispatcher" where
  "client_dispatch e c arrived i et s tr =
     (let h0 = (case arrived tr of None \<Rightarrow> cp_client s | Some msg \<Rightarrow> (cp_client s)\<lparr>recv_bl := msg\<rparr>);
          (r, h1, ro, tr1) = ClientHandler_handle e c i et h0 (Some (cp_reactor s)) tr
      in (r, s\<lparr>cp_reactor := (case ro of None \<Rightarrow> cp_reactor s | Some x \<Rightarrow> x), cp_client := h1\<rparr>, tr1))"

text \<open>
  The body of \<open>th1\<close>: events until the table is empty. \<open>m\<close> bounds the events of one call
  of \<open>handle_events\<close>, \<open>n\<close> the calls. An exception would end the process.
\<close>

fun client_thread ::
    "env \<Rightarrow> ceph_codec \<Rightarrow> (trace \<Rightarrow> bytes option) \<Rightarrow> nat \<Rightarrow> nat \<Rightarrow> client_process \<Rightarrow> trace
     \<Rightarrow> (unit result \<times> client_process \<times> trace) option" where
  "client_thread e c arrived m 0 s tr = None"
| "client_thread e c arrived m (Suc n) s tr =
     (case Reactor_handle_events e cp_reactor (client_dispatch e c arrived) m s tr of
        None \<Rightarrow> None
      | Some (Inl f, s1, tr1) \<Rightarrow> Some (Inl f, s1, tr1)
      | Some (Inr _, s1, tr1) \<Rightarrow>
          if Reactor_empty (cp_reactor s1) then Some (Inr (), s1, tr1)
          else client_thread e c arrived m n s1 tr1)"

text \<open>
  The thread that runs \<open>main\<close>. It shares the client with \<open>th1\<close>; what \<open>th1\<close> does to it
  in iteration \<open>k\<close> of the waiting loop number \<open>p\<close> is \<open>sched p k\<close>. \<open>while (completed == false);\<close>
  has no timeout.
\<close>

fun spin_loop :: "(nat \<Rightarrow> 's \<Rightarrow> 's) \<Rightarrow> ('s \<Rightarrow> bool) \<Rightarrow> nat \<Rightarrow> nat \<Rightarrow> 's \<Rightarrow> 's option" where
  "spin_loop sched fin 0 k s = None"
| "spin_loop sched fin (Suc n) k s = (if fin s then Some s else spin_loop sched fin n (Suc k) (sched k s))"

text \<open>\<open>completed = false\<close> before the flush.\<close>

definition reset_completed :: "nat \<Rightarrow> ClientHandler \<Rightarrow> ClientHandler" where
  "reset_completed i h =
     (case cl_frames h i of
        None \<Rightarrow> h
      | Some fr \<Rightarrow> h\<lparr>cl_frames := (cl_frames h)(i \<mapsto> fr\<lparr>fr_completed := False\<rparr>)\<rparr>)"

text \<open>A post with the callback that sets \<open>completed\<close>, and the loop that waits for it.\<close>

definition post_and_spin ::
    "(ClientHandler \<Rightarrow> trace \<Rightarrow> int result \<times> ClientHandler \<times> trace) \<Rightarrow> (nat \<Rightarrow> client_state \<Rightarrow> client_state) \<Rightarrow> nat \<Rightarrow> nat
     \<Rightarrow> ClientHandler \<Rightarrow> trace \<Rightarrow> (unit result \<times> ClientHandler \<times> trace) option" where
  "post_and_spin post sched fuel i h tr =
     (case post h tr of
        (Inl f, h1, tr1) \<Rightarrow> Some (Inl f, h1, tr1)
      | (Inr _, h1, tr1) \<Rightarrow>
          (case spin_loop sched (frame_completed i) fuel 0 (h1, tr1) of
             None \<Rightarrow> None
           | Some (h2, tr2) \<Rightarrow> Some (Inr (), h2, tr2)))"

text \<open>Write and flush of the whole buffer, then the disconnection. The printed lines of the file are left out.\<close>

definition client_transfer ::
    "env \<Rightarrow> (nat \<Rightarrow> nat \<Rightarrow> client_state \<Rightarrow> client_state) \<Rightarrow> nat \<Rightarrow> ClientHandler \<Rightarrow> trace
     \<Rightarrow> (unit result \<times> ClientHandler \<times> trace) option" where
  "client_transfer e sched fuel h tr =
     (let (i, h1) = push_frame h
      in case post_and_spin (ClientHandler_write e 0 mr_size (User_callback i)) (sched 2) fuel i h1 tr of
           None \<Rightarrow> None
         | Some (Inl f, h2, tr2) \<Rightarrow> Some (Inl f, h2, tr2)
         | Some (Inr _, h2, tr2) \<Rightarrow>
             (case post_and_spin (ClientHandler_flush e 0 mr_size (User_callback i)) (sched 3) fuel i (reset_completed i h2) tr2 of
                None \<Rightarrow> None
              | Some (Inl f, h3, tr3) \<Rightarrow> Some (Inl f, h3, tr3)
              | Some (Inr _, h3, tr3) \<Rightarrow>
                  let (_, h4, tr4) = ClientHandler_disconnect e h3 tr3 in Some (Inr (), h4, tr4)))"

text \<open>
  From the established connection to the end of the transfer. The results of
  \<open>init_replica\<close> and \<open>disconnect\<close> are only printed, that of \<open>set_head\<close> is ignored. A new
  buffer has an address, so the test of \<open>mr_ptr\<close> for null never succeeds.
\<close>

definition client_app ::
    "env \<Rightarrow> ceph_codec \<Rightarrow> (nat \<Rightarrow> nat \<Rightarrow> client_state \<Rightarrow> client_state) \<Rightarrow> (nat \<Rightarrow> int) \<Rightarrow> nat \<Rightarrow> int
     \<Rightarrow> ClientHandler \<Rightarrow> trace \<Rightarrow> (unit result \<times> ClientHandler \<times> trace) option" where
  "client_app e c sched clk fuel cost h tr =
     (case wait_established (sched 0) fuel 0 (h, tr) of
        None \<Rightarrow> None
      | Some (h1, tr1) \<Rightarrow>
          (case ClientHandler_init_replica e c (sched 1) clk fuel cost 1 REQUIRE_SIZE ''RBD'' ''test'' h1 tr1 of
             None \<Rightarrow> None
           | Some (Inl f, h2, tr2) \<Rightarrow> Some (Inl f, h2, tr2)
           | Some (Inr _, h2, tr2) \<Rightarrow>
               let ((a, content), tr3) = bufferptr_create e (unat mr_size) tr2
               in (case fill_loop fuel client_data mr_size 0 content of
                     None \<Rightarrow> None
                   | Some (Inl f) \<Rightarrow> Some (Inl f, h2, tr3)
                   | Some (Inr buf) \<Rightarrow>
                       let (_, h3, tr4) = ClientHandler_set_head e (Some a) mr_size h2 tr3
                       in client_transfer e sched fuel h3 tr4)))"

text \<open>
  \<open>main\<close>: a \<open>std::runtime_error\<close> of the constructors is caught and the program goes on with
  the null pointers it has; after the transfer it waits until \<open>th1\<close> is done. The result is
  the return code, or what ended the process.
\<close>

definition client_main ::
    "env \<Rightarrow> ceph_codec \<Rightarrow> client_junk \<Rightarrow> (nat \<Rightarrow> nat \<Rightarrow> client_state \<Rightarrow> client_state) \<Rightarrow> (client_state \<Rightarrow> bool) \<Rightarrow> (nat \<Rightarrow> int)
     \<Rightarrow> nat \<Rightarrow> int \<Rightarrow> string \<Rightarrow> string \<Rightarrow> trace \<Rightarrow> (int result \<times> trace) option" where
  "client_main e c j sched th1_done clk fuel cost addr port tr =
     (case Reactor_new e (set_log_thresholds tr) of
        (Inl f, tr1) \<Rightarrow> Some (case f of Runtime_error m \<Rightarrow> Inl Null_dereference | _ \<Rightarrow> Inl f, tr1)
      | (Inr r, tr1) \<Rightarrow>
          (case ClientHandler_new e j addr port tr1 of
             (Inl f, tr2) \<Rightarrow> Some (case f of Runtime_error m \<Rightarrow> Inl Null_dereference | _ \<Rightarrow> Inl f, tr2)
           | (Inr h, tr2) \<Rightarrow>
               let (ret, ro, tr3) = ClientHandler_register_self e 1 h (Some r) tr2
               in if ret \<noteq> 0
                  then (case ClientHandler_destroy e h tr3 of
                          (Inl f, _, tr4) \<Rightarrow> Some (Inl f, tr4)
                        | (Inr _, _, tr4) \<Rightarrow> Some (Inr ret, Reactor_destroy r tr4))
                  else
                    (case client_app e c sched clk fuel cost h tr3 of
                       None \<Rightarrow> None
                     | Some (Inl f, _, tr4) \<Rightarrow> Some (Inl f, tr4)
                     | Some (Inr _, h4, tr4) \<Rightarrow>
                         (case spin_loop (sched 4) th1_done fuel 0 (h4, tr4) of
                            None \<Rightarrow> None
                          | Some (h5, tr5) \<Rightarrow>
                              (case ClientHandler_destroy e h5 tr5 of
                                 (Inl f, _, tr6) \<Rightarrow> Some (Inl f, tr6)
                               | (Inr _, _, tr6) \<Rightarrow> Some (Inr 0, Reactor_destroy r tr6))))))"

subsection \<open>Properties of the program\<close>

text \<open>
  C31: The buffer the client writes is filled correctly and completely: for a buffer of one
  gibibyte the loop with its 32-bit counter ends after at most 16777217 tests of its condition,
  never copies beyond the buffer, and gives the line repeated 16777216 times, the same as
  the reference definition.
\<close>

theorem client_fill_correct:
  assumes "length buf = unat mr_size" and "2 ^ 24 < fuel"
  shows "fill_loop fuel client_data mr_size 0 buf = Some (Inr (repeated (2 ^ 24) client_data))"
  using assms by (rule client_fill)

theorem client_fill_correct_witness:
  "fill_loop (2 ^ 24 + 1) client_data mr_size 0 (replicate (unat mr_size) (CHR 0x00)) = Some (Inr (repeated (2 ^ 24) client_data))"
  by (rule client_fill_correct) simp_all

text \<open>The constructor of the client throws only what \<open>main\<close> catches.\<close>

lemma new_client_throws:
  assumes "ClientHandler_new e j addr port tr = (Inl f, tr')"
  shows "\<exists>m. f = Runtime_error m"
proof -
  have throw: "fst (client_throw e g h t) = Inl g" for g h t
    by (simp add: client_throw_def split_beta)
  have fds: "\<exists>m. g = Runtime_error m" if "fst (ConnectionHandler_init_conn_fd e h t) = Inl g" for h :: ClientHandler and t g
    using that by (auto simp: ConnectionHandler_init_conn_fd_def Let_def split: prod.splits if_splits option.splits)
  have bufs: "\<exists>m. g = Runtime_error m" if "fst (ConnectionHandler_init_send_recv_buffer e h t) = Inl g" for h :: ClientHandler and t g
    using that by (auto simp: ConnectionHandler_init_send_recv_buffer_def Let_def split: prod.splits if_splits)
  have req: "\<exists>m. g = Runtime_error m" if "fst (client_conn_req e peer addr port t) = Inl g" for peer t g
    using that by (auto simp: client_conn_req_def Let_def split: prod.splits if_splits)
  have con: "\<exists>m. g = Runtime_error m" if "fst (client_connect_req e q h t) = Inl g" for q h t g
    using that fds by (auto simp: client_connect_req_def throw split_beta Let_def split: if_splits sum.splits)
  have "fst (ClientHandler_new e j addr port tr) = Inl f" using assms by simp
  then show ?thesis
    using bufs req con by (auto simp: ClientHandler_new_def throw split_beta Let_def split: if_splits sum.splits)
qed

text \<open>
  C39: A client that cannot be constructed crashes: whichever call makes the constructor throw, it has
  released its regions and connections, and \<open>main\<close> catches the exception and calls
  \<open>wait_established\<close> through the null pointer.
\<close>

theorem client_main_null:
  assumes "objects_fresh e" and "Reactor_new e (set_log_thresholds tr) = (Inr r, tr1)" and "ClientHandler_new e j addr port tr1 = (Inl f, tr2)"
  shows "client_main e c j sched th1_done clk fuel cost addr port tr = Some (Inl Null_dereference, tr2) \<and>
         live_mrs tr2 = live_mrs tr1 \<and> live_conns tr2 = live_conns tr1"
proof -
  obtain m where "f = Runtime_error m" using new_client_throws [OF assms(3)] by blast
  with assms(2,3) have "client_main e c j sched th1_done clk fuel cost addr port tr = Some (Inl Null_dereference, tr2)"
    by (simp add: client_main_def)
  moreover have "all_released (footprint tr1) tr2"
    using new_client_outcome [OF assms(1), of tr1 j addr port] assms(3) by (simp add: client_outcome_def)
  ultimately show ?thesis by (simp add: all_released_def)
qed

theorem client_main_null_witness:
  "\<exists>tr2. client_main (tracked_env False) ceph_le demo_junk (\<lambda>p k s. s) (\<lambda>s. True) (\<lambda>k. 0) 1 0 ''a'' ''p'' []
     = Some (Inl Null_dereference, tr2) \<and> live_mrs tr2 = {}"
proof -
  let ?e = "tracked_env False" and ?l = "Ev_log_set_threshold RPMA_LOG_THRESHOLD RPMA_LOG_LEVEL_INFO"
    and ?a = "Ev_log_set_threshold RPMA_LOG_THRESHOLD_AUX RPMA_LOG_LEVEL_INFO"
  let ?t = "[Setup ?l, Setup ?a, Poll (Ev_epoll_create 3)]"
  obtain r where r: "Reactor_new ?e (set_log_thresholds []) = (Inr r, ?t)"
    by (simp add: set_log_thresholds_def Reactor_new_def kernel_poll_def tracked_defs env_simps)
  have "isl (fst (ClientHandler_new ?e demo_junk ''a'' ''p'' ?t))"
    by (simp add: client_new_defs ClientHandler_default_def ConnectionHandler.extend_def ConnectionHandler_new_def
        client_throw_def tracked_defs RPMA_E_PROVIDER_def env_simps Let_def split: prod.splits)
  then obtain f tr2 where h: "ClientHandler_new ?e demo_junk ''a'' ''p'' ?t = (Inl f, tr2)"
    by (cases "ClientHandler_new ?e demo_junk ''a'' ''p'' ?t") (auto simp: isl_def)
  have "live_mrs ?t = {}" by (simp add: live_mrs_def)
  with client_main_null [OF tracked_env_fresh(1) r h] show ?thesis by auto
qed

end
