(* ===== verification/Client_Threads.thy ===== *)
theory Client_Threads
  imports Client_Program Connection_Frame
begin

text \<open>
  The two threads of the client together: what the reactor's thread can do to the shared client
  while \<open>main\<close> waits, that only the completion of an operation ends the wait for it, and the
  order in which the data is written, flushed and the connection given up.
\<close>

subsection \<open>The completion that sets a frame\<close>

text \<open>The operations whose callback sets the variable of a frame.\<close>

definition users :: "nat \<Rightarrow> ClientHandler \<Rightarrow> ptr set" where
  "users i h = {p. (p, i) \<in> refs h}"

definition completes :: "ptr \<Rightarrow> event \<Rightarrow> bool" where
  "completes p ev \<longleftrightarrow>
     (\<exists>q cmpl. ev = Conn (Ev_conn_completion_get q (0, cmpl)) \<and> op_context cmpl = Some p \<and>
        op_status cmpl = IBV_WC_SUCCESS)"

text \<open>
  From one state of the client to another only completions of its users set a frame: the
  trace grows, no user is added, and if the frame is set that was not, a user completed and is gone.
\<close>

definition frame_step :: "nat \<Rightarrow> client_state \<Rightarrow> client_state \<Rightarrow> bool" where
  "frame_step i s s' \<longleftrightarrow>
     (\<exists>evs. snd s' = snd s @ evs \<and> users i (fst s') \<subseteq> users i (fst s) \<and>
        (frame_completed i s' \<longrightarrow> frame_completed i s \<or>
           (\<exists>p \<in> users i (fst s) - users i (fst s'). \<exists>ev \<in> set evs. completes p ev)))"

lemma frame_step_same:
  assumes "op_heap h' = op_heap h" and "cl_frames h' = cl_frames h" and "tr' = tr @ evs"
  shows "frame_step i (h, tr) (h', tr')"
  using assms by (simp add: frame_step_def users_def refs_def frame_completed_def)

lemma frame_step_trans:
  assumes "frame_step i s1 s2" and "frame_step i s2 s3"
  shows "frame_step i s1 s3"
proof -
  obtain evs1 where 1: "snd s2 = snd s1 @ evs1" "users i (fst s2) \<subseteq> users i (fst s1)"
      "frame_completed i s2 \<longrightarrow> frame_completed i s1 \<or> (\<exists>p \<in> users i (fst s1) - users i (fst s2). \<exists>ev \<in> set evs1. completes p ev)"
    using assms(1) unfolding frame_step_def by blast
  obtain evs2 where 2: "snd s3 = snd s2 @ evs2" "users i (fst s3) \<subseteq> users i (fst s2)"
      "frame_completed i s3 \<longrightarrow> frame_completed i s2 \<or> (\<exists>p \<in> users i (fst s2) - users i (fst s3). \<exists>ev \<in> set evs2. completes p ev)"
    using assms(2) unfolding frame_step_def by blast
  show ?thesis
    unfolding frame_step_def
    by (intro exI [of _ "evs1 @ evs2"]) (use 1 2 in auto)
qed

lemma set_completed_effect:
  assumes "set_completed j upd h = (r, h')"
  shows "op_heap h' = op_heap h \<and> (i \<noteq> j \<longrightarrow> cl_frames h' i = cl_frames h i)"
  using assms by (auto simp: set_completed_def split: option.splits)

lemma pcfg_extends: "apply_remote_pcfg e d h tr = (r, tr') \<Longrightarrow> \<exists>evs. tr' = tr @ evs"
  by (auto simp: apply_remote_pcfg_def env_simps Let_def split: if_splits sum.splits prod.splits)

lemma get_remote_descriptor_extends:
  "ClientHandler_get_remote_descriptor e c h tr = (r, h', tr') \<Longrightarrow>
     (\<exists>evs. tr' = tr @ evs) \<and> op_heap h' = op_heap h \<and> cl_frames h' = cl_frames h"
  by (frule get_remote_descriptor_frames)
    (auto simp: ClientHandler_get_remote_descriptor_def env_simps Let_def
      split: option.splits prod.splits if_splits sum.splits dest!: pcfg_extends)

lemma callback_effect:
  assumes "RpmaOp_do_callback (ClientHandler_run e c) x h tr = (r, h', tr')"
  shows "op_heap h' = op_heap h \<and> (\<exists>evs. tr' = tr @ evs) \<and>
         (frame_of (func x) \<noteq> Some i \<longrightarrow> cl_frames h' i = cl_frames h i)"
  using assms
  by (cases "func x")
    (auto simp: RpmaOp_do_callback_def ClientHandler_run_def split: option.splits prod.splits sum.splits
      dest!: set_completed_effect [where i = i] get_remote_descriptor_extends)

lemma completion_frame_step:
  assumes run: "ConnectionHandler_handle_completion e (ClientHandler_run e c) h tr = (r, h', tr')"
  shows "frame_step i (h, tr) (h', tr')"
proof -
  let ?q = "rc_conn (ch_conn h)"
  obtain ret cmpl where g: "e_conn_completion_get (conn_of e) (tr @ [Conn (Ev_conn_completion_wait ?q 0)]) ?q = (ret, cmpl)"
    by (metis prod.exhaust)
  show ?thesis
  proof (cases "e_conn_completion_wait (conn_of e) tr ?q = 0 \<and> ret = 0 \<and> op_status cmpl = IBV_WC_SUCCESS \<and>
      (\<exists>p x. op_context cmpl = Some p \<and> op_heap h p = Some x)")
    case False
    then have "op_heap h' = op_heap h \<and> cl_frames h' = cl_frames h \<and> (\<exists>evs. tr' = tr @ evs)"
      using run g
      by (auto simp: ConnectionHandler_handle_completion_def env_simps obj_defs split: if_splits option.splits)
    then show ?thesis using frame_step_same by metis
  next
    case True
    then obtain p x where p: "op_context cmpl = Some p" "op_heap h p = Some x" by blast
    let ?h1 = "h\<lparr>callback_table := callback_table h - {p}\<rparr>"
    let ?evs = "[Conn (Ev_conn_completion_wait ?q 0), Conn (Ev_conn_completion_get ?q (0, cmpl))]"
    obtain r2 h2 tr3 where d: "RpmaOp_do_callback (ClientHandler_run e c) x ?h1 (tr @ ?evs) = (r2, h2, tr3)"
      by (metis prod_cases3)
    have res: "h' = delete_op p h2" "tr' = tr3"
      using run True g p d by (auto simp: ConnectionHandler_handle_completion_def env_simps obj_defs)
    obtain evs where evs: "tr3 = (tr @ ?evs) @ evs" using callback_effect [OF d] by blast
    have u: "users i h' = users i h - {p}"
      using callback_effect [OF d] by (auto simp: users_def res refs_delete) (auto simp: refs_def)
    have f: "cl_frames h' i = cl_frames h i" if "p \<notin> users i h"
      using callback_effect [OF d, of i] that p(2) by (auto simp: res users_def refs_def)
    have "completes p (Conn (Ev_conn_completion_get ?q (0, cmpl)))" using p(1) True by (simp add: completes_def)
    with u f evs res show ?thesis
      by (cases "p \<in> users i h") (auto simp: frame_step_def frame_completed_def)
  qed
qed

lemma remove_extends: "remove_pair e i h ro tr = (ret, ro', tr') \<Longrightarrow> \<exists>evs. tr' = tr @ evs"
  by (auto simp: remove_pair_def Reactor_remove_handler_def env_simps Let_def split: option.splits prod.splits if_splits)

lemma handle_frame_step:
  assumes run: "ClientHandler_handle e c j et h ro tr = (r, h', ro', tr')"
  shows "frame_step i (h, tr) (h', tr')"
proof (cases "et = COMPLETION_EVENT")
  case True
  then show ?thesis
    using run completion_frame_step
    by (auto simp: ClientHandler_handle_def ConnectionHandler_handle_def split: prod.splits)
next
  case False
  then have "op_heap h' = op_heap h \<and> cl_frames h' = cl_frames h \<and> (\<exists>evs. tr' = tr @ evs)"
    using run
    by (auto simp: ClientHandler_handle_def ConnectionHandler_handle_def ConnectionHandler_handle_connection_event_def
        ClientHandler_remove_self_def env_simps obj_defs Let_def split: if_splits prod.splits dest!: remove_extends)
  then show ?thesis using frame_step_same by metis
qed

subsection \<open>The reactor's thread\<close>

text \<open>
  What the reactor's thread does between two steps of \<open>main\<close>: nothing, a call of epoll, the
  arrival of a message, or one handled event.
\<close>

inductive th1_step :: "env \<Rightarrow> ceph_codec \<Rightarrow> client_state \<Rightarrow> client_state \<Rightarrow> bool" for e c where
  idle: "th1_step e c s s"
| polls: "th1_step e c (h, tr) (h, tr @ [Poll x])"
| arrives: "th1_step e c (h, tr) (h\<lparr>recv_bl := msg\<rparr>, tr)"
| event: "ClientHandler_handle e c j et h ro tr = (Inr v, h', ro', tr') \<Longrightarrow> th1_step e c (h, tr) (h', tr')"
| more: "th1_step e c s1 s2 \<Longrightarrow> th1_step e c s2 s3 \<Longrightarrow> th1_step e c s1 s3"

lemma th1_frame_step: "th1_step e c s s' \<Longrightarrow> frame_step i s s'"
proof (induction rule: th1_step.induct)
  case (idle s)
  then show ?case by (cases s) (simp add: frame_step_same)
next
  case (polls h tr x)
  then show ?case by (simp add: frame_step_same)
next
  case (arrives h tr msg)
  then show ?case by (simp add: frame_step_same)
next
  case (event j et h ro tr v h' ro' tr')
  then show ?case by (rule handle_frame_step)
next
  case (more s1 s2 s3)
  then show ?case by (blast intro: frame_step_trans)
qed

text \<open>A loop that waits ends in a state the reactor's thread brought about.\<close>

lemma spin_th1:
  assumes "\<forall>k s. th1_step e c s (sched k s)"
  shows "spin_loop sched fin n k s = Some s' \<Longrightarrow> th1_step e c s s' \<and> fin s'"
proof (induction n arbitrary: k s)
  case (Suc n)
  have "th1_step e c s (sched k s)" using assms by blast
  with Suc.IH [of "Suc k" "sched k s"] Suc.prems show ?case
    by (cases "fin s") (auto intro: th1_step.idle th1_step.more)
qed simp

lemma wait_loop_th1:
  assumes "\<forall>k s. th1_step e c s (sched k s)"
  shows "wait_loop sched clk fin n k cost s = Some s' \<Longrightarrow> th1_step e c s s'"
proof (induction n arbitrary: k cost s)
  case (Suc n)
  have "th1_step e c s (sched k s)" using assms by blast
  with Suc.IH [of "Suc k" "clk k" "sched k s"] Suc.prems show ?case
    by (auto split: if_splits intro: th1_step.idle th1_step.more)
qed simp

lemma wait_established_th1:
  assumes "\<forall>k s. th1_step e c s (sched k s)"
  shows "wait_established sched n k s = Some s' \<Longrightarrow> th1_step e c s s'"
proof (induction n arbitrary: k s)
  case (Suc n)
  have "th1_step e c s (sched k s)" using assms by blast
  with Suc.IH [of "Suc k" "sched k s"] Suc.prems show ?case
    by (auto split: if_splits intro: th1_step.idle th1_step.more)
qed simp

text \<open>The wait for a frame that one operation sets: it ends with the completion of that operation.\<close>

lemma spin_waits:
  assumes "\<forall>k s. th1_step e c s (sched k s)" and "users i h \<subseteq> {p}" and "\<not> frame_completed i (h, tr)"
    and "spin_loop sched (frame_completed i) n k (h, tr) = Some (h', tr')"
  shows "\<exists>evs. tr' = tr @ evs \<and> (\<exists>ev \<in> set evs. completes p ev) \<and> users i h = {p} \<and> users i h' = {}"
proof -
  obtain evs q where evs: "tr' = tr @ evs" "users i h' \<subseteq> users i h" "q \<in> users i h - users i h'"
      "\<exists>ev \<in> set evs. completes q ev"
    using spin_th1 [OF assms(1,4)] th1_frame_step [of e c "(h, tr)" "(h', tr')" i] assms(3) by (auto simp: frame_step_def)
  with assms(2) have "q = p" "users i h = {p}" "users i h' = {}" by blast+
  with evs show ?thesis by blast
qed

text \<open>The reactor's thread keeps the ownership of the operations.\<close>

lemma handle_ops:
  assumes inv: "ops_inv {} h" and run: "ClientHandler_handle e c j et h ro tr = (Inr v, h', ro', tr')"
  shows "ops_inv {} h'"
proof (cases "et = COMPLETION_EVENT")
  case False
  with assms show ?thesis
    by (auto simp: ClientHandler_handle_def ConnectionHandler_handle_def ConnectionHandler_handle_connection_event_def
        obj_defs Let_def split: if_splits prod.splits)
next
  case True
  then have q: "ConnectionHandler_handle_completion e (ClientHandler_run e c) h tr = (Inr v, h', tr')"
    using run by (auto simp: ClientHandler_handle_def ConnectionHandler_handle_def split: prod.splits)
  show ?thesis
  proof (cases "completion_ok e h tr")
    case True
    from client_callbacks.completion_ops [OF inv True q] show ?thesis by simp
  next
    case False
    from stray_completion [OF inv False q] inv show ?thesis by auto
  qed
qed

lemma th1_ops: "th1_step e c s s' \<Longrightarrow> ops_inv {} (fst s) \<Longrightarrow> ops_inv {} (fst s')"
  by (induction rule: th1_step.induct) (auto intro: handle_ops)

subsection \<open>What the reactor's thread leaves alone\<close>

text \<open>
  It posts nothing and registers nothing, it takes operations out of the heap and puts none in,
  and frames live on. The region and the flush type of the image change only by the
  callback of an init request whose frame is alive.
\<close>

fun inert :: "event \<Rightarrow> bool" where
  "inert (Post x) = False"
| "inert (Mr (Ev_mr_reg p a n u r)) = False"
| "inert ev = True"

definition init_live :: "ClientHandler \<Rightarrow> nat set" where
  "init_live h = {i \<in> dom (cl_frames h). \<exists>p x. op_heap h p = Some x \<and> func x = Init_replica_done i}"

fun learns :: "ptr option \<Rightarrow> event \<Rightarrow> bool" where
  "learns img (Mr (Ev_mr_remote_from_descriptor d (r, m))) = (m = img)"
| "learns img ev = False"

definition learned :: "ptr option \<Rightarrow> trace \<Rightarrow> bool" where
  "learned img tr \<longleftrightarrow> (\<exists>ev \<in> set tr. learns img ev)"

definition th1_frame :: "client_state \<Rightarrow> client_state \<Rightarrow> bool" where
  "th1_frame s s' \<longleftrightarrow> (case (s, s') of ((h, tr), (h', tr')) \<Rightarrow>
     op_heap h' \<subseteq>\<^sub>m op_heap h \<and> dom (cl_frames h') = dom (cl_frames h) \<and> cl_next_frame h' = cl_next_frame h \<and>
     rc_conn (ch_conn h') = rc_conn (ch_conn h) \<and> cl_data_mr h' = cl_data_mr h \<and> appends inert tr tr' \<and>
     (cl_image_mr h' = cl_image_mr h \<or> learned (cl_image_mr h') tr') \<and>
     (init_live h = {} \<longrightarrow> cl_image_mr h' = cl_image_mr h \<and> cl_flush_type h' = cl_flush_type h))"

lemma init_live_mono:
  "op_heap h' \<subseteq>\<^sub>m op_heap h \<Longrightarrow> dom (cl_frames h') = dom (cl_frames h) \<Longrightarrow> init_live h' \<subseteq> init_live h"
  by (force simp: init_live_def map_le_def dom_def)

lemma learned_mono: "learned img tr \<Longrightarrow> appends P tr tr' \<Longrightarrow> learned img tr'"
  by (auto simp: learned_def appends_def)

lemma th1_frame_trans:
  assumes "th1_frame s1 s2" and "th1_frame s2 s3"
  shows "th1_frame s1 s3"
proof -
  obtain h1 t1 h2 t2 h3 t3 where s: "s1 = (h1, t1)" "s2 = (h2, t2)" "s3 = (h3, t3)" by (metis prod.exhaust)
  note 12 = assms(1) [unfolded s th1_frame_def prod.case] and 23 = assms(2) [unfolded s th1_frame_def prod.case]
  have "op_heap h3 \<subseteq>\<^sub>m op_heap h1" using 12 23 by (blast intro: map_le_trans)
  moreover have "appends inert t1 t3" using 12 23 by (blast intro: appends_trans)
  moreover have "init_live h2 \<subseteq> init_live h1" using 12 by (simp add: init_live_mono)
  moreover have "cl_image_mr h3 = cl_image_mr h1 \<or> learned (cl_image_mr h3) t3"
    using 12 23 learned_mono by metis
  ultimately show ?thesis using 12 23 unfolding s th1_frame_def prod.case by auto
qed

lemma inert_pcfg: "apply_remote_pcfg e d h tr = (r, tr') \<Longrightarrow> appends inert tr tr'"
  by (auto simp: apply_remote_pcfg_def env_simps Let_def split: if_splits sum.splits prod.splits)

lemma inert_remote:
  assumes "ClientHandler_get_remote_descriptor e c h tr = (r, h', tr')"
  shows "appends inert tr tr' \<and> (cl_image_mr h' = cl_image_mr h \<or> learned (cl_image_mr h') tr')"
proof -
  have more: "appends inert tr (t @ evs)" if "appends inert tr t" "\<forall>ev \<in> set evs. inert ev" for t evs
    using that appends_trans [of inert tr t "t @ evs"] by simp
  show ?thesis
    using assms
    by (auto simp: ClientHandler_get_remote_descriptor_def env_simps Let_def learned_def
        split: option.splits prod.splits if_splits sum.splits dest!: inert_pcfg intro!: more)
qed

lemma set_completed_frame:
  "set_completed i upd h = (r, h') \<Longrightarrow> op_heap h' = op_heap h \<and> dom (cl_frames h') = dom (cl_frames h) \<and>
     cl_next_frame h' = cl_next_frame h \<and> cl_image_mr h' = cl_image_mr h \<and> cl_flush_type h' = cl_flush_type h \<and>
     (r = Inr () \<longrightarrow> i \<in> dom (cl_frames h))"
  by (auto simp: set_completed_def dom_def split: option.splits if_splits)

lemma th1_callback_frame:
  assumes "RpmaOp_do_callback (ClientHandler_run e c) x h tr = (Inr v, h', tr')"
  shows "op_heap h' = op_heap h \<and> dom (cl_frames h') = dom (cl_frames h) \<and> cl_next_frame h' = cl_next_frame h \<and>
     appends inert tr tr' \<and> (cl_image_mr h' = cl_image_mr h \<or> learned (cl_image_mr h') tr') \<and>
     ((\<forall>i \<in> dom (cl_frames h). func x \<noteq> Init_replica_done i) \<longrightarrow>
        cl_image_mr h' = cl_image_mr h \<and> cl_flush_type h' = cl_flush_type h)"
proof (cases "func x")
  case (Init_replica_done i)
  then obtain v1 h1 where g: "ClientHandler_get_remote_descriptor e c h tr = (Inr v1, h1, tr')"
      and s: "set_completed i id h1 = (Inr (), h')"
    using assms by (auto simp: RpmaOp_do_callback_def ClientHandler_run_def split: prod.splits sum.splits)
  from set_completed_frame [OF s] get_remote_descriptor_frames [OF g] inert_remote [OF g] Init_replica_done
  show ?thesis by auto
qed (use assms in \<open>auto simp: RpmaOp_do_callback_def ClientHandler_run_def split: option.splits prod.splits
       dest!: set_completed_frame\<close>)

lemma th1_completion_frame:
  assumes run: "ConnectionHandler_handle_completion e (ClientHandler_run e c) h tr = (Inr v, h', tr')"
  shows "op_heap h' \<subseteq>\<^sub>m op_heap h \<and> dom (cl_frames h') = dom (cl_frames h) \<and> cl_next_frame h' = cl_next_frame h \<and>
     appends inert tr tr' \<and> (cl_image_mr h' = cl_image_mr h \<or> learned (cl_image_mr h') tr') \<and>
     (init_live h = {} \<longrightarrow> cl_image_mr h' = cl_image_mr h \<and> cl_flush_type h' = cl_flush_type h)"
proof -
  let ?q = "rc_conn (ch_conn h)"
  obtain ret cmpl where g: "e_conn_completion_get (conn_of e) (tr @ [Conn (Ev_conn_completion_wait ?q 0)]) ?q = (ret, cmpl)"
    by (metis prod.exhaust)
  show ?thesis
  proof (cases "e_conn_completion_wait (conn_of e) tr ?q = 0 \<and> ret = 0 \<and> op_status cmpl = IBV_WC_SUCCESS \<and>
      op_context cmpl \<noteq> None")
    case False
    then show ?thesis
      using run g by (auto simp: ConnectionHandler_handle_completion_def env_simps obj_defs split: if_splits)
  next
    case True
    then obtain p where p: "op_context cmpl = Some p" by blast
    let ?h1 = "h\<lparr>callback_table := callback_table h - {p}\<rparr>"
    let ?evs = "[Conn (Ev_conn_completion_wait ?q 0), Conn (Ev_conn_completion_get ?q (0, cmpl))]"
    have "op_heap h p \<noteq> None"
      using run True g p by (cases "op_heap h p") (auto simp: ConnectionHandler_handle_completion_def env_simps obj_defs)
    then obtain x where x: "op_heap h p = Some x" by blast
    obtain r2 h2 tr3 where d: "RpmaOp_do_callback (ClientHandler_run e c) x ?h1 (tr @ ?evs) = (r2, h2, tr3)"
      by (metis prod_cases3)
    have r: "map_sum id (\<lambda>_. 0) r2 = Inr v" and h': "h' = delete_op p h2" and "tr' = tr3"
      using run True g p x d by (auto simp: ConnectionHandler_handle_completion_def env_simps obj_defs)
    with d obtain u where "RpmaOp_do_callback (ClientHandler_run e c) x ?h1 (tr @ ?evs) = (Inr u, h2, tr')"
      by (cases r2) auto
    note f = th1_callback_frame [OF this]
    have "op_heap h' \<subseteq>\<^sub>m op_heap h" using f by (auto simp: h' delete_op_def map_le_def)
    moreover have "appends inert tr tr'" using f appends_trans [of inert tr "tr @ ?evs" tr'] by simp
    moreover have "func x \<noteq> Init_replica_done i" if "init_live h = {}" "i \<in> dom (cl_frames h)" for i
      using that x by (auto simp: init_live_def)
    ultimately show ?thesis using f by (auto simp: h' delete_op_def)
  qed
qed

lemma inert_remove: "remove_pair e i h ro tr = (ret, ro', tr') \<Longrightarrow> appends inert tr tr'"
  by (auto simp: remove_pair_def Reactor_remove_handler_def env_simps Let_def split: option.splits prod.splits if_splits)

lemma th1_handle_frame:
  assumes run: "ClientHandler_handle e c j et h ro tr = (Inr v, h', ro', tr')"
  shows "th1_frame (h, tr) (h', tr')"
proof -
  have same: "rc_conn (ch_conn h') = rc_conn (ch_conn h) \<and> cl_data_mr h' = cl_data_mr h"
    using client_handle_quiet [OF run] by (simp add: same_client_def)
  show ?thesis
  proof (cases "et = COMPLETION_EVENT")
    case True
    then have "ConnectionHandler_handle_completion e (ClientHandler_run e c) h tr = (Inr v, h', tr')"
      using run by (auto simp: ClientHandler_handle_def ConnectionHandler_handle_def split: prod.splits)
    from th1_completion_frame [OF this] same show ?thesis by (simp add: th1_frame_def)
  next
    case False
    have more: "appends inert tr t" if "appends inert (tr @ [Conn x]) t" for t x
      using that appends_trans [of inert tr "tr @ [Conn x]" t] by simp
    from False run same show ?thesis
      by (auto simp: th1_frame_def ClientHandler_handle_def ConnectionHandler_handle_def ConnectionHandler_handle_connection_event_def
          ClientHandler_remove_self_def env_simps obj_defs Let_def split: if_splits prod.splits dest!: inert_remove more)
  qed
qed

lemma th1_frame: "th1_step e c s s' \<Longrightarrow> th1_frame s s'"
proof (induction rule: th1_step.induct)
  case (idle s)
  then show ?case by (cases s) (simp add: th1_frame_def)
next
  case (event j et h ro tr v h' ro' tr')
  then show ?case by (rule th1_handle_frame)
next
  case (more s1 s2 s3)
  then show ?case by (blast intro: th1_frame_trans)
qed (simp_all add: th1_frame_def init_live_def)

end
