(* ===== verification/Client_Transfer.thy ===== *)
theory Client_Transfer
  imports Client_Threads
begin

text \<open>
  The transfer of the client program: a post and the wait for its completion, and the
  order in which the data is written, flushed and the connection given up.
\<close>

subsection \<open>Writing, then flushing\<close>

lemma posted_users:
  assumes "op_heap h (op_next h) = None" and "posted k (User_callback i) ret h h'"
  shows "users i h' = (if ret = 0 then insert (op_next h) (users i h) else users i h)"
  using assms by (auto simp: posted_def users_def refs_def split: if_splits)

text \<open>What a post leaves of the client, besides the operation it adds.\<close>

definition same_image :: "ClientHandler \<Rightarrow> ClientHandler \<Rightarrow> bool" where
  "same_image h h' \<longleftrightarrow> rc_conn (ch_conn h') = rc_conn (ch_conn h) \<and> cl_image_mr h' = cl_image_mr h \<and>
     cl_flush_type h' = cl_flush_type h \<and> cl_data_mr h' = cl_data_mr h \<and> cl_next_frame h' = cl_next_frame h"

lemma same_image_trans: "same_image h1 h2 \<Longrightarrow> same_image h2 h3 \<Longrightarrow> same_image h1 h3"
  by (simp add: same_image_def)

lemma same_image_settle: "new_op k cb h = (p, h1) \<Longrightarrow> same_image h (settle_op p ret h1)"
  by (auto simp: same_image_def new_op_def settle_op_def delete_op_def)

definition posts :: "op_class \<Rightarrow> callback \<Rightarrow> int \<Rightarrow> ClientHandler \<Rightarrow> ClientHandler \<Rightarrow> bool" where
  "posts k cb ret h h' \<longleftrightarrow> posted k cb ret h h' \<and> cl_frames h' = cl_frames h \<and> same_image h h'"

lemma write_post:
  assumes "ops_inv B h" and "ClientHandler_write e off len cb h tr = (Inr ret, h', tr')"
  shows "tr' = tr @ [Post (Ev_write (rc_conn (ch_conn h)) (cl_image_mr h) off (cl_data_mr h) off len
           RPMA_F_COMPLETION_ALWAYS (Some (op_next h)) ret)] \<and> posts RpmaWrite cb ret h h'"
proof -
  obtain p h1 where n: "new_op RpmaWrite cb h = (p, h1)" by (metis prod.exhaust)
  with settle_posted [OF next_op_unused [OF assms(1)] n, of ret] refs_post(2) [OF n, of ret] same_image_settle [OF n, of ret] assms(2)
  show ?thesis
    by (auto simp: ClientHandler_write_def posts_def new_op_def env_simps obj_defs split: if_splits)
qed

lemma flush_post:
  assumes "ops_inv B h" and "ClientHandler_flush e off len cb h tr = (Inr ret, h', tr')"
  shows "tr' = tr @ [Post (Ev_flush (rc_conn (ch_conn h)) (cl_image_mr h) off len (cl_flush_type h)
           RPMA_F_COMPLETION_ALWAYS (Some (op_next h)) ret)] \<and> posts RpmaFlush cb ret h h'"
proof -
  obtain p h1 where n: "new_op RpmaFlush cb h = (p, h1)" by (metis prod.exhaust)
  with settle_posted [OF next_op_unused [OF assms(1)] n, of ret] refs_post(2) [OF n, of ret] same_image_settle [OF n, of ret] assms(2)
  show ?thesis
    by (auto simp: ClientHandler_flush_def posts_def new_op_def env_simps obj_defs split: if_splits)
qed

lemma reset_completed_same [simp]:
  "ops_inv B (reset_completed i h) = ops_inv B h" "users j (reset_completed i h) = users j h"
  "\<not> frame_completed i (reset_completed i h, tr)" "dom (cl_frames (reset_completed i h)) = dom (cl_frames h)" "init_live (reset_completed i h) = init_live h"
  "rc_conn (ch_conn (reset_completed i h)) = rc_conn (ch_conn h)" "same_image h1 (reset_completed i h) = same_image h1 h"
  by (simp_all add: reset_completed_def users_def refs_def frame_completed_def init_live_def same_image_def dom_def
      split: option.splits) auto

text \<open>
  A frame is ready when it is alive, no operation refers to it and it is not marked as completed. Frames are
  numbered in the order of their calls, so a reference is to an earlier one.
\<close>

definition refs_below :: "ClientHandler \<Rightarrow> bool" where
  "refs_below h \<longleftrightarrow> snd ` refs h \<subseteq> {..<cl_next_frame h}"

lemma frames_inv_below: "frames_inv h \<Longrightarrow> refs_below h"
  by (fastforce simp: frames_inv_def refs_below_def waiting_def)

definition ready :: "nat \<Rightarrow> client_state \<Rightarrow> bool" where
  "ready i s \<longleftrightarrow> ops_inv {} (fst s) \<and> users i (fst s) = {} \<and>
     i \<in> dom (cl_frames (fst s)) \<and> \<not> frame_completed i s"

lemma ready_pushed:
  assumes "ops_inv {} h" and "refs_below h" and push: "push_frame h = (i, h1)"
  shows "ready i (h1, tr)" and "init_live h = {} \<Longrightarrow> init_live h1 = {}"
proof -
  have "users i h1 = {}"
    using assms(2) pushed_frame(1,2) [OF push] by (force simp: users_def refs_below_def)
  then show "ready i (h1, tr)"
    using assms(1) push by (auto simp: ready_def push_frame_def frame_completed_def)
  show "init_live h1 = {}" if "init_live h = {}"
    using assms(2) that push by (fastforce simp: init_live_def push_frame_def refs_below_def refs_def split: if_splits)
qed

lemma posts_init_live:
  "posts k (User_callback i) ret h h1 \<Longrightarrow> init_live h = {} \<Longrightarrow> init_live h1 = {}"
  by (fastforce simp: posts_def posted_def init_live_def split: if_splits)

text \<open>
  A post on a frame that is ready, then the wait: it ends only if the post succeeded, and with the
  completion of the posted operation. The frame can be used again, and the image is the same.
\<close>

lemma post_waits:
  assumes th1: "\<forall>k s. th1_step e c s (sched k s)" and ready: "ready i (h, tr)"
    and post: "post h tr = (Inr ret, h1, tr @ [ev])" "posts k (User_callback i) ret h h1" "ops_inv {} h1"
    and run: "post_and_spin post sched fuel i h tr = Some (r, h', tr')"
  shows "r = Inr () \<and> ret = 0 \<and> ready i (reset_completed i h', tr') \<and>
    (init_live h = {} \<longrightarrow> init_live (reset_completed i h') = {} \<and> same_image h (reset_completed i h')) \<and>
    (\<exists>evs. tr' = tr @ [ev] @ evs \<and> (\<exists>x \<in> set evs. completes (op_next h) x) \<and> (\<forall>x \<in> set evs. inert x))"
proof -
  have fr: "posted k (User_callback i) ret h h1" "cl_frames h1 = cl_frames h" "same_image h h1"
    using post(2) by (simp_all add: posts_def)
  have ops: "ops_inv {} h" and u0: "users i h = {}" and nf0: "\<not> frame_completed i (h, tr)"
    using ready by (simp_all add: ready_def)
  have u: "users i h1 = (if ret = 0 then {op_next h} else {})"
    using posted_users [OF next_op_unused [OF ops] fr(1)] u0 by simp
  have nf: "\<not> frame_completed i (h1, tr @ [ev])" using nf0 fr(2) by (simp add: frame_completed_def)
  obtain w: "spin_loop sched (frame_completed i) fuel 0 (h1, tr @ [ev]) = Some (h', tr')" and r: "r = Inr ()"
    using run post(1) by (auto simp: post_and_spin_def split: option.splits)
  have t: "th1_step e c (h1, tr @ [ev]) (h', tr')" using spin_th1 [OF th1 w] by blast
  have f: "op_heap h' \<subseteq>\<^sub>m op_heap h1" "dom (cl_frames h') = dom (cl_frames h1)" "appends inert (tr @ [ev]) tr'"
      "init_live h1 = {} \<Longrightarrow> same_image h1 h'"
    using th1_frame [OF t] by (simp_all add: th1_frame_def same_image_def)
  have img: "init_live h' = {} \<and> same_image h h'" if "init_live h = {}"
    using posts_init_live [OF post(2) that] init_live_mono [OF f(1,2)] same_image_trans [OF fr(3) f(4)] by simp
  obtain evs where evs: "tr' = (tr @ [ev]) @ evs" "\<forall>x \<in> set evs. inert x"
    using f(3) by (auto simp: appends_def)
  have "users i h1 \<subseteq> {op_next h}" using u by simp
  from spin_waits [OF th1 this nf w] evs u have c: "ret = 0" "users i h' = {}" "\<exists>x \<in> set evs. completes (op_next h) x"
    by (auto split: if_splits)
  moreover have "ops_inv {} h'" using th1_ops [OF t] post(3) by simp
  moreover have "i \<in> dom (cl_frames h')" using ready f(2) fr(2) by (simp add: ready_def)
  ultimately have "ready i (reset_completed i h', tr')"
    by (simp add: ready_def)
  with r c evs img show ?thesis by auto
qed

lemma transfer_waits:
  assumes ops: "ops_inv {} h" and below: "refs_below h" and il: "init_live h = {}"
    and th1: "\<forall>p k s. th1_step e c s (sched p k s)"
    and run: "client_transfer e sched fuel h tr = Some (Inr (), h', tr')"
  shows "\<exists>p q evs1 evs2 r.
     tr' = tr @ [Post (Ev_write (rc_conn (ch_conn h)) (cl_image_mr h) 0 (cl_data_mr h) 0 mr_size RPMA_F_COMPLETION_ALWAYS (Some p) 0)]
              @ evs1 @ [Post (Ev_flush (rc_conn (ch_conn h)) (cl_image_mr h) 0 mr_size (cl_flush_type h) RPMA_F_COMPLETION_ALWAYS (Some q) 0)]
              @ evs2 @ [Conn (Ev_conn_disconnect (rc_conn (ch_conn h)) r)] \<and>
     (\<exists>ev \<in> set evs1. completes p ev) \<and> (\<exists>ev \<in> set evs2. completes q ev) \<and> (\<forall>ev \<in> set (evs1 @ evs2). inert ev) \<and> ops_inv {} h'"
proof -
  obtain i h1 where push: "push_frame h = (i, h1)" by (metis prod.exhaust)
  have h1: "ready i (h1, tr)" "init_live h1 = {}" "op_next h1 = op_next h" "ch_conn h1 = ch_conn h" "cl_image_mr h1 = cl_image_mr h"
      "cl_data_mr h1 = cl_data_mr h" "cl_flush_type h1 = cl_flush_type h"
    using ready_pushed [OF ops below push] il push by (auto simp: push_frame_def)
  have o1: "ops_inv {} h1" using h1(1) by (simp add: ready_def)
  obtain h2 tr2 where w: "post_and_spin (ClientHandler_write e 0 mr_size (User_callback i)) (sched 2) fuel i h1 tr = Some (Inr (), h2, tr2)"
      and rest: "\<exists>h3 tr3. post_and_spin (ClientHandler_flush e 0 mr_size (User_callback i)) (sched 3) fuel i (reset_completed i h2) tr2 = Some (Inr (), h3, tr3) \<and>
        (\<exists>r. tr' = tr3 @ [Conn (Ev_conn_disconnect (rc_conn (ch_conn h3)) r)]) \<and> ops_inv {} h' = ops_inv {} h3"
    using run push
    by (auto simp: client_transfer_def ClientHandler_disconnect_def env_simps obj_defs
        split: option.splits prod.splits sum.splits)
  obtain ret hw where pw: "ClientHandler_write e 0 mr_size (User_callback i) h1 tr = (Inr ret, hw, tr @ [Post (Ev_write (rc_conn (ch_conn h)) (cl_image_mr h) 0 (cl_data_mr h) 0 mr_size
           RPMA_F_COMPLETION_ALWAYS (Some (op_next h)) ret)])" "posts RpmaWrite (User_callback i) ret h1 hw"
    using w write_post [OF o1] h1 by (auto simp: post_and_spin_def split: sum.splits prod.splits)
  note a = post_waits [OF spec [OF th1] h1(1) pw write_ops [OF o1 pw(1)] w]
  let ?h2 = "reset_completed i h2"
  have h2: "ready i (?h2, tr2)" "init_live ?h2 = {}" and s2: "same_image h1 ?h2"
    using a h1(2) by blast+
  have o2: "ops_inv {} ?h2" using h2(1) by (simp add: ready_def)
  obtain h3 tr3 r where f: "post_and_spin (ClientHandler_flush e 0 mr_size (User_callback i)) (sched 3) fuel i ?h2 tr2 = Some (Inr (), h3, tr3)"
      and tr': "tr' = tr3 @ [Conn (Ev_conn_disconnect (rc_conn (ch_conn h3)) r)]" "ops_inv {} h' = ops_inv {} h3"
    using rest by blast
  obtain ret2 hf where pf: "ClientHandler_flush e 0 mr_size (User_callback i) ?h2 tr2 = (Inr ret2, hf, tr2 @ [Post (Ev_flush (rc_conn (ch_conn h)) (cl_image_mr h) 0 mr_size (cl_flush_type h)
           RPMA_F_COMPLETION_ALWAYS (Some (op_next ?h2)) ret2)])" "posts RpmaFlush (User_callback i) ret2 ?h2 hf"
    using f flush_post [OF o2] s2 h1 by (auto simp: post_and_spin_def same_image_def split: sum.splits prod.splits)
  note b = post_waits [OF spec [OF th1] h2(1) pf flush_ops [OF o2 pf(1)] f]
  have "rc_conn (ch_conn h3) = rc_conn (ch_conn h)" using b h2(2) s2 h1(4) by (auto simp: same_image_def)
  moreover obtain evs1 where "tr2 = tr @ [Post (Ev_write (rc_conn (ch_conn h)) (cl_image_mr h) 0 (cl_data_mr h) 0 mr_size RPMA_F_COMPLETION_ALWAYS (Some (op_next h)) 0)] @ evs1"
      "\<exists>x \<in> set evs1. completes (op_next h) x" "\<forall>x \<in> set evs1. inert x"
    using a h1(3) by auto
  moreover obtain evs2 where "tr3 = tr2 @ [Post (Ev_flush (rc_conn (ch_conn h)) (cl_image_mr h) 0 mr_size (cl_flush_type h) RPMA_F_COMPLETION_ALWAYS (Some (op_next ?h2)) 0)] @ evs2"
      "\<exists>x \<in> set evs2. completes (op_next ?h2) x" "\<forall>x \<in> set evs2. inert x"
    using b by auto
  moreover have "ops_inv {} h'" using b tr'(2) by (simp add: ready_def)
  ultimately show ?thesis
    using tr'(1) by (intro exI [of _ "op_next h"] exI [of _ "op_next ?h2"] exI [of _ evs1] exI [of _ evs2] exI [of _ r]) auto
qed

text \<open>A post that fails leaves nothing that could end the wait for it.\<close>

lemma failed_post_spins:
  assumes th1: "\<forall>k s. th1_step e c s (sched k s)"
    and ready: "ready i (h, tr)"
    and post: "post h tr = (Inr ret, h1, tr @ [ev])" "posts k (User_callback i) ret h h1" "ops_inv {} h1"
    and ret: "ret \<noteq> 0"
  shows "post_and_spin post sched fuel i h tr = None"
proof (cases "post_and_spin post sched fuel i h tr")
  case (Some x)
  then obtain r h' tr' where "post_and_spin post sched fuel i h tr = Some (r, h', tr')" by (metis prod_cases3)
  from post_waits [OF th1 ready post this] ret show ?thesis by blast
qed

subsection \<open>An environment in which operations complete in order\<close>

text \<open>The operation posted last completes successfully, and regions and connections are new ones.\<close>

fun last_context :: "ptr option \<Rightarrow> event \<Rightarrow> ptr option" where
  "last_context x (Post (Ev_recv q m i n c r)) = c"
| "last_context x (Post (Ev_write q d i m j n f c r)) = c"
| "last_context x (Post (Ev_flush q d i n t f c r)) = c"
| "last_context x ev = x"

definition completing_env :: env where
  "completing_env = (client_env REQUIRE_SIZE)\<lparr>setup_of := setup_of (tracked_env True),
     mr_of := (mr_of (client_env REQUIRE_SIZE))\<lparr>e_mr_reg := e_mr_reg (mr_of (tracked_env True))\<rparr>, conn_of := demo_conn\<lparr>
     e_conn_completion_get := (\<lambda>tr q. (0, \<lparr>op_context = foldl last_context None tr, op = RPMA_OP_WRITE, byte_len = 0, op_status = 0\<rparr>))\<rparr>\<rparr>"

lemmas completing_defs = completing_env_def client_env_def tracked_env_def kernel_env_def demo_env_def demo_defs

text \<open>A schedule in which the reactor's thread handles one completion per iteration of the waiting loop.\<close>

definition eager :: "env \<Rightarrow> ceph_codec \<Rightarrow> nat \<Rightarrow> nat \<Rightarrow> client_state \<Rightarrow> client_state" where
  "eager e c p k s =
     (case ClientHandler_handle e c 1 COMPLETION_EVENT (fst s) None (snd s) of
        (Inl f, _, _, _) \<Rightarrow> s
      | (Inr _, h', _, tr') \<Rightarrow> (h', tr'))"

lemma eager_th1: "th1_step e c s (eager e c p k s)"
  by (cases s) (auto simp: eager_def split: prod.splits sum.splits intro: th1_step.intros)

definition connected_client :: ClientHandler where
  "connected_client = (ClientHandler_default demo_junk ''a'' ''p'')
     \<lparr>ch_conn := RpmaConn_new (Some 9), cl_image_mr := Some 5, cl_data_mr := Some 7\<rparr>"

lemma connected_client_inv:
  "ops_inv {} connected_client" "refs_below connected_client" "init_live connected_client = {}"
  by (auto simp: connected_client_def ClientHandler_default_def ConnectionHandler.extend_def ConnectionHandler_new_def
      ops_inv_def refs_below_def refs_def init_live_def)

text \<open>There a wait for a posted operation ends with the first completion.\<close>

lemma completing_handle:
  assumes "foldl last_context None tr = Some p" and "op_heap h p = Some x"
  shows "ClientHandler_handle completing_env c j COMPLETION_EVENT h ro tr =
    (case RpmaOp_do_callback (ClientHandler_run completing_env c) x (h\<lparr>callback_table := callback_table h - {p}\<rparr>)
            (tr @ [Conn (Ev_conn_completion_wait (rc_conn (ch_conn h)) 0),
                   Conn (Ev_conn_completion_get (rc_conn (ch_conn h))
                     (0, \<lparr>op_context = Some p, op = RPMA_OP_WRITE, byte_len = 0, op_status = 0\<rparr>))]) of
       (r, h2, tr2) \<Rightarrow> (map_sum id (\<lambda>_. 0) r, delete_op p h2, ro, tr2))"
  using assms
  by (simp add: ClientHandler_handle_def ConnectionHandler_handle_def ConnectionHandler_handle_completion_def Let_def
      completing_defs env_simps obj_defs IBV_WC_SUCCESS_def split: prod.splits)

lemma eager_completes:
  assumes "foldl last_context None tr = Some p" and "op_heap h p = Some \<lparr>op_class = k, func = User_callback i\<rparr>"
    and "i \<in> dom (cl_frames h)"
  shows "frame_completed i (eager completing_env c q n (h, tr))"
  using assms
  by (auto simp: eager_def completing_handle RpmaOp_do_callback_def ClientHandler_run_def set_completed_def
      frame_completed_def)

lemma completing_post:
  assumes "ready i (h, tr)" and "post h tr = (Inr 0, h1, tr @ [ev])" and "posts k (User_callback i) 0 h h1"
    and "last_context None ev = Some (op_next h)"
  shows "\<exists>h' tr'. post_and_spin post (eager completing_env c q) (Suc (Suc n)) i h tr = Some (Inr (), h', tr')"
proof -
  have ev: "foldl last_context None (tr @ [ev]) = Some (op_next h)"
    using assms(4) by (cases "(None :: ptr option, ev)" rule: last_context.cases) simp_all
  have h1: "op_heap h1 (op_next h) = Some \<lparr>op_class = k, func = User_callback i\<rparr>" "i \<in> dom (cl_frames h1)" "cl_frames h1 = cl_frames h"
    using assms(1,3) by (auto simp: posts_def posted_def ready_def)
  have "\<not> frame_completed i (h1, tr @ [ev])" using assms(1) h1(3) by (simp add: ready_def frame_completed_def)
  with eager_completes [OF ev h1(1,2), of c q 0] assms(2) show ?thesis
    by (cases "eager completing_env c q 0 (h1, tr @ [ev])") (simp add: post_and_spin_def)
qed

lemma completing_transfer:
  assumes h: "ops_inv {} h" "refs_below h" "init_live h = {}" "cl_data_mr h \<noteq> None"
    and sched: "sched 2 = eager completing_env c 2" "sched 3 = eager completing_env c 3"
  shows "\<exists>h' tr'. client_transfer completing_env sched (Suc (Suc n)) h tr = Some (Inr (), h', tr')"
proof -
  let ?e = completing_env
  obtain i h1 where push: "push_frame h = (i, h1)" by (metis prod.exhaust)
  have h1: "ready i (h1, tr)" "init_live h1 = {}" "cl_data_mr h1 \<noteq> None"
    using ready_pushed [OF h(1,2) push] h(3,4) push by (auto simp: push_frame_def)
  have o1: "ops_inv {} h1" using h1(1) by (simp add: ready_def)
  obtain ret hw trw where w: "ClientHandler_write ?e 0 mr_size (User_callback i) h1 tr = (Inr ret, hw, trw)" "ret = 0"
    using h1(3) by (auto simp: ClientHandler_write_def new_op_def env_simps obj_defs mr_size_def MAX_WRITE_def completing_defs)
  note pw = write_post [OF o1 w(1)]
  obtain h2 tr2 where a: "post_and_spin (ClientHandler_write ?e 0 mr_size (User_callback i)) (sched 2) (Suc (Suc n)) i h1 tr = Some (Inr (), h2, tr2)"
    using completing_post [OF h1(1), of "ClientHandler_write ?e 0 mr_size (User_callback i)"] w pw sched(1) by fastforce
  let ?h2 = "reset_completed i h2"
  have h2: "ready i (?h2, tr2)" "same_image h1 ?h2"
    using post_waits [OF _ h1(1) _ _ write_ops [OF o1 w(1)] a, where e = ?e and c = c and ret = ret] w pw h1(2) eager_th1
    unfolding sched by fastforce+
  have o2: "ops_inv {} ?h2" using h2(1) by (simp add: ready_def)
  obtain ret2 hf trf where f: "ClientHandler_flush ?e 0 mr_size (User_callback i) ?h2 tr2 = (Inr ret2, hf, trf)" "ret2 = 0"
    using h1(3) h2(2) by (auto simp: same_image_def ClientHandler_flush_def new_op_def env_simps obj_defs completing_defs)
  note pf = flush_post [OF o2 f(1)]
  obtain h3 tr3 where b: "post_and_spin (ClientHandler_flush ?e 0 mr_size (User_callback i)) (sched 3) (Suc (Suc n)) i ?h2 tr2 = Some (Inr (), h3, tr3)"
    using completing_post [OF h2(1), of "ClientHandler_flush ?e 0 mr_size (User_callback i)"] f pf sched(2) by fastforce
  show ?thesis using push a b by (simp add: client_transfer_def split: prod.splits)
qed

lemma connected_client_transfers:
  "\<exists>h' tr'. client_transfer completing_env (eager completing_env ceph_le) 2 connected_client [] = Some (Inr (), h', tr')"
  using completing_transfer [OF connected_client_inv, where n = 0]
  by (simp add: connected_client_def numeral_2_eq_2)

text \<open>
  C8: Data is flushed only after it was written, and the connection given up only after it was
  flushed: whatever the reactor's thread does meanwhile, a transfer that ends has posted the
  write of the whole buffer, received its successful completion, posted the flush of
  the same range, received its successful completion, and disconnected, in this order.
\<close>

theorem client_transfer_order:
  assumes "ops_inv {} h" and "refs_below h" and "init_live h = {}" and "\<forall>p k s. th1_step e c s (sched p k s)"
    and "client_transfer e sched fuel h tr = Some (Inr (), h', tr')"
  shows "\<exists>p q evs1 evs2 r.
     tr' = tr @ [Post (Ev_write (rc_conn (ch_conn h)) (cl_image_mr h) 0 (cl_data_mr h) 0 mr_size RPMA_F_COMPLETION_ALWAYS (Some p) 0)]
              @ evs1 @ [Post (Ev_flush (rc_conn (ch_conn h)) (cl_image_mr h) 0 mr_size (cl_flush_type h) RPMA_F_COMPLETION_ALWAYS (Some q) 0)]
              @ evs2 @ [Conn (Ev_conn_disconnect (rc_conn (ch_conn h)) r)] \<and>
     (\<exists>ev \<in> set evs1. completes p ev) \<and> (\<exists>ev \<in> set evs2. completes q ev) \<and> (\<forall>ev \<in> set (evs1 @ evs2). inert ev)"
  using transfer_waits [OF assms] by blast

theorem client_transfer_order_witness:
  "\<exists>h' tr' p evs1. client_transfer completing_env (eager completing_env ceph_le) 2 connected_client [] = Some (Inr (), h', tr') \<and>
     (\<exists>q evs2. tr' = [Post (Ev_write (Some 9) (Some 5) 0 (Some 7) 0 mr_size RPMA_F_COMPLETION_ALWAYS (Some p) 0)] @ evs1
        @ [Post (Ev_flush (Some 9) (Some 5) 0 mr_size RPMA_FLUSH_TYPE_VISIBILITY RPMA_F_COMPLETION_ALWAYS (Some q) 0)] @ evs2) \<and>
     (\<exists>ev \<in> set evs1. completes p ev)"
proof -
  obtain h' tr' where t: "client_transfer completing_env (eager completing_env ceph_le) 2 connected_client [] = Some (Inr (), h', tr')"
    using connected_client_transfers by blast
  have "rc_conn (ch_conn connected_client) = Some 9" "cl_image_mr connected_client = Some 5" "cl_data_mr connected_client = Some 7"
      "cl_flush_type connected_client = RPMA_FLUSH_TYPE_VISIBILITY"
    by (simp_all add: connected_client_def RpmaConn_new_def ClientHandler_default_def ConnectionHandler.extend_def demo_junk_def)
  with client_transfer_order [OF connected_client_inv _ t] eager_th1 t show ?thesis by fastforce
qed

text \<open>
  C38: A write that cannot be posted hangs the client for ever: \<open>main\<close> ignores the return code
  of \<open>write\<close> and waits for a callback that no operation holds, so whatever the reactor's
  thread does, no number of iterations ends the wait.
\<close>

theorem client_failed_post_spins:
  assumes "ops_inv {} h" and "refs_below h" and "\<forall>p k s. th1_step e c s (sched p k s)"
    and "cl_data_mr h \<noteq> None"
    and "\<forall>x. e_write (post_of e) tr (rc_conn (ch_conn h)) (cl_image_mr h) 0 (cl_data_mr h) 0 mr_size RPMA_F_COMPLETION_ALWAYS x \<noteq> 0"
  shows "client_transfer e sched fuel h tr = None"
proof -
  obtain i h1 where push: "push_frame h = (i, h1)" by (metis prod.exhaust)
  have h1: "ops_inv {} h1" "ch_conn h1 = ch_conn h" "cl_image_mr h1 = cl_image_mr h" "cl_data_mr h1 = cl_data_mr h"
    using push assms(1) by (auto simp: push_frame_def)
  obtain r hw trw where w: "ClientHandler_write e 0 mr_size (User_callback i) h1 tr = (r, hw, trw)" by (metis prod_cases3)
  with assms(4,5) h1 obtain ret where r: "r = Inr ret" "ret \<noteq> 0"
    by (auto simp: ClientHandler_write_def new_op_def env_simps obj_defs mr_size_def MAX_WRITE_def split: if_splits)
  from write_post [OF h1(1)] w r(1) obtain ev where
    pw: "ClientHandler_write e 0 mr_size (User_callback i) h1 tr = (Inr ret, hw, tr @ [ev])"
      "posts RpmaWrite (User_callback i) ret h1 hw" by blast
  from failed_post_spins [where post = "ClientHandler_write e 0 mr_size (User_callback i)",
      OF spec [OF assms(3), of 2] ready_pushed(1) [OF assms(1,2) push] pw write_ops [OF h1(1) pw(1)] r(2)] push
  show ?thesis by (simp add: client_transfer_def)
qed

theorem client_failed_post_spins_witness:
  "client_transfer (completing_env\<lparr>post_of := demo_post\<lparr>e_write := (\<lambda>tr p d i m j n f c. -1)\<rparr>\<rparr>)
     (eager (completing_env\<lparr>post_of := demo_post\<lparr>e_write := (\<lambda>tr p d i m j n f c. -1)\<rparr>\<rparr>) ceph_le) 1000000 connected_client [] = None"
  by (rule client_failed_post_spins [OF connected_client_inv(1,2), where c = ceph_le])
    (simp_all add: eager_th1 [where c = ceph_le] connected_client_def demo_post_def del: split_paired_All)

end
