(* ===== verification/Client_Loop.thy ===== *)
theory Client_Loop
  imports Client_Transfer
begin

text \<open>
  The reactor's thread of the client: its invariant, kept by every event it dispatches, and the
  safety of its loop, through the same contract as the server's event loop.
\<close>

subsection \<open>What an event leaves alone\<close>

lemma no_poll_remote: "ClientHandler_get_remote_descriptor e c h tr = (r, h', tr') \<Longrightarrow> no_poll tr tr'"
  by (auto simp: ClientHandler_get_remote_descriptor_def apply_remote_pcfg_def env_simps Let_def
      split: option.splits prod.splits if_splits sum.splits)

lemma remote_fds: "ClientHandler_get_remote_descriptor e c h tr = (r, h', tr') \<Longrightarrow> conn_fd h' = conn_fd h \<and> comp_fd h' = comp_fd h"
  by (auto simp: ClientHandler_get_remote_descriptor_def Let_def split: option.splits prod.splits if_splits sum.splits)

lemma callback_frame:
  assumes "RpmaOp_do_callback (ClientHandler_run e c) x h tr = (r, h', tr')"
  shows "no_poll tr tr' \<and> conn_fd h' = conn_fd h \<and> comp_fd h' = comp_fd h"
proof -
  have "conn_fd h2 = conn_fd h1 \<and> comp_fd h2 = comp_fd h1" if "set_completed i u h1 = (q, h2)" for i u h1 q h2
    using that by (auto simp: set_completed_def split: option.splits)
  then show ?thesis
    using assms
    by (cases "func x")
      (fastforce simp: RpmaOp_do_callback_def ClientHandler_run_def split: option.splits prod.splits sum.splits
        dest: no_poll_remote remote_fds)+
qed

lemma completion_frame:
  assumes "ConnectionHandler_handle_completion e (ClientHandler_run e c) h tr = (r, h', tr')"
  shows "no_poll tr tr' \<and> conn_fd h' = conn_fd h \<and> comp_fd h' = comp_fd h"
  using assms
  by (auto simp: ConnectionHandler_handle_completion_def env_simps obj_defs Let_def delete_op_def
      split: if_splits option.splits prod.splits dest!: callback_frame intro: no_poll_trans [rotated])

lemma frames_inv_update [simp]:
  "frames_inv (h\<lparr>ch_conn := q\<rparr>) = frames_inv h" "frames_inv (h\<lparr>connected := b\<rparr>) = frames_inv h"
  "frames_inv (h\<lparr>recv_bl := msg\<rparr>) = frames_inv h"
  by (simp_all add: frames_inv_def refs_def waiting_def)

text \<open>The frames after any completion that does not end the process.\<close>

lemma completion_frames:
  assumes "ops_inv {} h" and "frames_inv h"
    and q: "ConnectionHandler_handle_completion e (ClientHandler_run e c) h tr = (Inr v, h', tr')"
  shows "frames_inv h'"
proof (cases "completion_ok e h tr")
  case True
  with client_completion_frames [OF assms(2,1) True q] show ?thesis by blast
next
  case False
  from stray_completion [OF assms(1) False q] obtain x where "h' = h\<lparr>ch_conn := x\<rparr>" by auto
  with assms(2) show ?thesis by simp
qed

lemma handle_frame:
  assumes ops: "ops_inv {} h" and frames: "frames_inv h"
    and run: "ClientHandler_handle e c i et h (Some r) tr = (Inr v, h', ro', tr')"
  shows "ops_inv {} h' \<and> frames_inv h' \<and> conn_fd h' = conn_fd h \<and> comp_fd h' = comp_fd h \<and>
         (ro' = Some r \<and> no_poll tr tr' \<or>
          (\<exists>tr1 ret. no_poll tr tr1 \<and> remove_pair e i h' (Some r) tr1 = (ret, ro', tr')))"
proof (cases "et = COMPLETION_EVENT")
  case True
  then have q: "ConnectionHandler_handle_completion e (ClientHandler_run e c) h tr = (Inr v, h', tr')" and "ro' = Some r"
    using run by (auto simp: ClientHandler_handle_def ConnectionHandler_handle_def split: prod.splits)
  with completion_frame [OF q] completion_frames [OF ops frames q] handle_ops [OF ops run] show ?thesis by blast
next
  case False
  have "no_poll tr (tr @ [Conn x])" for x by simp
  moreover have "frames_inv h'"
    using False frames run
    by (auto simp: ClientHandler_handle_def ConnectionHandler_handle_def ConnectionHandler_handle_connection_event_def
        obj_defs Let_def split: prod.splits if_splits)
  ultimately show ?thesis
    using False run handle_ops [OF ops run]
    by (auto simp: ClientHandler_handle_def ConnectionHandler_handle_def
        ConnectionHandler_handle_connection_event_def ClientHandler_remove_self_def env_simps obj_defs Let_def
        split: prod.splits if_splits)
qed

subsection \<open>The invariant of the thread\<close>

text \<open>
  Table and kernel agree, every entry is one of the client's two descriptors, and the client owns
  its operations and the frames they refer to.
\<close>

definition process_ok :: "client_process \<Rightarrow> trace \<Rightarrow> bool" where
  "process_ok s tr \<longleftrightarrow>
     reactor_inv (cp_reactor s) tr \<and>
     (\<forall>fd et i. reactor_view (cp_reactor s) fd = Some (et, i) \<longrightarrow>
        i = 1 \<and> fd \<in> {conn_fd (cp_client s), comp_fd (cp_client s)}) \<and>
     conn_fd (cp_client s) \<noteq> -1 \<and> comp_fd (cp_client s) \<noteq> -1 \<and>
     ops_inv {} (cp_client s) \<and> frames_inv (cp_client s)"

lemma process_ok_trace: "process_ok s tr \<Longrightarrow> interest tr' = interest tr \<Longrightarrow> process_ok s tr'"
  using reactor_inv_cong unfolding process_ok_def by blast

lemma client_dispatch_ok:
  assumes kernel: "epoll_ok e" and ok: "process_ok s tr"
    and run: "client_dispatch e c arrived i et s tr = (Inr v, s', tr')"
  shows "process_ok s' tr'"
proof -
  let ?h0 = "case arrived tr of None \<Rightarrow> cp_client s | Some msg \<Rightarrow> (cp_client s)\<lparr>recv_bl := msg\<rparr>"
  have h0: "ops_inv {} ?h0" "frames_inv ?h0" "conn_fd ?h0 = conn_fd (cp_client s)" "comp_fd ?h0 = comp_fd (cp_client s)"
    using ok by (auto simp: process_ok_def split: option.splits)
  obtain r h1 ro where g: "ClientHandler_handle e c i et ?h0 (Some (cp_reactor s)) tr = (Inr v, h1, ro, tr')"
      and s': "s' = s\<lparr>cp_reactor := (case ro of None \<Rightarrow> cp_reactor s | Some x \<Rightarrow> x), cp_client := h1\<rparr>"
    using run by (auto simp: client_dispatch_def Let_def split: prod.splits)
  note out = handle_frame [OF h0(1,2) g]
  from out consider "ro = Some (cp_reactor s)" "no_poll tr tr'"
    | t ret where "no_poll tr t" "remove_pair e i h1 (Some (cp_reactor s)) t = (ret, ro, tr')"
    by blast
  then show ?thesis
  proof cases
    case 1
    have "reactor_inv (cp_reactor s) tr'"
      using reactor_inv_cong [OF no_poll_interest [OF 1(2)]] ok by (simp add: process_ok_def)
    with 1 out h0 ok s' show ?thesis by (simp add: process_ok_def)
  next
    case 2
    have inv: "reactor_inv (cp_reactor s) t"
      using reactor_inv_cong [OF no_poll_interest [OF 2(1)]] ok by (simp add: process_ok_def)
    obtain r' where r': "ro = Some r'" "reactor_inv r' tr'"
        "reactor_view r' = (reactor_view (cp_reactor s))(conn_fd h1 := None, comp_fd h1 := None)"
      using remove_pair_outcome [OF kernel inv _ _ 2(2)] out h0 ok by (auto simp: process_ok_def)
    with out h0 ok s' show ?thesis by (auto simp: process_ok_def)
  qed
qed

lemma client_dispatch_failure:
  assumes ok: "process_ok s tr" and run: "client_dispatch e c arrived i et s tr = (Inl f, s', tr')"
  shows "f \<in> {Buffer_error, Out_of_range} \<or> f = Use_after_free \<and> \<not> completion_ok e (cp_client s) tr"
proof -
  let ?h0 = "case arrived tr of None \<Rightarrow> cp_client s | Some msg \<Rightarrow> (cp_client s)\<lparr>recv_bl := msg\<rparr>"
  have h0: "ops_inv {} ?h0" "frames_inv ?h0" "completion_ok e ?h0 tr = completion_ok e (cp_client s) tr"
    using ok by (auto simp: process_ok_def completion_ok_deliver split: option.splits)
  obtain h1 ro where g: "ClientHandler_handle e c i et ?h0 (Some (cp_reactor s)) tr = (Inl f, h1, ro, tr')"
    using run by (auto simp: client_dispatch_def Let_def split: prod.splits)
  then have "et = COMPLETION_EVENT"
    by (auto simp: ClientHandler_handle_def ConnectionHandler_handle_def ConnectionHandler_handle_connection_event_def Let_def
        split: prod.splits if_splits)
  then have q: "ConnectionHandler_handle_completion e (ClientHandler_run e c) ?h0 tr = (Inl f, h1, tr')"
    using g by (auto simp: ClientHandler_handle_def ConnectionHandler_handle_def split: prod.splits)
  show ?thesis
  proof (cases "completion_ok e ?h0 tr")
    case True
    with client_completion_frames [OF h0(2,1) True q] show ?thesis by blast
  next
    case False
    with stray_completion [OF h0(1) False q] h0(3) show ?thesis by auto
  qed
qed

subsection \<open>The loop\<close>

sublocale epoll_kernel \<subseteq> client_loop: event_loop e cp_reactor "client_dispatch e c arrived" process_ok for c arrived
proof unfold_locales
  show "process_ok s tr \<Longrightarrow> reactor_inv (cp_reactor s) tr" for s tr by (simp add: process_ok_def)
  show "process_ok s tr \<Longrightarrow> process_ok s (tr @ [Poll (Ev_epoll_wait x)])" for s tr x
    by (rule process_ok_trace) simp_all
  show "\<lbrakk>process_ok s tr; reactor_view (cp_reactor s) fd = Some (et, i); client_dispatch e c arrived i et s tr = (Inr v, s', tr')\<rbrakk>
      \<Longrightarrow> process_ok s' tr'" for s tr fd et i v s' tr'
    using client_dispatch_ok kernel by blast
qed (rule kernel)

context epoll_kernel
begin

lemma client_events_outcome:
  assumes "process_ok s tr" and "Reactor_handle_events e cp_reactor (client_dispatch e c arrived) n s tr = Some (res, s', tr')"
  shows "case res of
      Inr ret \<Rightarrow> process_ok s' tr' \<and> (ret = 1 \<longrightarrow> Reactor_empty (cp_reactor s'))
    | Inl f \<Rightarrow> (\<exists>i et fd s0 t. process_ok s0 t \<and> reactor_view (cp_reactor s0) fd = Some (et, i) \<and>
                 client_dispatch e c arrived i et s0 t = (Inl f, s', tr'))"
  by (rule client_loop.loop_safe [OF assms])

end

lemma client_thread_outcome:
  assumes kernel: "epoll_ok e"
  shows "process_ok s tr \<Longrightarrow> client_thread e c arrived m n s tr = Some (res, s', tr') \<Longrightarrow>
    (case res of
       Inr _ \<Rightarrow> process_ok s' tr' \<and> Reactor_empty (cp_reactor s')
     | Inl f \<Rightarrow> f \<in> {Buffer_error, Out_of_range} \<or>
         f = Use_after_free \<and> (\<exists>s0 t. process_ok s0 t \<and> \<not> completion_ok e (cp_client s0) t))"
proof (induction n arbitrary: s tr)
  case 0
  then show ?case by simp
next
  case (Suc n)
  have k: "epoll_kernel e" using kernel by unfold_locales
  obtain q s1 tr1 where r: "Reactor_handle_events e cp_reactor (client_dispatch e c arrived) m s tr = Some (q, s1, tr1)"
    using Suc.prems(2) by (cases "Reactor_handle_events e cp_reactor (client_dispatch e c arrived) m s tr") auto
  note out = epoll_kernel.client_events_outcome [OF k Suc.prems(1) r]
  show ?case
  proof (cases q)
    case (Inl f)
    with out obtain i et s0 t where "process_ok s0 t" "client_dispatch e c arrived i et s0 t = (Inl f, s1, tr1)"
      by auto
    moreover have "res = Inl f" using Suc.prems(2) r Inl by simp
    ultimately show ?thesis using client_dispatch_failure by fastforce
  next
    case (Inr ret)
    with out have ok: "process_ok s1 tr1" by simp
    with Suc.prems(2) r Inr Suc.IH [OF ok] show ?thesis by (cases "Reactor_empty (cp_reactor s1)") auto
  qed
qed

subsection \<open>The state the thread starts in\<close>

lemma client_throw_Inl: "client_throw e f h tr = (r, tr') \<Longrightarrow> \<exists>g. r = Inl g"
  by (auto simp: client_throw_def split: prod.splits)

lemma conn_fd_same:
  "ConnectionHandler_init_conn_fd e h tr = (r, h', tr') \<Longrightarrow>
     op_heap h' = op_heap h \<and> callback_table h' = callback_table h \<and> op_next h' = op_next h \<and>
     cl_frames h' = cl_frames h \<and> cl_next_frame h' = cl_next_frame h"
  by (auto simp: ConnectionHandler_init_conn_fd_def Let_def split: prod.splits if_splits option.splits)

lemma client_connected:
  assumes fresh: "conn_fds_fresh e" and run: "client_connect_req e req h tr = (Inr h', tr')"
  shows "fds_free h' tr' \<and> no_poll tr tr' \<and> (ops_inv {} h \<longrightarrow> ops_inv {} h') \<and> (frames_inv h \<longrightarrow> frames_inv h')"
proof -
  obtain ret req2 conn tr1 where k: "rpma_conn_req_connect e req tr = ((ret, req2, conn), tr1)" by (metis prod.exhaust)
  then have np: "no_poll tr tr1" by (auto simp: env_simps)
  let ?h1 = "h\<lparr>ch_conn := RpmaConn_reset conn (ch_conn h)\<rparr>"
  obtain r h2 tr2 where f: "ConnectionHandler_init_conn_fd e ?h1 tr1 = (r, h2, tr2)" by (metis prod_cases3)
  have "ret = 0" using run k by (auto simp: client_connect_req_def dest!: client_throw_Inl split: if_splits)
  with run k f have r: "r = Inr () \<and> h' = h2 \<and> tr' = tr2"
    by (cases r) (auto simp: client_connect_req_def dest!: client_throw_Inl)
  then have "fds_free h2 tr2 \<and> no_poll tr1 tr2" using conn_fd_result [OF fresh] f by blast
  moreover have "ops_inv {} h \<longrightarrow> ops_inv {} h2" and "frames_inv h \<longrightarrow> frames_inv h2"
    using conn_fd_same [OF f] by (simp_all add: ops_inv_def frames_inv_def refs_def waiting_def)
  ultimately show ?thesis using r np no_poll_trans by blast
qed

lemma new_client_ready:
  assumes fresh: "conn_fds_fresh e" and run: "ClientHandler_new e j addr port tr = (Inr h, tr')"
  shows "fds_free h tr' \<and> no_poll tr tr' \<and> ops_inv {} h \<and> frames_inv h"
proof -
  let ?h0 = "ClientHandler_default j addr port"
  obtain ret peer tr1 where p: "common_peer_via_address e addr RPMA_UTIL_IBV_CONTEXT_REMOTE tr = ((ret, peer), tr1)"
    by (metis prod.exhaust)
  have np1: "no_poll tr tr1" using p by (auto simp: common_peer_via_address_def env_simps Let_def split: if_splits prod.splits)
  let ?h1 = "?h0\<lparr>ch_peer := peer\<rparr>"
  obtain r2 h2 tr2 where b: "ConnectionHandler_init_send_recv_buffer e ?h1 tr1 = (r2, h2, tr2)" by (metis prod_cases3)
  obtain q tr3 where c: "client_conn_req e peer addr port tr2 = (q, tr3)" by (metis prod.exhaust)
  have np3: "no_poll tr2 tr3" using c by (auto simp: client_conn_req_def env_simps Let_def split: if_splits prod.splits)
  have ok: "ret = 0" using run p by (auto simp: ClientHandler_new_def Let_def dest!: client_throw_Inl split: if_splits)
  moreover obtain x where r2: "r2 = Inr x"
    using run p ok b by (cases r2) (auto simp: ClientHandler_new_def dest!: client_throw_Inl)
  moreover obtain req where q: "q = Inr req"
    using run p ok b r2 c by (cases q) (auto simp: ClientHandler_new_def dest!: client_throw_Inl)
  ultimately have k: "client_connect_req e req h2 tr3 = (Inr h, tr')"
    using run p b c by (simp add: ClientHandler_new_def)
  have "ops_inv {} h2 \<and> frames_inv h2"
    using b by (auto simp: ConnectionHandler_init_send_recv_buffer_def ClientHandler_default_def ConnectionHandler.extend_def
        ConnectionHandler_new_def ops_inv_def frames_inv_def refs_def waiting_def Let_def split: prod.splits if_splits)
  with client_connected [OF fresh k] np1 no_poll_buffers [OF b] np3 no_poll_trans show ?thesis by blast
qed

lemma client_process_starts:
  assumes kernel: "epoll_ok e" and fresh: "conn_fds_fresh e" and empty: "interest tr = Map.empty"
    and r: "Reactor_new e tr = (Inr r, tr1)" and h: "ClientHandler_new e j addr port tr1 = (Inr h, tr2)"
    and reg: "ClientHandler_register_self e 1 h (Some r) tr2 = (0, Some r', tr3)"
  shows "process_ok \<lparr>cp_reactor = r', cp_client = h\<rparr> tr3"
proof -
  note new = new_client_ready [OF fresh h]
  have r0: "event_table r = []" "interest tr1 = Map.empty"
    using r empty by (auto simp: Reactor_new_def env_simps split: if_splits)
  then have "interest tr2 = Map.empty" using no_poll_interest new by metis
  with r0 have inv: "reactor_inv r tr2" by (simp add: reactor_inv_def)
  have v: "reactor_view r = Map.empty" using r0 by (simp add: reactor_view_def fun_eq_iff)
  have "conn_fd h \<noteq> comp_fd h" using new by (simp add: fds_free_def)
  from register_pair_outcome [OF kernel inv _ _ this reg [unfolded ClientHandler_register_self_def]] v
  have "reactor_inv r' tr3 \<and> reactor_view r' = pair_view 1 h Map.empty" by simp
  with new show ?thesis by (auto simp: process_ok_def fds_free_def pair_view_def split: if_splits)
qed


text \<open>A machine on which the connection is lost as soon as it is watched.\<close>

definition closing_env :: env where
  "closing_env = kernel_env\<lparr>
     poll_of := kernel_poll\<lparr>e_epoll_wait := (\<lambda>tr. if interest tr 11 = Some 0 then (1, Some 0) else (0, None))\<rparr>,
     conn_of := demo_conn\<lparr>
       e_conn_get_event_fd := (\<lambda>tr q. if interest tr 11 = None \<and> interest tr 12 = None then (0, Some 11) else (-1, None)),
       e_conn_next_event := (\<lambda>tr q. (0, RPMA_CONN_CLOSED))\<rparr>\<rparr>"

lemma closing_env_ok: "epoll_ok closing_env" "conn_fds_fresh closing_env"
  by (auto simp: epoll_ok_def conn_fds_fresh_def closing_env_def kernel_poll_def demo_poll_def demo_conn_def ran_def
      split: if_splits)

lemma closing_client:
  "\<exists>h tr2. ClientHandler_new closing_env demo_junk ''a'' ''p'' [Poll (Ev_epoll_create 3)] = (Inr h, tr2) \<and> conn_fd h = 11 \<and> comp_fd h = 12"
  by (simp add: client_new_defs ClientHandler_default_def ConnectionHandler.extend_def ConnectionHandler_new_def
      closing_env_def kernel_env_def demo_env_def demo_mem_def demo_defs env_simps obj_defs interest_def Let_def)

lemma closing_register:
  assumes "conn_fd h = 11" and "comp_fd h = 12" and "interest tr = Map.empty"
  shows "\<exists>r' tr'. ClientHandler_register_self closing_env 1 h (Some \<lparr>epoll = 3, event_table = [], next_node = 0\<rparr>) tr = (0, Some r', tr') \<and>
    interest tr' 11 = Some 0 \<and> interest tr' 12 = Some 1 \<and> Reactor_deref r' 0 = Some \<lparr>eh_node = 0, eh_type = CONNECTION_EVENT, eh_handler = 1\<rparr>"
  using assms
  by (simp add: ClientHandler_register_self_def register_pair_def reactor_defs ConnectionHandler_get_handle_def Reactor_deref_def
      closing_env_def kernel_poll_def demo_poll_def env_simps Let_def)

lemma closing_thread:
  assumes ok: "process_ok \<lparr>cp_reactor = r', cp_client = h\<rparr> tr" and fds: "conn_fd h = 11" "comp_fd h = 12"
    and i: "interest tr 11 = Some 0"
    and d: "Reactor_deref r' 0 = Some \<lparr>eh_node = 0, eh_type = CONNECTION_EVENT, eh_handler = 1\<rparr>"
  shows "\<exists>s' tr'. client_thread closing_env ceph_le (\<lambda>tr. None) 1 1 \<lparr>cp_reactor = r', cp_client = h\<rparr> tr = Some (Inr (), s', tr')"
proof -
  let ?h = "h\<lparr>connected := False\<rparr>"
  let ?q = "rc_conn (ch_conn h)"
  let ?tr1 = "tr @ [Poll (Ev_epoll_wait (1, Some 0)), Conn (Ev_conn_next_event ?q (0, RPMA_CONN_CLOSED))]"
  obtain ret ro tr2 where rm: "remove_pair closing_env 1 ?h (Some r') ?tr1 = (ret, ro, tr2)" by (metis prod_cases3)
  have inv: "reactor_inv r' ?tr1" using ok reactor_inv_cong [of ?tr1 tr r'] by (simp add: process_ok_def)
  obtain r2 where r2: "ro = Some r2" "reactor_view r2 = (reactor_view r')(11 := None, 12 := None)"
    using remove_pair_outcome [OF closing_env_ok(1) inv _ _ rm] fds by auto
  have "\<forall>fd et i. reactor_view r' fd = Some (et, i) \<longrightarrow> fd = 11 \<or> fd = 12"
    using ok fds unfolding process_ok_def by simp
  then have "reactor_view r' fd = None" if "fd \<noteq> 11" "fd \<noteq> 12" for fd
    using that by (metis not_None_eq prod.exhaust)
  then have "reactor_view r2 fd = None" for fd unfolding r2(2) by (cases "fd = 11"; cases "fd = 12") simp_all
  then have "map_of (event_table r2) fd = None" for fd unfolding reactor_view_def map_option_is_None .
  then have "fst ` set (event_table r2) = {}" by (metis map_of_eq_None_iff equals0I)
  then have empty: "Reactor_empty r2" by (simp add: Reactor_empty_def)
  have "client_dispatch closing_env ceph_le (\<lambda>tr. None) 1 CONNECTION_EVENT \<lparr>cp_reactor = r', cp_client = h\<rparr> (tr @ [Poll (Ev_epoll_wait (1, Some 0))])
      = (Inr ret, \<lparr>cp_reactor = r2, cp_client = ?h\<rparr>, tr2)"
    using rm r2(1)
    by (simp add: client_dispatch_def ClientHandler_handle_def ConnectionHandler_handle_def
        ConnectionHandler_handle_connection_event_def ClientHandler_remove_self_def closing_env_def env_simps obj_defs)
  moreover have "e_epoll_wait (poll_of closing_env) tr = (1, Some 0)" using i by (simp add: closing_env_def)
  ultimately show ?thesis using d empty by (simp add: env_simps)
qed


end
