(* ===== verification/Client_Data.thy ===== *)
theory Client_Data
  imports Client_Transfer
begin

text \<open>
  What becomes of the data: the documented meaning of writes, flushes and completions on one byte
  of remote memory, as a specification over the trace, and the proof that a client program that
  returns 0 has brought its whole buffer to the server.
\<close>

subsection \<open>One byte of remote memory\<close>

text \<open>
  After \<open>librpma(7)\<close>: a write transfers local bytes to the remote region, a flush finalises the
  transfers posted before it, and an operation is finished when its completion is generated.
  For one byte of a remote region, seen over one connection and one type of flush: where
  the last write took it from, the flushes posted since, and whether one of them has finished.
\<close>

record cell =
  c_source :: "(ptr option \<times> nat) option"
  c_flushes :: "ptr option list"
  c_flushed :: bool

definition covers :: "u64 \<Rightarrow> u64 \<Rightarrow> nat \<Rightarrow> bool" where
  "covers off len k \<longleftrightarrow> unat off \<le> k \<and> k < unat off + unat len"

definition cell_write :: "ptr option \<Rightarrow> u64 \<Rightarrow> u64 \<Rightarrow> nat \<Rightarrow> cell" where
  "cell_write src src_offset dst_offset k =
     \<lparr>c_source = Some (src, unat src_offset + (k - unat dst_offset)), c_flushes = [], c_flushed = False\<rparr>"

fun cell_step :: "ptr option \<Rightarrow> ptr option \<Rightarrow> rpma_flush_type \<Rightarrow> nat \<Rightarrow> cell \<Rightarrow> event \<Rightarrow> cell" where
  "cell_step conn dst ty k x (Post (Ev_write q d off src off2 len flags ctx ret)) =
     (if ret = 0 \<and> q = conn \<and> d = dst \<and> covers off len k then cell_write src off2 off k else x)"
| "cell_step conn dst ty k x (Post (Ev_write_atomic q d off src off2 flags ctx ret)) =
     (if ret = 0 \<and> q = conn \<and> d = dst \<and> covers off 8 k then cell_write src off2 off k else x)"
| "cell_step conn dst ty k x (Post (Ev_flush q d off len t flags ctx ret)) =
     (if ret = 0 \<and> q = conn \<and> d = dst \<and> t = ty \<and> covers off len k then x\<lparr>c_flushes := ctx # c_flushes x\<rparr> else x)"
| "cell_step conn dst ty k x (Conn (Ev_conn_completion_get q (ret, cmpl))) =
     (if ret = 0 \<and> op_status cmpl = IBV_WC_SUCCESS \<and> op_context cmpl \<in> set (c_flushes x)
      then x\<lparr>c_flushed := True\<rparr> else x)"
| "cell_step conn dst ty k x ev = x"

definition cell_after :: "ptr option \<Rightarrow> ptr option \<Rightarrow> rpma_flush_type \<Rightarrow> nat \<Rightarrow> trace \<Rightarrow> cell" where
  "cell_after conn dst ty k tr = foldl (cell_step conn dst ty k) \<lparr>c_source = None, c_flushes = [], c_flushed = False\<rparr> tr"

text \<open>The local address a region was registered for, and the byte that is safe at the remote side.\<close>

fun base_step :: "(ptr \<rightharpoonup> addr) \<Rightarrow> event \<Rightarrow> (ptr \<rightharpoonup> addr)" where
  "base_step B (Mr (Ev_mr_reg peer (Some a) n u (ret, Some m))) = (if ret = 0 then B(m \<mapsto> a) else B)"
| "base_step B ev = B"

definition region_base :: "trace \<Rightarrow> ptr \<rightharpoonup> addr" where
  "region_base tr = foldl base_step Map.empty tr"

definition flushed_byte ::
    "(addr \<rightharpoonup> bytes) \<Rightarrow> ptr option \<Rightarrow> ptr option \<Rightarrow> rpma_flush_type \<Rightarrow> nat \<Rightarrow> trace \<Rightarrow> char option" where
  "flushed_byte mem conn dst ty k tr =
     (let x = cell_after conn dst ty k tr in
      if \<not> c_flushed x then None
      else case c_source x of
             Some (Some m, i) \<Rightarrow>
               (case Option.bind (region_base tr m) mem of
                  Some buf \<Rightarrow> (if i < length buf then Some (buf ! i) else None)
                | None \<Rightarrow> None)
           | _ \<Rightarrow> None)"

subsection \<open>Written, then flushed\<close>

lemma inert_step:
  assumes "inert ev"
  shows "c_source (cell_step conn dst ty k x ev) = c_source x \<and> c_flushes (cell_step conn dst ty k x ev) = c_flushes x \<and>
     (c_flushed x \<longrightarrow> c_flushed (cell_step conn dst ty k x ev)) \<and>
     (\<forall>p. completes p ev \<longrightarrow> Some p \<in> set (c_flushes x) \<longrightarrow> c_flushed (cell_step conn dst ty k x ev))"
  using assms by (cases "(conn, dst, ty, k, x, ev)" rule: cell_step.cases) (auto simp: completes_def)

lemma inert_steps:
  assumes "\<forall>ev \<in> set evs. inert ev"
  shows "c_source (foldl (cell_step conn dst ty k) x evs) = c_source x \<and>
     c_flushes (foldl (cell_step conn dst ty k) x evs) = c_flushes x \<and>
     (c_flushed x \<or> (\<exists>p. Some p \<in> set (c_flushes x) \<and> (\<exists>ev \<in> set evs. completes p ev)) \<longrightarrow>
        c_flushed (foldl (cell_step conn dst ty k) x evs))"
  using assms
proof (induction evs rule: rev_induct)
  case (snoc ev evs)
  have "inert ev" using snoc.prems by simp
  note inert_step [OF this, of conn dst ty k "foldl (cell_step conn dst ty k) x evs"]
  with snoc show ?case by auto
qed simp

lemma inert_base: "inert ev \<Longrightarrow> base_step B ev = B"
  by (cases "(B, ev)" rule: base_step.cases) auto

lemma region_base_append: "region_base (tr @ evs) = foldl base_step (region_base tr) evs"
  by (simp add: region_base_def)

lemma region_base_inert: "\<forall>ev \<in> set evs. inert ev \<Longrightarrow> foldl base_step B evs = B"
  by (induction evs) (auto simp: inert_base)

text \<open>A write, a flush after it and the completion of the flush, among calls that post and register nothing.\<close>

lemma write_flush_cell:
  assumes tr': "tr' = tr @ [Post (Ev_write conn dst 0 src 0 n f c 0)] @ us
                      @ [Post (Ev_flush conn dst 0 n ty g (Some q) 0)] @ vs"
    and evs: "\<forall>ev \<in> set (us @ vs). inert ev" "\<exists>ev \<in> set vs. completes q ev" and k: "k < unat n"
  shows "c_source (cell_after conn dst ty k tr') = Some (src, k) \<and> c_flushed (cell_after conn dst ty k tr')"
proof -
  let ?s = "cell_step conn dst ty k"
  let ?a = "cell_write src 0 0 k"
  have cov: "covers 0 n k" using k by (simp add: covers_def)
  define x where "x = foldl ?s ?a us"
  have x: "c_source x = Some (src, k)" "c_flushes x = []"
    using inert_steps [of us conn dst ty k ?a] evs(1) by (simp_all add: x_def cell_write_def)
  define y where "y = x\<lparr>c_flushes := [Some q]\<rparr>"
  have "cell_after conn dst ty k tr' = foldl ?s y vs"
    using cov x(2) by (simp add: cell_after_def tr' y_def x_def)
  moreover have "c_source (foldl ?s y vs) = c_source y \<and> c_flushed (foldl ?s y vs)"
    using inert_steps [of vs conn dst ty k y] evs by (auto simp: y_def)
  ultimately show ?thesis using x(1) by (simp add: y_def)
qed

subsection \<open>Until the transfer\<close>

text \<open>
  Before the transfer: the client owns its operations and has registered no data, only the frames in \<open>S\<close> are awaited by
  an init request, and the image is the uninitialised member or one that a reply described.
\<close>

definition prepared :: "client_junk \<Rightarrow> nat set \<Rightarrow> client_state \<Rightarrow> bool" where
  "prepared j S s \<longleftrightarrow> ops_inv {} (fst s) \<and> refs_below (fst s) \<and> init_live (fst s) \<subseteq> S \<and> cl_data_mr (fst s) = None \<and>
     (cl_image_mr (fst s) = j_image_mr j \<or> learned (cl_image_mr (fst s)) (snd s))"

lemma prepared_th1:
  assumes t: "th1_step e c s s'" and "prepared j S s"
  shows "prepared j S s'"
proof -
  obtain h tr h' tr' where s: "s = (h, tr)" "s' = (h', tr')" by (metis prod.exhaust)
  note f = th1_frame [OF t, unfolded s th1_frame_def prod.case]
  have "refs h' \<subseteq> refs h" using f by (force simp: refs_def map_le_def dom_def)
  moreover have "init_live h' \<subseteq> init_live h" using f by (simp add: init_live_mono)
  moreover have "ops_inv {} h'" using th1_ops [OF t] assms(2) by (simp add: prepared_def s)
  moreover have "cl_image_mr h' = j_image_mr j \<or> learned (cl_image_mr h') tr'"
    using f assms(2) learned_mono by (fastforce simp: prepared_def s)
  ultimately show ?thesis using assms(2) f by (auto simp: prepared_def s refs_below_def)
qed

text \<open>A constructed client has no operations, no frames, and its image is still uninitialised.\<close>

definition blank :: "client_junk \<Rightarrow> ClientHandler \<Rightarrow> bool" where
  "blank j h \<longleftrightarrow> op_heap h = Map.empty \<and> callback_table h = {} \<and> cl_frames h = Map.empty \<and>
     cl_image_mr h = j_image_mr j \<and> cl_data_mr h = None"

definition yields_blank :: "client_junk \<Rightarrow> ClientHandler result \<times> trace \<Rightarrow> bool" where
  "yields_blank j x \<longleftrightarrow> (\<forall>h. fst x = Inr h \<longrightarrow> blank j h)"

lemma blank_throw [simp]: "yields_blank j (client_throw e f h t)"
  by (simp add: yields_blank_def client_throw_def split_beta)

lemma blank_update [simp]:
  "blank j (h\<lparr>ch_peer := p\<rparr>) = blank j h" "blank j (h\<lparr>ch_conn := x\<rparr>) = blank j h"
  "blank j (ClientHandler_default j addr port)"
  by (simp_all add: blank_def ClientHandler_default_def ConnectionHandler.extend_def ConnectionHandler_new_def)

lemma blank_init:
  "blank j h \<Longrightarrow> blank j (fst (snd (ConnectionHandler_init_send_recv_buffer e h t)))"
  "blank j h \<Longrightarrow> blank j (fst (snd (ConnectionHandler_init_conn_fd e h t)))"
  by (auto simp: blank_def ConnectionHandler_init_send_recv_buffer_def ConnectionHandler_init_conn_fd_def Let_def split_beta
      split: option.splits)

lemma blank_connect: "blank j h \<Longrightarrow> yields_blank j (client_connect_req e q h t)"
  by (simp add: client_connect_req_def Let_def split_beta)
    (auto simp: yields_blank_def [of j "(_, _)"] blank_init split: sum.splits)

lemma new_client_blank:
  assumes "ClientHandler_new e j addr port tr = (Inr h, tr')"
  shows "blank j h"
proof -
  have "yields_blank j (ClientHandler_new e j addr port tr)"
    by (simp add: ClientHandler_new_def Let_def split_beta blank_connect blank_init split: sum.splits)
  with assms show ?thesis by (simp add: yields_blank_def)
qed

lemma blank_prepared: "blank j h \<Longrightarrow> prepared j {} (h, tr)"
  by (auto simp: blank_def prepared_def ops_inv_def refs_below_def refs_def init_live_def)

lemma init_live_simps [simp]:
  "init_live (h\<lparr>send_bl := x\<rparr>) = init_live h" "init_live (h\<lparr>cl_image_size := n\<rparr>) = init_live h"
  "init_live (h\<lparr>cl_data_header := a\<rparr>) = init_live h" "init_live (h\<lparr>cl_data_mr := m\<rparr>) = init_live h"
  "init_live (pop_frame i h) = init_live h - {i}"
  by (simp_all add: init_live_def pop_frame_def) auto

lemma refs_below_simps [simp]:
  "refs_below (h\<lparr>send_bl := x\<rparr>) = refs_below h" "refs_below (h\<lparr>cl_image_size := n\<rparr>) = refs_below h"
  "refs_below (h\<lparr>cl_data_header := a\<rparr>) = refs_below h" "refs_below (h\<lparr>cl_data_mr := m\<rparr>) = refs_below h"
  "refs_below (pop_frame i h) = refs_below h"
  by (simp_all add: refs_below_def refs_def pop_frame_def)

lemma init_live_post:
  assumes "new_op k cb h = (p, h1)"
  shows "init_live (settle_op p ret h1) \<subseteq> init_live h \<union> {i. cb = Init_replica_done i}"
  using assms by (auto simp: init_live_def new_op_def settle_op_def delete_op_def split: if_splits) blast+

lemma post_below:
  assumes "refs_below h" and "\<forall>i. frame_of cb = Some i \<longrightarrow> i < cl_next_frame h" and "new_op k cb h = (p, h1)"
  shows "refs_below (settle_op p ret h1)"
  using assms(1,2) refs_post [OF assms(3), of ret] by (fastforce simp: refs_below_def)

lemma recv_prepared:
  assumes "refs_below h" and "frame_of cb = Some i" "i < cl_next_frame h" and "ConnectionHandler_recv e cb h tr = (ret, h', tr')"
  shows "refs_below h' \<and> init_live h' \<subseteq> init_live h \<union> {i} \<and> cl_next_frame h' = cl_next_frame h"
proof -
  obtain p h1 where n: "new_op RpmaRecv cb h = (p, h1)" by (metis prod.exhaust)
  with assms(4) have h': "h' = settle_op p ret h1" by (auto simp: ConnectionHandler_recv_def Let_def split: prod.splits)
  have "{k. cb = Init_replica_done k} \<subseteq> {i}" using assms(2) by auto
  then show ?thesis
    using post_below [OF assms(1) _ n, of ret] init_live_post [OF n, of ret] refs_post(3) [OF n, of ret] assms(2,3)
    by (auto simp: h')
qed

lemma send_prepared:
  assumes "refs_below h" and "ConnectionHandler_send e No_callback h tr = (ret, h', tr')"
  shows "refs_below h' \<and> init_live h' \<subseteq> init_live h"
proof -
  obtain p h1 where n: "new_op RpmaSend No_callback h = (p, h1)" by (metis prod.exhaust)
  with assms(2) have h': "h' = settle_op p ret h1" by (auto simp: ConnectionHandler_send_def Let_def split: prod.splits)
  show ?thesis
    using post_below [OF assms(1) _ n, of ret] init_live_post [OF n, of ret] by (auto simp: h')
qed

lemma request_prepared:
  assumes "prepared j {} (h, tr)" and run: "post_request e bl Init_replica_done h tr = (Inr i, h', tr')"
  shows "prepared j {i} (h', tr')"
proof -
  obtain r1 h1 where m: "put_message bl h = (r1, h1)" by (metis prod.exhaust)
  have h1: "refs h1 = refs h" "init_live h1 = init_live h" "cl_next_frame h1 = cl_next_frame h"
    using m by (auto simp: put_message_def refs_def split: if_splits)
  obtain i' h2 where push: "push_frame h1 = (i', h2)" by (metis prod.exhaust)
  obtain r3 h3 tr3 where rv: "ConnectionHandler_recv e (Init_replica_done i') h2 tr = (r3, h3, tr3)" by (metis prod_cases3)
  obtain r4 h4 tr4 where sd: "ConnectionHandler_send e No_callback h3 tr3 = (r4, h4, tr4)" by (metis prod_cases3)
  have i: "i' = i" "h4 = h'"
    using run m push rv sd by (auto simp: post_request_def split: sum.splits)
  note pf = pushed_frame [OF push]
  have "refs_below h2" using assms(1) h1 pf by (auto simp: prepared_def refs_below_def less_Suc_eq)
  moreover have "init_live h2 = {}"
    using ready_pushed(2) [OF _ _ push] assms(1) h1 m
    by (auto simp: prepared_def refs_below_def put_message_def split: if_splits)
  ultimately have "refs_below h' \<and> init_live h' \<subseteq> {i}"
    using recv_prepared [OF _ _ _ rv, of i] send_prepared [OF _ sd] pf i by auto
  moreover have "cl_image_mr h' = cl_image_mr h" "cl_data_mr h' = cl_data_mr h"
    using run by (auto simp: post_request_def put_message_def push_frame_def ConnectionHandler_recv_def
        ConnectionHandler_send_def new_op_def settle_op_def delete_op_def Let_def split: prod.splits if_splits)
  moreover have "ops_inv {} h'" using post_request_ops [OF _ run] assms(1) by (simp add: prepared_def)
  moreover have "learned x tr \<Longrightarrow> learned x tr'" for x
    using request_quiet [OF run] by (auto simp: quiet_def learned_def)
  ultimately show ?thesis using assms(1) by (auto simp: prepared_def)
qed

lemma init_prepared:
  assumes "prepared j {} (h, tr)" and th1: "\<forall>k s. th1_step e c s (sched k s)"
    and run: "ClientHandler_init_replica e c sched clk fuel cost cid csize pool img h tr = Some (Inr v, h', tr')"
  shows "prepared j {} (h', tr')"
proof -
  let ?h = "h\<lparr>cl_image_size := csize\<rparr>"
  let ?bl = "RwlReplicaInitRequest_encode c (init_request cid csize pool img)"
  obtain r h1 tr1 where p: "post_request e ?bl Init_replica_done ?h tr = (r, h1, tr1)" by (metis prod_cases3)
  then obtain i s where r: "r = Inr i" and w: "wait_loop sched clk (frame_completed i) fuel 0 cost (h1, tr1) = Some s"
      and h': "h' = pop_frame i (fst s)" "tr' = snd s"
    using run by (auto simp: ClientHandler_init_replica_def split: sum.splits option.splits)
  have "prepared j {} (?h, tr)" using assms(1) by (simp add: prepared_def)
  from request_prepared [OF this p [unfolded r]] have "prepared j {i} s"
    by (rule prepared_th1 [OF wait_loop_th1 [OF th1 w]])
  then show ?thesis
    by (auto simp: prepared_def h') (simp_all add: pop_frame_def)
qed

subsection \<open>The whole program\<close>

lemma flushed_inert:
  assumes "flushed_byte mem conn dst ty k tr = Some x" and "appends inert tr tr'"
  shows "flushed_byte mem conn dst ty k tr' = Some x"
proof -
  obtain evs where evs: "tr' = tr @ evs" "\<forall>ev \<in> set evs. inert ev" using assms(2) by (auto simp: appends_def)
  have base: "region_base tr' = region_base tr" by (simp add: evs(1) region_base_append region_base_inert [OF evs(2)])
  have "c_source (cell_after conn dst ty k tr') = c_source (cell_after conn dst ty k tr) \<and>
      (c_flushed (cell_after conn dst ty k tr) \<longrightarrow> c_flushed (cell_after conn dst ty k tr'))"
    using inert_steps [OF evs(2), of conn dst ty k "cell_after conn dst ty k tr"] by (simp add: cell_after_def evs(1))
  moreover have "c_flushed (cell_after conn dst ty k tr)" using assms(1) by (simp add: flushed_byte_def Let_def split: if_splits)
  ultimately show ?thesis using assms(1) unfolding flushed_byte_def base by simp
qed

lemma transfer_source: "client_transfer e sched fuel h tr = Some (Inr (), h', tr') \<Longrightarrow> cl_data_mr h \<noteq> None"
  by (cases "cl_data_mr h") (simp_all add: client_transfer_def push_frame_def post_and_spin_def ClientHandler_write_def)

lemma transfer_flushes:
  assumes "prepared j {} (h, tr)" and head: "ClientHandler_set_head e (Some a) mr_size h tr = (v, h1, tr1)"
    and th1: "\<forall>p k s. th1_step e c s (sched p k s)"
    and run: "client_transfer e sched fuel h1 tr1 = Some (Inr (), h', tr')"
    and k: "k < unat mr_size" "length buf = unat mr_size"
  shows "flushed_byte [a \<mapsto> buf] (rc_conn (ch_conn h)) (cl_image_mr h) (cl_flush_type h) k tr' = Some (buf ! k) \<and>
     (\<exists>evs. tr' = tr @ evs)"
proof -
  have "cl_data_mr h1 \<noteq> None" using transfer_source [OF run] .
  with head assms(1) obtain m where m: "cl_data_mr h1 = Some m"
      and tr1: "tr1 = tr @ [Mr (Ev_mr_reg (ch_peer h) (Some a) mr_size RPMA_MR_USAGE_WRITE_SRC (0, Some m))]"
    by (auto simp: ClientHandler_set_head_def prepared_def env_simps Let_def split: if_splits prod.splits)
  have same: "ops_inv {} h1" "refs_below h1" "init_live h1 = {}" "rc_conn (ch_conn h1) = rc_conn (ch_conn h)"
      "cl_image_mr h1 = cl_image_mr h" "cl_flush_type h1 = cl_flush_type h"
    using head assms(1)
    by (auto simp: ClientHandler_set_head_def prepared_def Let_def split: if_splits prod.splits)
  let ?q = "rc_conn (ch_conn h)" and ?d = "cl_image_mr h" and ?t = "cl_flush_type h"
  obtain p q evs1 evs2 r where tr': "tr' = tr1 @ [Post (Ev_write ?q ?d 0 (Some m) 0 mr_size RPMA_F_COMPLETION_ALWAYS (Some p) 0)]
      @ evs1 @ [Post (Ev_flush ?q ?d 0 mr_size ?t RPMA_F_COMPLETION_ALWAYS (Some q) 0)] @ evs2 @ [Conn (Ev_conn_disconnect ?q r)]"
      and evs: "\<exists>ev \<in> set evs2. completes q ev" "\<forall>ev \<in> set (evs1 @ evs2). inert ev"
    using transfer_waits [OF same(1-3) th1 run] unfolding same m by blast
  let ?evs = "evs2 @ [Conn (Ev_conn_disconnect ?q r)]"
  have c: "c_source (cell_after ?q ?d ?t k tr') = Some (Some m, k) \<and> c_flushed (cell_after ?q ?d ?t k tr')"
    by (rule write_flush_cell [where us = evs1 and vs = ?evs and n = mr_size]) (use tr' evs k in auto)
  have "region_base tr' m = Some a"
    using evs(2) by (simp add: tr' tr1 region_base_append region_base_inert)
  with c k show ?thesis by (simp add: flushed_byte_def tr' tr1)
qed

lemma app_flushes:
  assumes prep: "prepared j {} (h, tr)" and th1: "\<forall>p k s. th1_step e c s (sched p k s)"
    and buf: "\<forall>t n. length (snd (e_bufferptr (mem_of e) t n)) = n"
    and run: "client_app e c sched clk fuel cost h tr = Some (Inr (), h', tr')"
  shows "\<exists>conn img ty a. (img = j_image_mr j \<or> learned img tr') \<and>
    (\<forall>k < unat mr_size. flushed_byte [a \<mapsto> repeated (2 ^ 24) client_data] conn img ty k tr' = Some (client_data ! (k mod 64)))"
proof -
  obtain h1 tr1 where w: "wait_established (sched 0) fuel 0 (h, tr) = Some (h1, tr1)"
    using run by (auto simp: client_app_def split: option.splits)
  obtain v h2 tr2 where i: "ClientHandler_init_replica e c (sched 1) clk fuel cost 1 REQUIRE_SIZE ''RBD'' ''test'' h1 tr1 = Some (Inr v, h2, tr2)"
    using run w by (auto simp: client_app_def split: option.splits sum.splits prod.splits)
  have p2: "prepared j {} (h2, tr2)"
    by (rule init_prepared [OF prepared_th1 [OF wait_established_th1 [OF spec [OF th1] w] prep] spec [OF th1] i])
  obtain a content tr3 where b: "bufferptr_create e (unat mr_size) tr2 = ((a, content), tr3)" by (metis prod.exhaust)
  have len: "length content = unat mr_size" "tr3 = tr2 @ [Mem (Ev_bufferptr (unat mr_size) (a, content))]"
    using b spec [OF spec [OF buf, of tr2], of "unat mr_size"] by (auto simp: bufferptr_create_def env_simps)
  have p3: "prepared j {} (h2, tr3)" using p2 by (auto simp: prepared_def len(2) learned_def)
  obtain u h3 tr4 where hd: "ClientHandler_set_head e (Some a) mr_size h2 tr3 = (u, h3, tr4)" by (metis prod_cases3)
  have t: "client_transfer e sched fuel h3 tr4 = Some (Inr (), h', tr')"
    using run w i b hd client_fill_result [OF len(1), of fuel]
    by (auto simp: client_app_def split: option.splits sum.splits)
  let ?buf = "repeated (2 ^ 24) client_data"
  have lb: "length ?buf = unat mr_size" "length client_data = 64" by (simp_all add: client_data_def mr_size_def)
  have "flushed_byte [a \<mapsto> ?buf] (rc_conn (ch_conn h2)) (cl_image_mr h2) (cl_flush_type h2) k tr' = Some (client_data ! (k mod 64))"
    if "k < unat mr_size" for k
    using transfer_flushes [OF p3 hd th1 t that lb(1)] nth_repeated [of k "2 ^ 24" client_data] that lb by simp
  moreover have "cl_image_mr h2 = j_image_mr j \<or> learned (cl_image_mr h2) tr'"
    using p3 transfer_flushes [OF p3 hd th1 t _ lb(1), of 0] lb by (auto simp: prepared_def learned_def mr_size_def)
  ultimately show ?thesis by blast
qed

lemma appends_more: "appends P tr t \<Longrightarrow> \<forall>ev \<in> set evs. P ev \<Longrightarrow> appends P tr (t @ evs)"
  by (auto simp: appends_def)

lemma inert_unique:
  "appends inert tr t \<Longrightarrow> appends inert tr (unique_delete RpmaMRDeleter p t)"
  "appends inert tr t \<Longrightarrow> appends inert tr (unique_delete RpmaPeerDeleter p t)"
  by (cases p; simp add: RpmaMRDeleter_def RpmaPeerDeleter_def env_simps appends_snoc)+

lemma inert_destroy: "ClientHandler_destroy e h tr = (r, h', tr') \<Longrightarrow> appends inert tr tr'"
  by (auto simp: ClientHandler_destroy_def ConnectionHandler_destroy_def RpmaConn_destroy_def Let_def env_simps
      split: if_splits prod.splits option.splits intro!: appends_more inert_unique)


text \<open>
  A run of the program in the environment in which operations complete: the first wait ends with
  the established connection, the second with the server's reply, the others with completions.
\<close>

definition prompt :: "bytes \<Rightarrow> nat \<Rightarrow> nat \<Rightarrow> client_state \<Rightarrow> client_state" where
  "prompt msg p k s =
     (if p = 0 then
        (case ClientHandler_handle completing_env ceph_le 1 CONNECTION_EVENT (fst s) None (snd s) of
           (Inl f, _) \<Rightarrow> s | (Inr _, h', _, tr') \<Rightarrow> (h', tr'))
      else if p = 1 then eager completing_env ceph_le p k ((fst s)\<lparr>recv_bl := msg\<rparr>, snd s)
      else eager completing_env ceph_le p k s)"

lemma prompt_th1: "th1_step completing_env ceph_le s (prompt msg p k s)"
proof (cases "p = 1")
  case True
  then show ?thesis
    using th1_step.more [OF th1_step.arrives eager_th1] by (cases s) (simp add: prompt_def)
next
  case False
  then show ?thesis
    by (cases s) (auto simp: prompt_def eager_th1 split: prod.splits sum.splits intro: th1_step.intros)
qed

definition prompt_run :: "nat \<Rightarrow> (int result \<times> trace) option" where
  "prompt_run n = client_main completing_env ceph_le demo_junk (prompt (RwlReplicaInitRequestReply_encode ceph_le demo_reply))
     (\<lambda>_. True) (\<lambda>_. 0) (Suc (Suc n)) 0 ''a'' ''p'' []"

lemma prompt_starts:
  "\<exists>r tr1 h tr2 ro tr3. Reactor_new completing_env (set_log_thresholds []) = (Inr r, tr1) \<and>
     ClientHandler_new completing_env demo_junk ''a'' ''p'' tr1 = (Inr h, tr2) \<and>
     ClientHandler_register_self completing_env 1 h (Some r) tr2 = (0, ro, tr3) \<and> \<not> connected h"
  by (simp add: Reactor_new_def set_log_thresholds_def client_new_defs ClientHandler_default_def ConnectionHandler.extend_def
      ConnectionHandler_new_def ClientHandler_register_self_def register_pair_def reactor_defs ConnectionHandler_get_handle_def interest_def
      completing_env_def client_env_def tracked_env_def kernel_env_def kernel_poll_def demo_env_def demo_mem_def demo_defs env_simps Let_def)

lemma prompt_connects:
  assumes "\<not> connected h"
  shows "\<exists>s'. wait_established (prompt msg 0) (Suc (Suc n)) 0 (h, tr) = Some s'"
  using assms
  by (simp add: prompt_def ClientHandler_handle_def ConnectionHandler_handle_def ConnectionHandler_handle_connection_event_def
      completing_defs env_simps Let_def)

lemma completing_descriptors: "client_descriptors completing_env (\<lambda>_. REQUIRE_SIZE) (\<lambda>bs. bs = ''P'')"
  using client_env_descriptors [of REQUIRE_SIZE] by (simp add: client_descriptors_def completing_env_def)

lemma reply_completes:
  assumes "foldl last_context None tr = Some p" and "op_heap h p = Some \<lparr>op_class = k, func = Init_replica_done i\<rparr>"
    and "i \<in> dom (cl_frames h)" and "recv_bl h = RwlReplicaInitRequestReply_encode ceph_le demo_reply"
  shows "frame_completed i (eager completing_env ceph_le q n (h, tr))"
proof -
  let ?h = "h\<lparr>callback_table := callback_table h - {p}\<rparr>"
  let ?tr = "tr @ [Conn (Ev_conn_completion_wait (rc_conn (ch_conn h)) 0), Conn (Ev_conn_completion_get (rc_conn (ch_conn h))
    (0, \<lparr>op_context = Some p, op = RPMA_OP_WRITE, byte_len = 0, op_status = 0\<rparr>))]"
  obtain v h2 tr2 where g: "ClientHandler_get_remote_descriptor completing_env ceph_le ?h ?tr = (Inr v, h2, tr2)"
    using read_reply [OF ceph_le.ceph_encoding_axioms _ _ completing_descriptors, of ?h demo_reply "[]" "''MR''" "''P''" ?tr] assms(4)
    by (auto simp: demo_reply_def split: if_splits)
  have "cl_frames h2 i = cl_frames h i" using get_remote_descriptor_frames [OF g] by simp
  with g assms show ?thesis
    by (auto simp: eager_def completing_handle RpmaOp_do_callback_def ClientHandler_run_def set_completed_def frame_completed_def)
qed

lemma prompt_init:
  "\<exists>v h' tr'. ClientHandler_init_replica completing_env ceph_le
     (prompt (RwlReplicaInitRequestReply_encode ceph_le demo_reply) 1) (\<lambda>_. 0) (Suc (Suc n)) 0 1 REQUIRE_SIZE ''RBD'' ''test'' h tr
     = Some (Inr v, h', tr')"
proof -
  let ?bl = "RwlReplicaInitRequest_encode ceph_le (init_request 1 REQUIRE_SIZE ''RBD'' ''test'')"
  let ?i = "cl_next_frame h" and ?msg = "RwlReplicaInitRequestReply_encode ceph_le demo_reply"
  have len: "length ?bl < MSG_SIZE" by (simp add: ceph_le.init_request_length init_request_def MSG_SIZE_def)
  obtain q h1 tr1 where p: "post_request completing_env ?bl Init_replica_done (h\<lparr>cl_image_size := REQUIRE_SIZE\<rparr>) tr = (q, h1, tr1)"
    by (metis prod_cases3)
  have q: "q = Inr ?i" using request_result [OF p] len by simp
  have h1: "cl_frames h1 ?i = Some \<lparr>fr_completed = False, fr_successed = False\<rparr>"
      "op_heap h1 (op_next h) = Some \<lparr>op_class = RpmaRecv, func = Init_replica_done ?i\<rparr>"
      "foldl last_context None tr1 = Some (op_next h)"
    using p len
    by (auto simp: post_request_def put_message_def push_frame_def ConnectionHandler_recv_def ConnectionHandler_send_def
        new_op_def settle_op_def delete_op_def completing_defs env_simps)
  have "frame_completed ?i (prompt ?msg 1 0 (h1, tr1))"
    using reply_completes [of tr1 "op_next h" "h1\<lparr>recv_bl := ?msg\<rparr>" RpmaRecv ?i 1 0] h1 by (auto simp: prompt_def)
  with p q h1(1) show ?thesis
    by (simp add: ClientHandler_init_replica_def frame_completed_def TIMEOUT_US_def)
qed

lemma prompt_app:
  assumes b: "blank demo_junk h" and "\<not> connected h" and n: "2 ^ 24 \<le> n"
  shows "\<exists>h' tr'. client_app completing_env ceph_le (prompt (RwlReplicaInitRequestReply_encode ceph_le demo_reply)) (\<lambda>_. 0)
     (Suc (Suc n)) 0 h tr = Some (Inr (), h', tr') \<and> ops_inv {} h'"
proof -
  let ?e = completing_env and ?s = "prompt (RwlReplicaInitRequestReply_encode ceph_le demo_reply)" and ?f = "Suc (Suc n)"
  have th1: "\<forall>p k s. th1_step ?e ceph_le s (?s p k s)" by (simp add: prompt_th1)
  obtain h1 tr1 where w: "wait_established (?s 0) ?f 0 (h, tr) = Some (h1, tr1)" using prompt_connects [OF assms(2)] by fastforce
  obtain v h2 tr2 where i: "ClientHandler_init_replica ?e ceph_le (?s 1) (\<lambda>_. 0) ?f 0 1 REQUIRE_SIZE ''RBD'' ''test'' h1 tr1 = Some (Inr v, h2, tr2)"
    using prompt_init by blast
  have p2: "prepared demo_junk {} (h2, tr2)"
    by (rule init_prepared [OF prepared_th1 [OF wait_established_th1 [OF spec [OF th1] w] blank_prepared [OF b]] spec [OF th1] i])
  obtain a tr3 where bp: "bufferptr_create ?e (unat mr_size) tr2 = ((a, replicate (unat mr_size) (CHR 0x00)), tr3)"
    by (simp add: bufferptr_create_def completing_defs demo_mem_def env_simps)
  have fill: "fill_loop ?f client_data mr_size 0 (replicate (unat mr_size) (CHR 0x00)) = Some (Inr (repeated (2 ^ 24) client_data))"
    using n by (intro client_fill) simp_all
  obtain u h3 tr4 where hd: "ClientHandler_set_head ?e (Some a) mr_size h2 tr3 = (u, h3, tr4)" by (metis prod_cases3)
  then have h3: "ops_inv {} h3" "refs_below h3" "init_live h3 = {}" "cl_data_mr h3 \<noteq> None"
    using p2 by (auto simp: ClientHandler_set_head_def prepared_def completing_defs env_simps)
  obtain h' tr' where t: "client_transfer ?e ?s ?f h3 tr4 = Some (Inr (), h', tr')"
    using completing_transfer [OF h3, of ?s ceph_le n tr4] by (auto simp: prompt_def fun_eq_iff)
  have "ops_inv {} h'" using transfer_waits [OF h3(1-3) th1 t] by blast
  moreover have "client_app ?e ceph_le ?s (\<lambda>_. 0) ?f 0 h tr = Some (Inr (), h', tr')"
    unfolding client_app_def w i option.case prod.case sum.case bp fill hd Let_def t ..
  ultimately show ?thesis by blast
qed

lemma prompt_returns:
  assumes "2 ^ 24 \<le> n"
  shows "\<exists>tr'. prompt_run n = Some (Inr 0, tr')"
proof -
  obtain r tr1 h tr2 ro tr3 where s: "Reactor_new completing_env (set_log_thresholds []) = (Inr r, tr1)"
     "ClientHandler_new completing_env demo_junk ''a'' ''p'' tr1 = (Inr h, tr2)"
     "ClientHandler_register_self completing_env 1 h (Some r) tr2 = (0, ro, tr3)" "\<not> connected h"
    using prompt_starts by blast
  obtain h4 tr4 where app: "client_app completing_env ceph_le (prompt (RwlReplicaInitRequestReply_encode ceph_le demo_reply)) (\<lambda>_. 0)
     (Suc (Suc n)) 0 h tr3 = Some (Inr (), h4, tr4)" "ops_inv {} h4"
    using prompt_app [OF new_client_blank [OF s(2)] s(4) assms] by blast
  obtain x h5 tr5 where d: "ClientHandler_destroy completing_env h4 tr4 = (x, h5, tr5)" by (metis prod_cases3)
  have "\<forall>p \<in> callback_table h4. op_heap h4 p \<noteq> None" using app(2) by (auto simp: ops_inv_def)
  with d have "x = Inr ()"
    by (auto simp: ClientHandler_destroy_def ConnectionHandler_destroy_def Let_def split: prod.splits if_splits)
  with s app d show ?thesis by (simp add: prompt_run_def client_main_def)
qed


end
