(* ===== verification/Client_Exit.thy ===== *)
theory Client_Exit
  imports Client_Data
begin

text \<open>
  The end of the client program: what both threads did to the shared client in the meantime, the
  destructor gives back every region and connection.
\<close>

subsection \<open>What the client holds\<close>

definition client_holds :: "footprint \<Rightarrow> client_state \<Rightarrow> bool" where
  "client_holds F s \<longleftrightarrow> ops_inv {} (fst s) \<and> client_inv F (fst s) (snd s)"

lemma client_holds_quiet:
  "client_holds F (h, tr) \<Longrightarrow> same_client h h' \<Longrightarrow> quiet tr tr' \<Longrightarrow> ops_inv {} h' \<Longrightarrow> client_holds F (h', tr')"
  by (auto simp: client_holds_def intro: client_inv_quiet)

lemma same_client_refl [simp]: "same_client h h"
  by (simp add: same_client_def)

text \<open>The thread of the reactor neither takes nor gives back anything.\<close>

lemma th1_quiet:
  "th1_step e c s s' \<Longrightarrow> same_client (fst s) (fst s') \<and> quiet (snd s) (snd s')"
proof (induction rule: th1_step.induct)
  case (event j et h ro tr v h' ro' tr')
  from client_handle_quiet [OF this] show ?case by simp
next
  case (more s1 s2 s3)
  then show ?case using same_client_trans quiet_trans by blast
qed (simp_all add: same_client_def)

lemma th1_holds: "th1_step e c s s' \<Longrightarrow> client_holds F s \<Longrightarrow> client_holds F s'"
  using th1_quiet [of e c s s'] th1_ops [of e c s s'] client_holds_quiet [of F "fst s" "snd s" "fst s'" "snd s'"]
  by (simp add: client_holds_def)

subsection \<open>What \<open>main\<close> does\<close>

text \<open>The operations of \<open>main\<close> that take nothing: a step without effect on resources, then waiting.\<close>

lemma init_holds:
  assumes hold: "client_holds F (h, tr)" and th1: "\<forall>k s. th1_step e c s (sched k s)"
    and run: "ClientHandler_init_replica e c sched clk fuel cost cid csize pool img h tr = Some (Inr v, h', tr')"
  shows "client_holds F (h', tr')"
proof -
  let ?bl = "RwlReplicaInitRequest_encode c (init_request cid csize pool img)" and ?h = "h\<lparr>cl_image_size := csize\<rparr>"
  obtain r h1 tr1 where p: "post_request e ?bl Init_replica_done ?h tr = (r, h1, tr1)" by (metis prod_cases3)
  then obtain i s where r: "r = Inr i" and w: "wait_loop sched clk (frame_completed i) fuel 0 cost (h1, tr1) = Some s"
      and h': "h' = pop_frame i (fst s)" "tr' = snd s"
    using run by (auto simp: ClientHandler_init_replica_def split: sum.splits option.splits)
  have "client_holds F (?h, tr)" by (rule client_holds_quiet [OF hold]) (use hold in \<open>simp_all add: same_client_def client_holds_def\<close>)
  moreover have "ops_inv {} h1" using post_request_ops [OF _ p] calculation by (simp add: client_holds_def)
  ultimately have "client_holds F (h1, tr1)" using client_holds_quiet request_quiet [OF p] by blast
  then have "client_holds F s" by (rule th1_holds [OF wait_loop_th1 [OF th1 w]])
  then show ?thesis by (simp add: client_holds_def h' client_inv_def pop_frame_def buffer_mrs_def)
qed

lemma spin_holds:
  assumes hold: "client_holds F (h, tr)" and th1: "\<forall>k s. th1_step e c s (sched k s)"
    and post: "\<And>r h1 tr1. ops_inv {} h \<Longrightarrow> post h tr = (r, h1, tr1) \<Longrightarrow> same_client h h1 \<and> quiet tr tr1 \<and> ops_inv {} h1"
    and run: "post_and_spin post sched fuel i h tr = Some (Inr u, h', tr')"
  shows "client_holds F (h', tr')"
proof -
  obtain v h1 tr1 where p: "post h tr = (Inr v, h1, tr1)" "spin_loop sched (frame_completed i) fuel 0 (h1, tr1) = Some (h', tr')"
    using run by (auto simp: post_and_spin_def split: prod.splits sum.splits option.splits)
  have "client_holds F (h1, tr1)" using client_holds_quiet [OF hold] post [OF _ p(1)] hold by (simp add: client_holds_def)
  then show ?thesis using th1_holds spin_th1 [OF th1 p(2)] by blast
qed

lemma transfer_holds:
  assumes hold: "client_holds F (h, tr)" and th1: "\<forall>p k s. th1_step e c s (sched p k s)"
    and run: "client_transfer e sched fuel h tr = Some (Inr u, h', tr')"
  shows "client_holds F (h', tr')"
proof -
  obtain i h1 where push: "push_frame h = (i, h1)" by (metis prod.exhaust)
  let ?w = "ClientHandler_write e 0 mr_size (User_callback i)" and ?f = "ClientHandler_flush e 0 mr_size (User_callback i)"
  obtain a h2 tr2 where w: "post_and_spin ?w (sched 2) fuel i h1 tr = Some (Inr a, h2, tr2)"
    using run push by (auto simp: client_transfer_def split: option.splits sum.splits prod.splits)
  obtain b h3 tr3 where f: "post_and_spin ?f (sched 3) fuel i (reset_completed i h2) tr2 = Some (Inr b, h3, tr3)"
    using run push w by (auto simp: client_transfer_def split: option.splits sum.splits prod.splits)
  have "client_holds F (h1, tr)"
    by (rule client_holds_quiet [OF hold]) (use push hold push_frame_ops [OF push] in \<open>auto simp: push_frame_def same_client_def client_holds_def\<close>)
  then have h2: "client_holds F (h2, tr2)"
    by (rule spin_holds [OF _ spec [OF th1] _ w]) (use access_quiet(1) write_ops in blast)
  have "client_holds F (reset_completed i h2, tr2)"
    by (rule client_holds_quiet [OF h2]) (use h2 in \<open>auto simp: reset_completed_def same_client_def client_holds_def split: option.splits\<close>)
  then have h3: "client_holds F (h3, tr3)"
    by (rule spin_holds [OF _ spec [OF th1] _ f]) (use access_quiet(2) flush_ops in blast)
  show ?thesis
    by (rule client_holds_quiet [OF h3])
      (use run push w f h3 in \<open>auto simp: client_transfer_def ClientHandler_disconnect_def obj_defs env_simps same_client_def client_holds_def\<close>)
qed

lemma set_head_ops: "ClientHandler_set_head e p sz h tr = (v, h', tr') \<Longrightarrow> ops_inv B h' = ops_inv B h"
  by (auto simp: ClientHandler_set_head_def Let_def split: prod.splits if_splits)

lemma app_holds:
  assumes fresh: "objects_fresh e" and hold: "client_holds F (h, tr)" and th1: "\<forall>p k s. th1_step e c s (sched p k s)"
    and run: "client_app e c sched clk fuel cost h tr = Some (Inr u, h', tr')"
  shows "client_holds F (h', tr')"
proof -
  obtain h1 tr1 where w: "wait_established (sched 0) fuel 0 (h, tr) = Some (h1, tr1)"
    using run by (auto simp: client_app_def split: option.splits)
  obtain v h2 tr2 where i: "ClientHandler_init_replica e c (sched 1) clk fuel cost 1 REQUIRE_SIZE ''RBD'' ''test'' h1 tr1 = Some (Inr v, h2, tr2)"
    using run w by (auto simp: client_app_def split: option.splits sum.splits prod.splits)
  obtain a content tr3 where b: "bufferptr_create e (unat mr_size) tr2 = ((a, content), tr3)" by (metis prod.exhaust)
  obtain q h3 tr4 where hd: "ClientHandler_set_head e (Some a) mr_size h2 tr3 = (q, h3, tr4)" by (metis prod_cases3)
  have t: "client_transfer e sched fuel h3 tr4 = Some (Inr u, h', tr')"
    using run w i b hd by (auto simp: client_app_def split: option.splits sum.splits)
  have "client_holds F (h1, tr1)" by (rule th1_holds [OF wait_established_th1 [OF spec [OF th1] w] hold])
  then have h2: "client_holds F (h2, tr2)" by (rule init_holds [OF _ spec [OF th1] i])
  have "quiet tr2 tr3" using b by (auto simp: env_simps)
  then have h2': "client_holds F (h2, tr3)" using client_holds_quiet [OF h2] h2 by (simp add: client_holds_def)
  then have "client_holds F (h3, tr4)"
    using set_head_inv [OF fresh _ hd] set_head_ops [OF hd] by (simp add: client_holds_def)
  then show ?thesis by (rule transfer_holds [OF _ th1 t])
qed

text \<open>The destructor after either end: the registration failed, or the work is done.\<close>

lemma destroy_exit:
  assumes hold: "client_holds (footprint tr0) (h, tr)" and d: "ClientHandler_destroy e h tr = (r, h', tr')"
  shows "footprint (Reactor_destroy re tr') = footprint tr0"
proof -
  have "all_released (footprint tr0) tr'" using client_destroy_releases [OF _ _ d] hold by (simp add: client_holds_def)
  moreover have "quiet tr' (Reactor_destroy re tr')" by (simp add: Reactor_destroy_def env_simps)
  ultimately show ?thesis using quiet_live by (simp add: footprint_def all_released_def)
qed

subsection \<open>Properties\<close>

text \<open>
  C10: The client program leaks nothing: whenever \<open>main\<close> returns, after the transfer or because the
  client could not be registered, and whatever the reactor's thread did to the shared client
  in the meantime, the registered regions and the connections are those from before the program.
\<close>

theorem client_main_no_leak:
  assumes fresh: "objects_fresh e" and th1: "\<forall>p k s. th1_step e c s (sched p k s)"
    and run: "client_main e c j sched th1_done clk fuel cost addr port tr = Some (Inr v, tr')"
  shows "live_blocks tr' = live_blocks tr \<and> live_mrs tr' = live_mrs tr \<and> live_conns tr' = live_conns tr"
proof -
  obtain r tr1 where r: "Reactor_new e (set_log_thresholds tr) = (Inr r, tr1)"
    using run by (cases "Reactor_new e (set_log_thresholds tr)") (auto simp: client_main_def split: sum.splits failure.splits)
  obtain h tr2 where n: "ClientHandler_new e j addr port tr1 = (Inr h, tr2)"
    using run r by (cases "ClientHandler_new e j addr port tr1") (auto simp: client_main_def split: sum.splits failure.splits)
  obtain ret ro tr3 where g: "ClientHandler_register_self e 1 h (Some r) tr2 = (ret, ro, tr3)" by (metis prod_cases3)
  have "quiet tr tr1" using r by (auto simp: set_log_thresholds_def Reactor_new_def env_simps split: if_splits)
  then have f: "footprint tr1 = footprint tr" using quiet_live by (simp add: footprint_def)
  have "client_inv (footprint tr) h tr2"
    using new_client_outcome [OF fresh, of tr1 j addr port] n f by (simp add: client_outcome_def)
  moreover have "ops_inv {} h" using blank_prepared [OF new_client_blank [OF n]] by (simp add: prepared_def)
  moreover have "quiet tr2 tr3" using g by (auto simp: ClientHandler_register_self_def dest: quiet_register_pair)
  ultimately have h3: "client_holds (footprint tr) (h, tr3)" by (auto simp: client_holds_def same_client_def intro: client_inv_quiet)
  have "footprint tr' = footprint tr"
  proof (cases "ret = 0")
    case False
    with run r n g obtain h' tr4 where "ClientHandler_destroy e h tr3 = (Inr (), h', tr4)" "tr' = Reactor_destroy r tr4"
      by (auto simp: client_main_def split: sum.splits prod.splits)
    with destroy_exit [OF h3] show ?thesis by blast
  next
    case True
    with run r n g obtain h4 tr4 h5 tr5 h6 tr6 where app: "client_app e c sched clk fuel cost h tr3 = Some (Inr (), h4, tr4)"
        and spin: "spin_loop (sched 4) th1_done fuel 0 (h4, tr4) = Some (h5, tr5)"
        and d: "ClientHandler_destroy e h5 tr5 = (Inr (), h6, tr6)" "tr' = Reactor_destroy r tr6"
      by (auto simp: client_main_def split: sum.splits prod.splits option.splits)
    have "client_holds (footprint tr) (h5, tr5)"
      using th1_holds [OF conjunct1 [OF spin_th1 [OF spec [OF th1] spin]] app_holds [OF fresh h3 th1 app]] .
    with destroy_exit [OF _ d(1)] d(2) show ?thesis by blast
  qed
  then show ?thesis by (metis footprint_simps)
qed

lemma completing_fresh: "objects_fresh completing_env"
  using tracked_env_fresh(1) [of True] by (simp add: objects_fresh_def completing_env_def)

theorem client_main_no_leak_witness:
  "\<exists>tr'. prompt_run (2 ^ 24) = Some (Inr 0, tr') \<and> live_mrs tr' = live_mrs [] \<and> live_conns tr' = live_conns []"
proof -
  obtain tr' where r: "prompt_run (2 ^ 24) = Some (Inr 0, tr')" using prompt_returns by blast
  from client_main_no_leak [OF completing_fresh _ r [unfolded prompt_run_def]] prompt_th1 r show ?thesis by blast
qed

end
