(* ===== verification/Log_Line.thy ===== *)
theory Log_Line
  imports Prelude
begin

text \<open>
  \<open>log.h\<close>: the \<open>LOG\<close> macro, which puts a time stamp, the source position and a NUL into a
  buffer of 128 bytes with \<open>strftime\<close> and \<open>snprintf\<close> and prints the buffer before the message.
  The clock and \<open>localtime_r\<close> are parameters; what \<open>strftime\<close>, \<open>snprintf\<close> and \<open>printf\<close> do with
  the formats of the macro is written out. The text of the message after formatting is an
  argument of the model.
\<close>

subsection \<open>The data of the C library\<close>

record timeval =
  tv_sec :: int
  tv_usec :: int

record tm =
  tm_year :: int
  tm_mon :: int
  tm_mday :: int
  tm_hour :: int
  tm_min :: int
  tm_sec :: int

text \<open>
  A field of \<open>struct tm\<close> is an \<open>int\<close>; what \<open>localtime_r\<close> fills in is a calendar date and a time of
  day, a leap second included. \<open>gettimeofday\<close> normalises the microseconds.
\<close>

definition tm_ok :: "tm \<Rightarrow> bool" where
  "tm_ok t \<longleftrightarrow> - (2 ^ 31) \<le> tm_year t \<and> tm_year t < 2 ^ 31
     \<and> 0 \<le> tm_mon t \<and> tm_mon t \<le> 11 \<and> 1 \<le> tm_mday t \<and> tm_mday t \<le> 31
     \<and> 0 \<le> tm_hour t \<and> tm_hour t \<le> 23 \<and> 0 \<le> tm_min t \<and> tm_min t \<le> 59
     \<and> 0 \<le> tm_sec t \<and> tm_sec t \<le> 60"

text \<open>Conversions: \<open>%d\<close> and \<open>%0wd\<close> of a number; the sign counts for the width.\<close>

definition dec_int :: "int \<Rightarrow> string" where
  "dec_int n = (if n < 0 then CHR ''-'' # dec_digits (nat (- n)) else dec_digits (nat n))"

definition zero_padded :: "nat \<Rightarrow> int \<Rightarrow> string" where
  "zero_padded w n =
     (let ds = dec_digits (nat \<bar>n\<bar>); sg = (if n < 0 then ''-'' else '''')
      in sg @ replicate (w - length sg - length ds) (CHR ''0'') @ ds)"

subsection \<open>Writing into the buffer\<close>

text \<open>
  A buffer is the list of its bytes. \<open>strftime(s, max, ...)\<close> writes the text and a NUL and returns
  the length of the text when both fit; otherwise it returns 0 and what it left in the buffer is
  unspecified (the argument \<open>junk\<close>). \<open>snprintf(s, n, ...)\<close> writes as much of the text as
  leaves room for the NUL. A write that would leave the buffer is \<open>Out_of_range\<close>.
\<close>

definition buf_write :: "bytes \<Rightarrow> nat \<Rightarrow> bytes \<Rightarrow> bytes result" where
  "buf_write buf i d = (if i + length d \<le> length buf then Inr (blit buf i d) else Inl Out_of_range)"

definition strftime_text :: "tm \<Rightarrow> string" where
  "strftime_text t =
     dec_int (tm_year t + 1900) @ ''-'' @ zero_padded 2 (tm_mon t + 1) @ ''-''
     @ zero_padded 2 (tm_mday t) @ '' '' @ zero_padded 2 (tm_hour t) @ '':''
     @ zero_padded 2 (tm_min t) @ '':'' @ zero_padded 2 (tm_sec t)"

definition strftime :: "bytes \<Rightarrow> bytes \<Rightarrow> nat \<Rightarrow> tm \<Rightarrow> (nat \<times> bytes) result" where
  "strftime junk buf maxsize t =
     (let s = strftime_text t in
      if length s + 1 \<le> maxsize then map_sum id (Pair (length s)) (buf_write buf 0 (s @ [CHR 0x00]))
      else map_sum id (Pair 0) (buf_write buf 0 (take maxsize junk)))"

definition snprintf :: "bytes \<Rightarrow> nat \<Rightarrow> nat \<Rightarrow> string \<Rightarrow> bytes result" where
  "snprintf buf i n s =
     (if n = 0 then Inr buf else buf_write buf i (take (n - 1) s @ [CHR 0x00]))"

text \<open>The string a \<open>%s\<close> reads: up to the first NUL, which must be inside the buffer.\<close>

definition c_string :: "bytes \<Rightarrow> string result" where
  "c_string buf = (if CHR 0x00 \<in> set buf then Inr (takeWhile (\<lambda>ch. ch \<noteq> CHR 0x00) buf) else Inl Out_of_range)"

subsection \<open>The macro\<close>

text \<open>
  \<open>.%06ld %s:%d: %s\<close> with the microseconds, \<open>__FILE__\<close>, \<open>__LINE__\<close> and \<open>__FUNCTION__\<close>.
\<close>

definition log_position :: "int \<Rightarrow> string \<Rightarrow> int \<Rightarrow> string \<Rightarrow> string" where
  "log_position usec file line func =
     ''.'' @ zero_padded 6 usec @ '' '' @ file @ '':'' @ dec_int line @ '': '' @ func"

definition LOG :: "(int \<Rightarrow> tm) \<Rightarrow> bytes \<Rightarrow> timeval \<Rightarrow> string \<Rightarrow> int \<Rightarrow> string \<Rightarrow> string \<Rightarrow> string result" where
  "LOG localtime_r junk tv file line func msg =
     (let now_time = localtime_r (tv_sec tv); buf = replicate 128 (CHR 0x00) in
      case strftime junk buf 128 now_time of
        Inl f \<Rightarrow> Inl f
      | Inr (len, buf1) \<Rightarrow>
          (case snprintf buf1 len (128 - len) (log_position (tv_usec tv) file line func) of
             Inl f \<Rightarrow> Inl f
           | Inr buf2 \<Rightarrow> map_sum id (\<lambda>s. s @ '' '' @ msg @ [CHR 0x0A]) (c_string buf2)))"

subsection \<open>What a line contains\<close>

lemma length_dec_digits: "n < 10 ^ Suc k \<Longrightarrow> length (dec_digits n) \<le> Suc k"
proof (induction k arbitrary: n)
  case 0
  then show ?case by (simp add: dec_digits.simps)
next
  case (Suc k)
  then have "n div 10 < 10 ^ Suc k" by (simp add: less_mult_imp_div_less)
  from Suc.IH [OF this] show ?case by (simp add: dec_digits.simps [of n])
qed

lemma digit_not_nul:
  assumes "CHR 0x00 = char_of (48 + d :: nat)"
  shows "10 \<le> d"
proof -
  from assms have "of_char (CHR 0x00) = (of_char (char_of (48 + d)) :: nat)" by (rule arg_cong)
  then have "(48 + d) mod 256 = 0" by simp
  then show ?thesis by presburger
qed

lemma dec_digits_no_nul: "CHR 0x00 \<notin> set (dec_digits n)"
proof (induction n rule: dec_digits.induct)
  case (1 n)
  then show ?case by (subst dec_digits.simps) (auto dest: digit_not_nul simp flip: not_less)
qed

lemma length_two_digits:
  assumes "0 \<le> n" and "n < 100"
  shows "length (zero_padded 2 n) = 2"
proof -
  have "nat n < 10 ^ Suc 1" using assms by simp
  from length_dec_digits [OF this] assms show ?thesis by (simp add: zero_padded_def Let_def)
qed

lemma no_nul:
  "CHR 0x00 \<notin> set (dec_int n)" "CHR 0x00 \<notin> set (zero_padded w n)" "CHR 0x00 \<notin> set (strftime_text t)"
  by (auto simp: dec_int_def zero_padded_def strftime_text_def Let_def dec_digits_no_nul)

lemma log_position_no_nul:
  "CHR 0x00 \<notin> set file \<Longrightarrow> CHR 0x00 \<notin> set func \<Longrightarrow> CHR 0x00 \<notin> set (log_position usec file line func)"
  by (auto simp: log_position_def no_nul)

lemma length_dec_int:
  assumes "- (10 ^ 10) < n" and "n < 10 ^ 10"
  shows "length (dec_int n) \<le> 11"
proof -
  have "nat \<bar>n\<bar> < 10 ^ Suc 9" using assms by (simp add: nat_less_iff)
  from length_dec_digits [OF this] show ?thesis
    by (cases "n < 0") (simp_all add: dec_int_def)
qed

lemma length_strftime_text:
  assumes "tm_ok t"
  shows "length (strftime_text t) \<le> 26"
proof -
  have "length (dec_int (tm_year t + 1900)) \<le> 11"
    using assms by (intro length_dec_int) (simp_all add: tm_ok_def)
  with assms show ?thesis
    by (simp add: strftime_text_def tm_ok_def length_two_digits)
qed

text \<open>A text, a NUL and anything after it is the text, as \<open>%s\<close> reads it.\<close>

lemma c_string_terminated: "CHR 0x00 \<notin> set s \<Longrightarrow> c_string (s @ CHR 0x00 # rest) = Inr s"
  by (auto simp: c_string_def takeWhile_append2 takeWhile_tail)

lemma strftime_fits:
  "length (strftime_text t) < n \<Longrightarrow> strftime junk (replicate n (CHR 0x00)) n t
     = Inr (length (strftime_text t),
            strftime_text t @ replicate (n - length (strftime_text t)) (CHR 0x00))"
  by (simp add: strftime_def buf_write_def blit_def Let_def Suc_diff_Suc flip: replicate_Suc)

text \<open>\<open>snprintf\<close> behind a text of the buffer, with what is left of the buffer as its limit.\<close>

lemma snprintf_behind:
  assumes "length p < n"
  shows "\<exists>rest. snprintf (p @ replicate (n - length p) z) (length p) (n - length p) s
           = Inr (p @ take (n - length p - 1) s @ CHR 0x00 # rest)"
  using assms by (simp add: snprintf_def buf_write_def blit_def)

text \<open>
  C32: Every line of the log is what the format says, cut to the 127 characters that fit in front of the NUL:
  \<open>strftime\<close> never runs out of room, nothing is written behind the 128 bytes of the buffer and
  \<open>printf\<close> finds the NUL. Only the position can be cut, never the message, and only for a
  \<open>__FILE__\<close> and \<open>__FUNCTION__\<close> of about 80 characters and more.
\<close>

theorem LOG_line:
  assumes "tm_ok (localtime_r (tv_sec tv))"
    and "CHR 0x00 \<notin> set file" and "CHR 0x00 \<notin> set func"
  shows "LOG localtime_r junk tv file line func msg
    = Inr (take 127 (strftime_text (localtime_r (tv_sec tv)) @ log_position (tv_usec tv) file line func)
           @ '' '' @ msg @ [CHR 0x0A])"
proof -
  define p where "p = strftime_text (localtime_r (tv_sec tv))"
  define s where "s = log_position (tv_usec tv) file line func"
  have p: "length p < 128" "CHR 0x00 \<notin> set p"
    using length_strftime_text [OF assms(1)] by (simp_all add: p_def no_nul)
  have s: "CHR 0x00 \<notin> set s" using assms by (simp add: s_def log_position_no_nul)
  obtain rest where w: "snprintf (p @ replicate (128 - length p) (CHR 0x00)) (length p) (128 - length p) s
      = Inr (p @ take (128 - length p - 1) s @ CHR 0x00 # rest)"
    using snprintf_behind [OF p(1)] by blast
  have "c_string ((p @ take (128 - length p - 1) s) @ CHR 0x00 # rest) = Inr (p @ take (127 - length p) s)"
    using p s by (subst c_string_terminated) (auto dest: in_set_takeD)
  with w p show ?thesis
    by (simp add: LOG_def Let_def strftime_fits flip: p_def s_def)
qed

theorem LOG_line_witness:
  "LOG (\<lambda>_. \<lparr>tm_year = 122, tm_mon = 4, tm_mday = 17, tm_hour = 9, tm_min = 3, tm_sec = 0\<rparr>) []
     \<lparr>tv_sec = 1652778180, tv_usec = 42\<rparr> ''EventOp.cc'' 331 ''handle_completion'' ''op_context is nullptr''
   = Inr (''2022-05-17 09:03:00.000042 EventOp.cc:331: handle_completion op_context is nullptr'' @ [CHR 0x0A])"
proof -
  let ?t = "\<lparr>tm_year = 122, tm_mon = 4, tm_mday = 17, tm_hour = 9, tm_min = 3, tm_sec = 0\<rparr>"
  have "strftime_text ?t = ''2022-05-17 09:03:00''"
    and "log_position 42 ''EventOp.cc'' 331 ''handle_completion'' = ''.000042 EventOp.cc:331: handle_completion''"
    by code_simp+
  then show ?thesis
    using LOG_line [of "\<lambda>_. ?t" "\<lparr>tv_sec = 1652778180, tv_usec = 42\<rparr>" "''EventOp.cc''" "''handle_completion''"
        "[]" 331 "''op_context is nullptr''"]
    by (simp add: tm_ok_def)
qed

end
