(* ===== verification/Spec2Isabelle.thy ===== *)
theory Spec2Isabelle
  imports Api_Usage Wire_Protocol Server_Region Server_Slots Client_Loop Client_Exit Log_Line
begin

text \<open>
  A model and a verification of the RPMA demo: a server that offers memory regions, persistent
  if it can, to remote clients, and a client that asks for a region, writes to it over RDMA and flushes it.

  \<^bold>\<open>The program and its parts.\<close> Both programs are event driven. A \<open>Reactor\<close>
  (\<open>Reactor.cc\<close>) waits on epoll and calls handlers. On the server an \<open>AcceptorHandler\<close>
  creates one \<open>RPMAHandler\<close> per incoming connection; it reads requests from its receive buffer,
  lets a \<open>MemoryManager\<close> acquire or release memory, registers it and answers with descriptors. On
  the client a \<open>ClientHandler\<close> sends the requests, learns region and flush type from the answer and
  posts writes and flushes, from a thread of its own, while a second thread runs the reactor and with it the
  callbacks. Both handlers extend \<open>ConnectionHandler\<close> (all in \<open>EventOp.cc\<close>). The
  messages (\<open>Types.cc\<close>) are encoded with Ceph's encoding library; everything else is done by
  librpma, libpmem and the kernel.

  \<^bold>\<open>Modelling.\<close> Classes are records, member functions are functions that take and
  return the record, exceptions, failed assertions and undefined behaviour are values of type
  \<open>failure\<close>. What is not in the repository is a parameter: the record \<open>env\<close> has one
  oracle per library call, which answers from the whole history of calls, and \<open>ceph_codec\<close> is the
  encoding library. Every call appends an event to a trace, so the order of calls and the resources they create
  and release are facts about traces. Object addresses are numbers that are never reused; uninitialised members
  are parameters (\<open>junk\<close>).

  \<^bold>\<open>Theories and sources.\<close>
  \<^item> \<open>Prelude\<close>: machine integers, byte buffers, failures, generic lemmas.
  \<^item> \<open>Log_Line\<close>: the macro of \<open>log.h\<close>, the line it prints and the buffer it prints it from.
  \<^item> \<open>Librpma\<close>, \<open>Environment\<close>: constants and types of \<open>include/librpma.h\<close>; the library calls
    as oracles and events.
  \<^item> \<open>Contracts\<close>: the manual pages in \<open>include/librpma.h\<close> of the functions the program
    calls, as predicates on arguments and answers; a library that behaves as documented.
  \<^item> \<open>Ceph_Codec\<close>, \<open>Wire_Types\<close>, \<open>Wire_Protocol\<close>: the encoding library as the locale
    \<open>ceph_encoding\<close>, interpreted by a little-endian instance; the messages of \<open>Types.h\<close> and
    \<open>Types.cc\<close> with their round trips; messages in buffers and \<open>test_demo.cc\<close>.
  \<^item> \<open>Memory_Manager\<close>: \<open>MemoryManager.cc\<close>, with the blocks that are live after a
    trace; a manager releases what it acquired, through the locale \<open>region_owner\<close>.
  \<^item> \<open>Reactor_Model\<close>: \<open>Reactor.cc\<close> and \<open>EventHandler.h\<close>, with the event table as an association list of
    nodes; agreement of table and kernel, refinement of an abstract table (locale \<open>registry\<close>), and
    the safety of the event loop (locale \<open>event_loop\<close>) for any state that contains a reactor.
  \<^item> \<open>Rpma_Objects\<close>: the wrappers of \<open>EventOp.h\<close> and the operations of \<open>RpmaOp.h\<close>;
    callbacks are a datatype.
  \<^item> \<open>Connection_Handler\<close>, \<open>Connection_Frame\<close>: \<open>ConnectionHandler\<close>; who owns the
    operation objects (\<open>ops_inv\<close>, locale \<open>callback_runner\<close>); registration of both
    descriptors or none; what leaves epoll alone.
  \<^item> \<open>Rpma_Handler\<close>, \<open>Resources\<close>, \<open>Server_Session\<close>, \<open>Api_Usage\<close>: \<open>RPMAHandler\<close>; its
    constructor is exception safe and no session leaks; what each request is answered; that only calls the manual
    allows are made. What a request guarantees every event guarantees: locale \<open>event_relation\<close>.
  \<^item> \<open>Server_Slots\<close>, \<open>Server_Exposure\<close>: which operations of a connection are outstanding, and which memory
    it opens to its client, step by step.
  \<^item> \<open>Acceptor\<close>, \<open>Server_Program\<close>: \<open>AcceptorHandler\<close> and \<open>server.cc\<close>; the
    invariant of the whole server and the safety of its loop.
  \<^item> \<open>Server_Main\<close>, \<open>Server_Exposure_Main\<close>: the resources of all connections together, kept apart by
    every event (\<open>holdings\<close>, locale \<open>server_machine\<close>) and given back when \<open>main\<close> ends (locale
    \<open>dismantling\<close>); that no memory is released while a client can reach it.
  \<^item> \<open>Server_Isolation\<close>, \<open>Server_Region\<close>: the objects every call names, and that the calls made for one
    connection name none of another (\<open>spares\<close>, \<open>observes\<close>); the region of a connection as an abstract machine
    (\<open>replica_step\<close>) that every event refines; an offered region lasts while its client does not finish (locale
    \<open>lasting_client\<close>).
  \<^item> \<open>Client_Handler\<close>, \<open>Client_Session\<close>, \<open>Client_Operations\<close>: \<open>ClientHandler\<close>; sessions as
    an inductive relation over the operations of both threads; stack frames that callbacks refer to are
    part of the state (\<open>frames_inv\<close>); what each operation posts and when waiting ends.
  \<^item> \<open>Client_Program\<close>, \<open>Client_Threads\<close>, \<open>Client_Transfer\<close>, \<open>Client_Loop\<close>: \<open>client.cc\<close>; the loop that
    fills the buffer, the order of write, flush and disconnection under any behaviour of the reactor's
    thread, and the safety of that thread.
  \<^item> \<open>Client_Data\<close>: the documented meaning of writes, flushes and completions for one byte of remote memory
    (\<open>cell_step\<close>, after \<open>librpma(7)\<close>), and what a program that returned 0 has brought there.
  \<^item> \<open>Client_Exit\<close>: what both threads leave the client holding, and that the end of \<open>main\<close> gives it back.
  \<^item> This theory: the handshake between both programs, and the closing of a region.

  \<^bold>\<open>Resources.\<close> Blocks, regions and connections that are alive are computed from a trace, together its
  \<open>footprint\<close>; an invariant of one object says what it adds to a footprint \<open>F\<close> of all others, so that the
  invariants of many connections compose.

  \<^bold>\<open>What is assumed.\<close> Assumptions on libraries are named predicates: \<open>epoll_ok\<close> and \<open>conn_fds_fresh\<close>
  (kernel), \<open>alloc_fresh\<close>, \<open>maps_whole\<close> (allocator, libpmem), \<open>objects_fresh\<close> (librpma returns new objects),
  \<open>completion_ok\<close> (a completion belongs to an outstanding operation), \<open>server_descriptors\<close> and
  \<open>client_descriptors\<close> (descriptors describe what they were made from), \<open>documented\<close> (the manual pages).
  Each theorem that uses one has an instance on a concrete environment that satisfies it.

  \<^bold>\<open>Loops and fuel.\<close> \<open>handle_events\<close>, the main loops and the waiting loops need not end; they run on
  fuel and \<open>None\<close> means out of fuel. Theorems about them hold for every amount of fuel; that the waiting
  functions return is shown with the fuel the clock gives, that the filling loop returns with more than
  \<open>2 ^ 24\<close> steps, one per copied line of the gibibyte. While one thread waits, what the other does to the
  shared state is a parameter, restricted to its possible steps where a theorem needs it (\<open>th1_step\<close>).
  Interleaving is at the level of whole handled events; the program has no locks and its data races inside one
  operation are undefined behaviour that is not modelled.

  \<^bold>\<open>Not modelled.\<close> All printing apart from the text of a log line, and with it \<open>rpma_err_2str\<close>, which only log arguments call; the functions of \<open>librpma.h\<close> the program never calls;
  \<open>write_atomic\<close> and \<open>prepare_for_send\<close> of \<open>ClientHandler\<close>, declared and never defined; the build files and the compiled library.
\<close>

section \<open>The handshake of client and server\<close>

text \<open>What the client's send buffer and stack frame are after a request was posted.\<close>

lemma post_request_message:
  assumes "post_request e bl cb h tr = (Inr i, h', tr')"
  shows "length bl < MSG_SIZE \<and> send_bl h' = bl @ drop (length bl) (send_bl h) \<and> cl_image_size h' = cl_image_size h \<and>
         (\<exists>fr. cl_frames h' i = Some fr \<and> \<not> fr_completed fr)"
  using assms
  by (auto simp: post_request_def put_message_def push_frame_def ConnectionHandler_recv_def ConnectionHandler_send_def
      new_op_def settle_op_def delete_op_def memcpy_all Let_def split: if_splits prod.splits)

text \<open>
  C3: Client and server agree after the handshake. The client posts an init request; the server,
  whose receive buffer then holds what the client sent, acquires and registers memory of the requested size;
  the client, whose receive buffer then holds what the server sent, runs its callback. Provided both
  ends read each other's descriptors as librpma documents, the callback ends without failure and
  marks the request as completed, the client's remote region is the one the server registered, and the
  client will flush to persistence exactly when the server's memory is persistent.
\<close>

theorem handshake_agrees:
  assumes "ceph_encoding c"
    and "post_request ec (RwlReplicaInitRequest_encode c (init_request cid csize pool img)) Init_replica_done
           (h\<lparr>cl_image_size := csize\<rparr>) tr = (Inr i, h1, tr1)"
    and "recv_bl s = send_bl h1" and "mm_data (data_manager s) = None"
    and "server_descriptors es mdesc pdesc" and "client_descriptors ec rsize rdirect"
    and "MemoryManager_init es csize (replica_path (info (init_request cid csize pool img))) (data_manager s) trs = (Inr (), m, trs1)"
    and "e_mr_reg (mr_of es) trs1 (ch_peer s) (mm_data m) (mm_size m) (mr_usage RPMA_OP_FLUSH (mm_is_pmem m)) = (0, Some mr)"
    and "28 + length (mdesc mr) + length (pdesc (mm_is_pmem m)) < MSG_SIZE" and "pdesc (mm_is_pmem m) \<noteq> []"
    and "rdirect (pdesc (mm_is_pmem m)) \<longleftrightarrow> mm_is_pmem m" and "csize \<le> rsize (mdesc mr)"
    and "RPMAHandler_deal_require es c junk s trs = (r, s', trs')"
  shows "r = Inr () \<and> data_manager s' = m \<and> data_mr s' = Some mr \<and>
         (\<exists>h' tr' m'. ClientHandler_run ec c (Init_replica_done i) (h1\<lparr>recv_bl := send_bl s'\<rparr>) tr2 = (Inr (), h', tr') \<and>
            frame_completed i (h', tr') \<and> cl_image_mr h' = Some m' \<and> remote_mr tr' m' = Some (mdesc mr) \<and>
            (cl_flush_type h' = RPMA_FLUSH_TYPE_PERSISTENT \<longleftrightarrow> mm_is_pmem m))"
proof -
  let ?info = "info (init_request cid csize pool img)"
  let ?reply = "success_reply mdesc pdesc mr (mm_is_pmem m)"
  note sent = post_request_message [OF assms(2)]
  have rq: "recv_bl s = RwlReplicaInitRequest_encode c \<lparr>type_of = RWL_REPLICA_INIT_REQUEST, info = ?info\<rparr> @
      drop (length (RwlReplicaInitRequest_encode c (init_request cid csize pool img))) (send_bl h)"
    using sent assms(3) by (simp add: init_request_def)
  have small: "36 + length (pool_name ?info) + length (image_name ?info) < 2 ^ 32"
    using sent by (simp add: ceph_encoding.init_request_length [OF assms(1)] init_request_def MSG_SIZE_def)
  have init: "MemoryManager_init es (cache_size ?info) (replica_path ?info) (data_manager s) trs = (Inr (), m, trs1)"
    using assms(7) by (simp add: init_request_def)
  obtain tl where server: "r = Inr ()" "data_manager s' = m" "data_mr s' = Some mr"
      "send_bl s' = RwlReplicaInitRequestReply_encode c ?reply @ tl"
    using init_answer [OF assms(1,5) rq small assms(4) init assms(8,9), of junk] assms(13) by auto
  let ?h = "h1\<lparr>recv_bl := send_bl s'\<rparr>"
  have "28 + length (mdesc mr) + length (pdesc (mm_is_pmem m)) < 2 ^ 32" using assms(9) by (simp add: MSG_SIZE_def)
  then obtain m' tr' where read: "remote_mr tr' m' = Some (mdesc mr)"
      "ClientHandler_get_remote_descriptor ec c ?h tr2 = (if rsize (mdesc mr) < cl_image_size ?h then (Inr (-1), ?h\<lparr>cl_image_mr := Some m'\<rparr>, tr')
       else (Inr 0, ?h\<lparr>cl_image_mr := Some m', cl_flush_type := (if rdirect (pdesc (mm_is_pmem m)) then RPMA_FLUSH_TYPE_PERSISTENT
                                                             else RPMA_FLUSH_TYPE_VISIBILITY)\<rparr>, tr'))"
    using read_reply [OF assms(1) _ _ assms(6), of ?h ?reply tl "mdesc mr" "pdesc (mm_is_pmem m)" tr2] assms(10) server(4)
    by (auto simp: success_reply_def)
  obtain fr where "cl_frames h1 i = Some fr" using sent by blast
  moreover have "\<not> rsize (mdesc mr) < cl_image_size ?h" using sent assms(12) by simp
  ultimately show ?thesis
    using server read assms(11)
    by (auto simp: ClientHandler_run_def set_completed_def frame_completed_def)
qed

text \<open>Client and server of the demonstration environments, with a region in persistent memory.\<close>

theorem handshake_agrees_witness:
  "\<exists>i h1 tr1 s' trs' h' tr' m'. post_request (client_env 4096) demo_init_msg Init_replica_done (waiting_client 4096 []) [] = (Inr i, h1, tr1) \<and>
     RPMAHandler_deal_require server_env ceph_le 0 (waiting_server (send_bl h1)) [] = (Inr (), s', trs') \<and>
     ClientHandler_run (client_env 4096) ceph_le (Init_replica_done i) (h1\<lparr>recv_bl := send_bl s'\<rparr>) tr1 = (Inr (), h', tr') \<and>
     cl_image_mr h' = Some m' \<and> remote_mr tr' m' = Some ''MR'' \<and> cl_flush_type h' = RPMA_FLUSH_TYPE_PERSISTENT"
proof -
  have info: "init_request 1 4096 ''RBD'' ''test'' = \<lparr>type_of = RWL_REPLICA_INIT_REQUEST, info = demo_info\<rparr>"
    by (simp add: init_request_def demo_info_def)
  have w: "(waiting_client 4096 [])\<lparr>cl_image_size := 4096\<rparr> = waiting_client 4096 []" by (simp add: waiting_client_def)
  obtain q h1 tr1 where p: "post_request (client_env 4096) demo_init_msg Init_replica_done (waiting_client 4096 []) [] = (q, h1, tr1)"
    by (metis prod_cases3)
  then obtain i where q: "q = Inr i"
    by (auto simp: post_request_def put_message_def ceph_le.init_request_length demo_info_def MSG_SIZE_def Let_def
        split: prod.splits if_splits)
  let ?s = "waiting_server (send_bl h1)"
  obtain r m trs1 where mi: "MemoryManager_init server_env 4096 (replica_path demo_info) (data_manager ?s) [] = (r, m, trs1)"
    by (metis prod_cases3)
  then have m: "r = Inr ()" "mm_is_pmem m"
    by (auto simp: mm_defs server_env_def kernel_env_def demo_env_def demo_mem_def env_simps split: if_splits)
  have reg: "e_mr_reg (mr_of server_env) trs1 (ch_peer ?s) (mm_data m) (mm_size m)
      (mr_usage RPMA_OP_FLUSH (mm_is_pmem m)) = (0, Some (length trs1))"
    by (simp add: server_env_def kernel_env_def demo_env_def demo_defs)
  obtain x s' trs' where run: "RPMAHandler_deal_require server_env ceph_le 0 ?s [] = (x, s', trs')" by (metis prod_cases3)
  have "x = Inr () \<and> (\<exists>h' tr' m'. ClientHandler_run (client_env 4096) ceph_le (Init_replica_done i) (h1\<lparr>recv_bl := send_bl s'\<rparr>) tr1 = (Inr (), h', tr') \<and>
      cl_image_mr h' = Some m' \<and> remote_mr tr' m' = Some ''MR'' \<and> cl_flush_type h' = RPMA_FLUSH_TYPE_PERSISTENT)"
    using handshake_agrees [OF ceph_le.ceph_encoding_axioms _ _ _ server_env_descriptors client_env_descriptors [of 4096] _ reg _ _ _ _ run,
        where cid = 1 and csize = 4096 and pool = "''RBD''" and img = "''test''" and h = "waiting_client 4096 []" and tr = "[]"
          and i = i and ?h1.0 = h1 and ?tr1.0 = tr1 and ?tr2.0 = tr1] p q mi m
    by (auto simp: info w demo_pdesc_def MSG_SIZE_def)
  then show ?thesis using p q run by blast
qed

section \<open>Giving a region back\<close>

text \<open>
  C24: Closing a region is agreed on by client and server. The client posts a finish request; the server, whose receive
  buffer then holds what the client sent, drops the registration, releases the memory and tries to
  remove the file; the client, whose receive buffer then holds what the server sent, runs its
  callback, which marks the request as completed, and as successful exactly when the file was
  removed. If that happens in the first iteration of the waiting loop, \<open>close_replica\<close> returns 0
  exactly then, and -1 otherwise.
\<close>

theorem close_agrees:
  assumes "ceph_encoding c"
    and "post_request ec (RwlReplicaRequest_encode c \<lparr>type_of = RWL_REPLICA_FINISHED_REQUEST\<rparr>) Close_replica_done h tr = (Inr i, h1, tr1)"
    and "recv_bl s = send_bl h1"
    and "MemoryManager_close_and_remove es (data_manager s) (unique_delete RpmaMRDeleter (data_mr s) trs) = (ret, m, trs1)"
    and "RPMAHandler_deal_require es c junk s trs = (r, s', trs')"
  shows "r = Inr () \<and> data_mr s' = None \<and> mm_data (data_manager s') = None \<and>
    (\<forall>a. mm_data (data_manager s) = Some a \<longrightarrow> live_blocks trs' a = None) \<and>
    (\<exists>h' tr'. ClientHandler_run ec c (Close_replica_done i) (h1\<lparr>recv_bl := send_bl s'\<rparr>) tr2 = (Inr (), h', tr') \<and>
       frame_completed i (h', tr') \<and> (frame_successed i (h', tr') \<longleftrightarrow> ret = 0) \<and>
       (\<forall>sched clk cost n p. cost < TIMEOUT_US \<and> sched 0 (h1, tr1) = (delete_op p h', tr') \<longrightarrow>
          ClientHandler_close_replica ec c sched clk (Suc (Suc n)) cost h tr
            = Some (Inr (if ret = 0 then 0 else -1), pop_frame i (delete_op p h'), tr')))"
proof -
  note sent = post_request_message [OF assms(2)]
  obtain evs where server: "r = Inr ()" "trs' = trs1 @ evs" "data_mr s' = None" "mm_data (data_manager s') = None"
      "\<forall>a. mm_data (data_manager s) = Some a \<longrightarrow> live_blocks trs' a = None"
      "send_bl s' = RwlReplicaRequest_encode c (finish_reply ret) @ drop 10 (send_bl s)"
    using finish_answer [OF assms(1) _ assms(4), of _ junk] sent assms(3,5) by auto
  let ?h = "h1\<lparr>recv_bl := send_bl s'\<rparr>"
  obtain fr where fr: "cl_frames h1 i = Some fr" "\<not> fr_completed fr" using sent by blast
  have reply: "RwlReplicaRequest_decode c (recv_bl ?h) = Some (finish_reply ret, drop 10 (send_bl s))"
    by (simp add: server(6) ceph_encoding.request_roundtrip [OF assms(1)])
  define h' where "h' = ?h\<lparr>cl_frames := (cl_frames h1)(i \<mapsto> fr\<lparr>fr_successed := (ret = 0), fr_completed := True\<rparr>)\<rparr>"
  have "ClientHandler_run ec c (Close_replica_done i) ?h tr2 = (Inr (), h', tr2)"
    using reply fr by (simp add: ClientHandler_run_def set_completed_def h'_def finish_reply_def rwl_types)
  moreover have "frame_completed i (h', tr2)" "frame_successed i (h', tr2) = (ret = 0)"
    by (simp_all add: h'_def frame_completed_def frame_successed_def)
  moreover have "ClientHandler_close_replica ec c sched clk (Suc (Suc n)) cost h tr
            = Some (Inr (if ret = 0 then 0 else -1), pop_frame i (delete_op p h'), tr2)"
    if "cost < TIMEOUT_US" "sched 0 (h1, tr1) = (delete_op p h', tr2)" for sched clk cost n p
    using that assms(2) fr by (simp add: ClientHandler_close_replica_def frame_completed_def frame_successed_def h'_def)
  ultimately show ?thesis using server(1,3-5) by blast
qed

theorem close_agrees_witness:
  "\<exists>i h1 tr1 s' trs' h' tr'. post_request (client_env 0) demo_finish_msg Close_replica_done (waiting_client 0 []) [] = (Inr i, h1, tr1) \<and>
     RPMAHandler_deal_require server_env ceph_le 0 ((waiting_server (send_bl h1))\<lparr>data_mr := Some 7,
       data_manager := \<lparr>mm_data = Some 42, mm_size = 64, mm_is_pmem = True, mm_path = ''/mnt/pmem/f''\<rparr>\<rparr>) [] = (Inr (), s', trs') \<and>
     live_blocks trs' 42 = None \<and>
     ClientHandler_close_replica (client_env 0) ceph_le (\<lambda>k s. (delete_op 0 h', tr')) (\<lambda>_. 0) 2 0 (waiting_client 0 []) []
       = Some (Inr 0, pop_frame i (delete_op 0 h'), tr')"
proof -
  obtain q h1 tr1 where p: "post_request (client_env 0) demo_finish_msg Close_replica_done (waiting_client 0 []) [] = (q, h1, tr1)"
    by (metis prod_cases3)
  then obtain i where q: "q = Inr i"
    by (auto simp: post_request_def put_message_def ceph_le.request_length MSG_SIZE_def Let_def split: prod.splits if_splits)
  let ?s = "(waiting_server (send_bl h1))\<lparr>data_mr := Some 7,
       data_manager := \<lparr>mm_data = Some 42, mm_size = 64, mm_is_pmem = True, mm_path = ''/mnt/pmem/f''\<rparr>\<rparr>"
  obtain ret m trs1 where cl: "MemoryManager_close_and_remove server_env (data_manager ?s) (unique_delete RpmaMRDeleter (data_mr ?s) []) = (ret, m, trs1)"
    by (metis prod_cases3)
  then have ret: "ret = 0"
    by (auto simp: MemoryManager_close_and_remove_def server_env_def kernel_env_def demo_env_def demo_mem_def env_simps)
  obtain x s' trs' where run: "RPMAHandler_deal_require server_env ceph_le 0 ?s [] = (x, s', trs')" by (metis prod_cases3)
  have b: "recv_bl ?s = send_bl h1" by (simp add: waiting_server_def)
  note a = close_agrees [OF ceph_le.ceph_encoding_axioms p [unfolded q] b cl run, of tr1]
  have x: "x = Inr ()" "live_blocks trs' 42 = None" using a by simp_all
  obtain h' tr' where c: "\<forall>sched clk cost n p. cost < TIMEOUT_US \<and> sched 0 (h1, tr1) = (delete_op p h', tr') \<longrightarrow>
         ClientHandler_close_replica (client_env 0) ceph_le sched clk (Suc (Suc n)) cost (waiting_client 0 []) []
            = Some (Inr (if ret = 0 then 0 else -1), pop_frame i (delete_op p h'), tr')"
    using a by blast
  have "ClientHandler_close_replica (client_env 0) ceph_le (\<lambda>k s. (delete_op 0 h', tr')) (\<lambda>_. 0) 2 0 (waiting_client 0 []) []
       = Some (Inr 0, pop_frame i (delete_op 0 h'), tr')"
    using c [rule_format, of 0 "\<lambda>k s. (delete_op 0 h', tr')" 0 "\<lambda>_. 0" 0] ret by (simp add: numeral_2_eq_2 TIMEOUT_US_def)
  with p q run x show ?thesis by blast
qed

end
